(* ===== verification/Prelude.thy ===== *)
theory Prelude
  imports Main "HOL-Library.Sublist" "HOL-Library.Word"
begin

text \<open>
  Shared vocabulary of the development: results of fallible Go functions, the loop that
  collects values without duplicates (written several times in the repository), the theory of
  normalising functions (the code applies one to a record every time it loads or saves
  it), and machine-integer abbreviations.
\<close>

named_theorems idem \<open>idempotence of normalising functions\<close>
named_theorems go_string \<open>evaluation facts about the Go string functions\<close>

subsection \<open>Results and machine integers\<close>

type_synonym 'a result = "string + 'a"
type_synonym u64 = "64 word"

fun bind_res :: "'e + 'a \<Rightarrow> ('a \<Rightarrow> 'e + 'b) \<Rightarrow> 'e + 'b" where
  "bind_res (Inl e) f = Inl e"
| "bind_res (Inr x) f = f x"

lemma bind_res_Inr_iff: "bind_res m f = Inr y \<longleftrightarrow> (\<exists>x. m = Inr x \<and> f x = Inr y)"
  by (cases m) auto

lemma bind_res_Inl_iff:
  "bind_res m f = Inl e \<longleftrightarrow> m = Inl e \<or> (\<exists>x. m = Inr x \<and> f x = Inl e)"
  by (cases m) auto

definition is_ok :: "'e + 'a \<Rightarrow> bool" where
  "is_ok r = (case r of Inl _ \<Rightarrow> False | Inr _ \<Rightarrow> True)"

lemma is_ok_simps [simp]: "is_ok (Inl e) = False" "is_ok (Inr x) = True"
  by (simp_all add: is_ok_def)

lemma is_ok_iff: "is_ok r \<longleftrightarrow> (\<exists>x. r = Inr x)"
  by (cases r) auto

text \<open>A chain of checks \<^verbatim>\<open>if err := f(); err != nil { return err }\<close> succeeds when all do.\<close>

lemma check_seq_iff:
  "(case r of Inl e \<Rightarrow> Inl e | Inr (u :: unit) \<Rightarrow> g) = Inr y \<longleftrightarrow> r = Inr () \<and> g = Inr y"
  by (cases r) auto

lemma guard_Inr_iff [simp]: "(if b then Inl e else r) = Inr y \<longleftrightarrow> \<not> b \<and> r = Inr y"
  by simp

lemma guard_option_Inr_iff [simp]:
  "(case c of None \<Rightarrow> r | Some e \<Rightarrow> Inl (f e)) = Inr y \<longleftrightarrow> c = None \<and> r = Inr y"
  by (cases c) auto

lemma in_set_map_filter: "y \<in> set (List.map_filter f xs) \<longleftrightarrow> (\<exists>x \<in> set xs. f x = Some y)"
  by (induction xs) (auto simp: List.map_filter_def)

subsection \<open>Normalising functions\<close>

text \<open>
  A normaliser maps every value to a canonical one and leaves canonical values alone.  The
  lemmas say what a client may rely on when it normalises at every load and every save.
\<close>

locale normaliser =
  fixes norm :: "'a \<Rightarrow> 'a"
  assumes norm_norm: "norm (norm x) = norm x"
begin

lemma map_norm_idem: "map norm (map norm xs) = map norm xs"
  by (simp add: norm_norm)

lemma norm_fixpoint_iff: "norm x = x \<longleftrightarrow> (\<exists>y. x = norm y)"
  by (metis norm_norm)

lemma norm_eq_trans: "norm x = norm y \<Longrightarrow> norm (norm x) = norm y"
  by (simp add: norm_norm)

lemma all_canonical: "\<forall>x \<in> set (map norm xs). norm x = x"
  by (auto simp: norm_norm)

lemma map_norm_canonical: "\<forall>x \<in> set xs. norm x = x \<Longrightarrow> map norm xs = xs"
  by (induction xs) auto

end

subsection \<open>Collecting without duplicates\<close>

text \<open>
  \<^verbatim>\<open>for _, item := range items { v := f(item); if v == "" { continue }
       if _, ok := seen[v]; ok { continue }; seen[v] = struct{}{}; out = append(out, v) }\<close>
\<close>

fun collect_unique :: "(string \<Rightarrow> string) \<Rightarrow> string list \<Rightarrow> string list \<Rightarrow> string list" where
  "collect_unique f seen [] = []"
| "collect_unique f seen (item # items) =
     (let v = f item in
      if v = [] then collect_unique f seen items
      else if v \<in> set seen then collect_unique f seen items
      else v # collect_unique f (v # seen) items)"

lemma set_collect_unique:
  "set (collect_unique f seen items) = f ` set items - {[]} - set seen"
  by (induction f seen items rule: collect_unique.induct) (auto simp: Let_def)

lemma distinct_collect_unique: "distinct (collect_unique f seen items)"
  by (induction f seen items rule: collect_unique.induct)
    (auto simp: Let_def set_collect_unique)

lemma collect_unique_canonical:
  "distinct xs \<Longrightarrow> [] \<notin> set xs \<Longrightarrow> set xs \<inter> set seen = {} \<Longrightarrow> \<forall>x \<in> set xs. f x = x
   \<Longrightarrow> collect_unique f seen xs = xs"
  by (induction xs arbitrary: seen) (auto simp: Let_def)

lemma collect_unique_idem:
  assumes "\<And>x. f (f x) = f x"
  shows "collect_unique f [] (collect_unique f [] xs) = collect_unique f [] xs"
  by (rule collect_unique_canonical)
    (auto simp: distinct_collect_unique set_collect_unique assms)

lemma subseq_collect_unique: "subseq (collect_unique f seen items) (map f items)"
  by (induction f seen items rule: collect_unique.induct) (auto simp: Let_def)

subsection \<open>Updating the first match of a list\<close>

text \<open>
  \<^verbatim>\<open>for i := range xs { if !p(xs[i]) { continue }; xs[i] = g(xs[i]); ...; return }\<close>
\<close>

fun update_first :: "('a \<Rightarrow> bool) \<Rightarrow> ('a \<Rightarrow> 'a) \<Rightarrow> 'a list \<Rightarrow> 'a list" where
  "update_first p g [] = []"
| "update_first p g (x # xs) = (if p x then g x # xs else x # update_first p g xs)"

lemma update_first_none: "\<forall>x \<in> set xs. \<not> p x \<Longrightarrow> update_first p g xs = xs"
  by (induction xs) auto

lemma length_update_first [simp]: "length (update_first p g xs) = length xs"
  by (induction xs) auto

lemma map_update_first:
  "(\<And>x. h (g x) = h x) \<Longrightarrow> map h (update_first p g xs) = map h xs"
  by (induction xs) auto

lemma set_update_first:
  "y \<in> set (update_first p g xs) \<Longrightarrow> y \<in> set xs \<or> (\<exists>x \<in> set xs. p x \<and> y = g x)"
  by (induction xs) (auto split: if_splits)

lemma find_update_first:
  "(\<And>x. p x \<Longrightarrow> p (g x)) \<Longrightarrow> find p (update_first p g xs) = map_option g (find p xs)"
  by (induction xs) auto

lemma find_update_first_other:
  "(\<And>x. p x \<Longrightarrow> \<not> q x \<and> \<not> q (g x)) \<Longrightarrow> find q (update_first p g xs) = find q xs"
  by (induction xs) auto

lemma find_map: "find p (map f xs) = map_option f (find (p \<circ> f) xs)"
  by (induction xs) auto

lemma find_append: "find p (xs @ ys) = (case find p xs of None \<Rightarrow> find p ys | Some x \<Rightarrow> Some x)"
  by (induction xs) auto

lemma find_filter_other:
  "(\<And>x. p x \<Longrightarrow> q x) \<Longrightarrow> find p (filter q xs) = find p xs"
  by (induction xs) auto

lemma find_cong_set: "(\<And>x. x \<in> set xs \<Longrightarrow> p x = q x) \<Longrightarrow> find p xs = find q xs"
  by (induction xs) auto

text \<open>\<^verbatim>\<open>time.Duration\<close> is an \<^verbatim>\<open>int64\<close> count of nanoseconds: products wrap around.\<close>

definition wrap64 :: "int \<Rightarrow> int" where
  "wrap64 x = sint (word_of_int x :: 64 word)"

lemma wrap64_id: "- (2 ^ 63) \<le> x \<Longrightarrow> x < 2 ^ 63 \<Longrightarrow> wrap64 x = x"
  by (simp add: wrap64_def sint_sbintrunc' signed_take_bit_int_eq_self)

end
