(* ===== verification/Go_Strings.thy ===== *)
theory Go_Strings
  imports Prelude
begin

text \<open>
  The functions of Go's \<^verbatim>\<open>strings\<close> and \<^verbatim>\<open>strconv\<close> packages that the agent uses, over byte
  strings (\<^typ>\<open>string\<close> is a list of 8-bit characters, as a Go string is a list of bytes).
  \<open>trim_space\<close> is exact on all byte strings: the white space of \<^verbatim>\<open>unicode.IsSpace\<close> is the
  list \<open>ws_seqs\<close> of its UTF-8 encodings.  \<open>to_lower\<close> and \<open>fold_case\<close> map ASCII letters
  and the non-ASCII letters whose lower-case (or simple fold) is an ASCII letter, so every
  comparison with an ASCII string, which is how the agent uses them, is exact; other
  non-ASCII letters are left alone.
\<close>

subsection \<open>White space\<close>

definition ws_seqs :: "string list" where
  "ws_seqs =
    [[CHR 0x20], [CHR 0x09], [CHR 0x0A], [CHR 0x0B], [CHR 0x0C], [CHR 0x0D],
     [CHR 0xC2, CHR 0x85], [CHR 0xC2, CHR 0xA0], [CHR 0xE1, CHR 0x9A, CHR 0x80],
     [CHR 0xE2, CHR 0x80, CHR 0x80], [CHR 0xE2, CHR 0x80, CHR 0x81],
     [CHR 0xE2, CHR 0x80, CHR 0x82], [CHR 0xE2, CHR 0x80, CHR 0x83],
     [CHR 0xE2, CHR 0x80, CHR 0x84], [CHR 0xE2, CHR 0x80, CHR 0x85],
     [CHR 0xE2, CHR 0x80, CHR 0x86], [CHR 0xE2, CHR 0x80, CHR 0x87],
     [CHR 0xE2, CHR 0x80, CHR 0x88], [CHR 0xE2, CHR 0x80, CHR 0x89],
     [CHR 0xE2, CHR 0x80, CHR 0x8A], [CHR 0xE2, CHR 0x80, CHR 0xA8],
     [CHR 0xE2, CHR 0x80, CHR 0xA9], [CHR 0xE2, CHR 0x80, CHR 0xAF],
     [CHR 0xE2, CHR 0x81, CHR 0x9F], [CHR 0xE3, CHR 0x80, CHR 0x80]]"

fun starts_seq :: "string list \<Rightarrow> string \<Rightarrow> string option" where
  "starts_seq [] s = None"
| "starts_seq (q # qs) s = (if q \<noteq> [] \<and> prefix q s then Some q else starts_seq qs s)"

lemma starts_seq_Some: "starts_seq qs s = Some q \<Longrightarrow> q \<in> set qs \<and> q \<noteq> [] \<and> prefix q s"
  by (induction qs) (auto split: if_splits)

lemma starts_seq_None_iff: "starts_seq qs s = None \<longleftrightarrow> (\<forall>q \<in> set qs. q \<noteq> [] \<longrightarrow> \<not> prefix q s)"
  by (induction qs) auto

function strip_seqs :: "string list \<Rightarrow> string \<Rightarrow> string" where
  "strip_seqs qs s =
     (case starts_seq qs s of None \<Rightarrow> s | Some q \<Rightarrow> strip_seqs qs (drop (length q) s))"
  by pat_completeness auto
termination
proof (relation "measure (\<lambda>(qs, s). length s)")
  show "wf (measure (\<lambda>(qs, s). length s))" by simp
next
  fix qs s q
  assume "starts_seq qs s = Some q"
  then have "q \<noteq> []" and "prefix q s" by (auto dest: starts_seq_Some)
  then show "((qs, drop (length q) s), qs, s) \<in> measure (\<lambda>(qs, s). length s)"
    by (auto dest: prefix_length_le simp: prefix_def)
qed

declare strip_seqs.simps [simp del]

lemma strip_seqs_Nil [simp]: "strip_seqs qs [] = []"
proof -
  have "starts_seq qs [] = None" by (auto simp: starts_seq_None_iff)
  then show ?thesis by (simp add: strip_seqs.simps)
qed

lemma starts_strip_seqs: "starts_seq qs (strip_seqs qs s) = None"
proof (induction qs s rule: strip_seqs.induct)
  case (1 qs s)
  then show ?case
    by (cases "starts_seq qs s") (simp_all add: strip_seqs.simps [of qs s])
qed

lemma strip_seqs_id: "starts_seq qs s = None \<Longrightarrow> strip_seqs qs s = s"
  by (simp add: strip_seqs.simps)

lemma suffix_strip_seqs: "suffix (strip_seqs qs s) s"
proof (induction qs s rule: strip_seqs.induct)
  case (1 qs s)
  show ?case
  proof (cases "starts_seq qs s")
    case None
    then show ?thesis by (simp add: strip_seqs_id)
  next
    case (Some q)
    then have "suffix (strip_seqs qs (drop (length q) s)) (drop (length q) s)"
      by (rule 1)
    with Some show ?thesis
      by (simp add: strip_seqs.simps [of qs s]) (metis suffix_drop suffix_order.trans)
  qed
qed

definition trim_left :: "string \<Rightarrow> string" where
  "trim_left s = strip_seqs ws_seqs s"

definition trim_right :: "string \<Rightarrow> string" where
  "trim_right s = rev (strip_seqs (map rev ws_seqs) (rev s))"

definition trim_space :: "string \<Rightarrow> string" where
  "trim_space s = trim_right (trim_left s)"

text \<open>A string is trimmed when no white space starts or ends it.\<close>

definition trimmed :: "string \<Rightarrow> bool" where
  "trimmed s \<longleftrightarrow> starts_seq ws_seqs s = None \<and> starts_seq (map rev ws_seqs) (rev s) = None"

lemma prefix_trim_right: "prefix (trim_right s) s"
  using suffix_strip_seqs [of "map rev ws_seqs" "rev s"]
  by (simp add: trim_right_def suffix_to_prefix)

lemma trimmed_trim_space [simp]: "trimmed (trim_space s)"
proof -
  have "starts_seq ws_seqs (trim_left s) = None"
    by (simp add: trim_left_def starts_strip_seqs)
  then have "starts_seq ws_seqs (trim_right (trim_left s)) = None"
    using prefix_trim_right [of "trim_left s"]
    by (auto simp: starts_seq_None_iff dest: prefix_order.trans)
  then show ?thesis
    by (simp add: trimmed_def trim_space_def trim_right_def starts_strip_seqs)
qed

lemma trim_space_trimmed: "trimmed s \<Longrightarrow> trim_space s = s"
  by (simp add: trimmed_def trim_space_def trim_left_def trim_right_def strip_seqs_id)

lemma trim_space_idem [simp, idem]: "trim_space (trim_space s) = trim_space s"
  by (simp add: trim_space_trimmed)

lemma trim_space_Nil [simp]: "trim_space [] = []"
  by (simp add: trim_space_def trim_left_def trim_right_def)

text \<open>A string that starts with a visible character is not blank.\<close>

lemma strip_seqs_Nil_last:
  "strip_seqs qs s = [] \<Longrightarrow> s \<noteq> [] \<Longrightarrow> \<exists>q \<in> set qs. q \<noteq> [] \<and> last s = last q"
proof (induction qs s rule: strip_seqs.induct)
  case (1 qs s)
  show ?case
  proof (cases "starts_seq qs s")
    case None
    with 1(2,3) show ?thesis by (simp add: strip_seqs_id)
  next
    case (Some q)
    then have q: "q \<in> set qs" "q \<noteq> []" "prefix q s" by (auto dest: starts_seq_Some)
    show ?thesis
    proof (cases "drop (length q) s = []")
      case True
      with q have "s = q" by (auto simp: prefix_def)
      with q show ?thesis by auto
    next
      case False
      with 1 Some show ?thesis by (simp add: strip_seqs.simps [of qs s] last_drop)
    qed
  qed
qed

lemma trim_space_visible:
  assumes "c \<notin> hd ` set ws_seqs"
  shows "trim_space (c # s) \<noteq> []"
proof
  assume z: "trim_space (c # s) = []"
  have "starts_seq ws_seqs (c # s) = None"
    using assms by (force simp: starts_seq_None_iff prefix_Cons neq_Nil_conv)
  with z have "strip_seqs (map rev ws_seqs) (rev (c # s)) = []"
    by (simp add: trim_space_def trim_left_def trim_right_def strip_seqs_id)
  from strip_seqs_Nil_last [OF this] obtain q where
    "q \<in> set ws_seqs" "q \<noteq> []" "c = hd q" by (auto simp: last_rev)
  with assms show False by auto
qed

interpretation trim: normaliser trim_space
  by unfold_locales simp

subsection \<open>Cutsets and printable strings\<close>

text \<open>\<^verbatim>\<open>strings.Trim(s, cutset)\<close>, \<^verbatim>\<open>strings.TrimRight(s, cutset)\<close>.\<close>

definition trim_set :: "char list \<Rightarrow> string \<Rightarrow> string" where
  "trim_set cs s =
     rev (dropWhile (\<lambda>c. c \<in> set cs) (rev (dropWhile (\<lambda>c. c \<in> set cs) s)))"

definition trim_right_set :: "char list \<Rightarrow> string \<Rightarrow> string" where
  "trim_right_set cs s = rev (dropWhile (\<lambda>c. c \<in> set cs) (rev s))"

lemma dropWhile_id_iff: "dropWhile P s = s \<longleftrightarrow> s = [] \<or> \<not> P (hd s)"
proof (cases s)
  case (Cons a t)
  have "dropWhile P t \<noteq> a # t"
    using length_dropWhile_le [of P t] by (metis Suc_n_not_le_n length_Cons)
  with Cons show ?thesis by auto
qed simp

lemma set_dropWhile_subset: "set (dropWhile P s) \<subseteq> set s"
  by (auto dest: set_dropWhileD)

lemma prefix_rev_dropWhile: "prefix (rev (dropWhile P (rev s))) s"
  by (metis rev_rev_ident suffix_dropWhile suffix_to_prefix)

lemma set_trim_set: "set (trim_set cs s) \<subseteq> set s"
  unfolding trim_set_def set_rev using set_dropWhile_subset set_rev by (metis subset_trans)

lemma trim_set_fixedI: "s = [] \<or> hd s \<notin> set cs \<and> last s \<notin> set cs \<Longrightarrow> trim_set cs s = s"
  by (cases "s = []") (simp_all add: trim_set_def dropWhile_id_iff [THEN iffD2] hd_rev)

lemma hd_rev_dropWhile:
  "rev (dropWhile P (rev t)) \<noteq> [] \<Longrightarrow> hd (rev (dropWhile P (rev t))) = hd t"
  using prefix_rev_dropWhile [of P t] unfolding prefix_def by (metis hd_append2)

lemma trim_set_ends:
  assumes "trim_set cs s \<noteq> []"
  shows "hd (trim_set cs s) \<notin> set cs" and "last (trim_set cs s) \<notin> set cs"
proof -
  let ?P = "\<lambda>c. c \<in> set cs" and ?t = "dropWhile (\<lambda>c. c \<in> set cs) s"
  have ne: "?t \<noteq> []" "dropWhile ?P (rev ?t) \<noteq> []"
    using assms unfolding trim_set_def by (metis dropWhile.simps(1) rev.simps(1))+
  have "\<not> ?P (hd ?t)" using ne(1) by (rule hd_dropWhile)
  moreover have "hd (trim_set cs s) = hd ?t"
    using assms unfolding trim_set_def by (rule hd_rev_dropWhile)
  ultimately show "hd (trim_set cs s) \<notin> set cs" by simp
  show "last (trim_set cs s) \<notin> set cs"
    unfolding trim_set_def last_rev using ne(2) by (rule hd_dropWhile)
qed

lemma trim_set_idem [simp, idem]: "trim_set cs (trim_set cs s) = trim_set cs s"
  using trim_set_fixedI [of "trim_set cs s" cs] trim_set_ends [of cs s] by blast

interpretation cutset: normaliser "trim_set cs" for cs
  by unfold_locales simp

text \<open>Printable ASCII: on such strings only the space is white space.\<close>

definition printable :: "string \<Rightarrow> bool" where
  "printable s \<longleftrightarrow> (\<forall>c \<in> set s. 32 \<le> (of_char c :: nat) \<and> of_char c < (127 :: nat))"

lemma printable_simps [simp]:
  "printable []"
  "printable (c # s) \<longleftrightarrow> (32 \<le> (of_char c :: nat) \<and> of_char c < (127 :: nat)) \<and> printable s"
  "printable (s @ t) \<longleftrightarrow> printable s \<and> printable t"
  "printable (rev s) \<longleftrightarrow> printable s"
  by (auto simp: printable_def)

lemma printable_subset: "set t \<subseteq> set s \<Longrightarrow> printable s \<Longrightarrow> printable t"
  by (auto simp: printable_def)

definition unprintable_seqs :: "string list \<Rightarrow> bool" where
  "unprintable_seqs qs \<longleftrightarrow>
     list_all (\<lambda>q. q = [CHR 0x20] \<or> q = [] \<or> \<not> printable [hd q]) qs"

lemma unprintable_ws: "unprintable_seqs ws_seqs" "unprintable_seqs (map rev ws_seqs)"
  by code_simp+

lemma space_in_ws: "[CHR 0x20] \<in> set ws_seqs" "[CHR 0x20] \<in> set (map rev ws_seqs)"
  by code_simp+

lemma starts_seq_printable:
  "printable s \<Longrightarrow> unprintable_seqs qs \<Longrightarrow>
   starts_seq qs s =
     (if [CHR 0x20] \<in> set qs \<and> s \<noteq> [] \<and> hd s = CHR 0x20 then Some [CHR 0x20] else None)"
  by (induction qs; cases s) (auto simp: unprintable_seqs_def prefix_Cons neq_Nil_conv)

lemma strip_seqs_printable:
  "printable s \<Longrightarrow> unprintable_seqs qs \<Longrightarrow> [CHR 0x20] \<in> set qs \<Longrightarrow>
   strip_seqs qs s = dropWhile (\<lambda>c. c \<in> set [CHR 0x20]) s"
proof (induction s)
  case (Cons a s)
  have "starts_seq qs (a # s) = (if a = CHR 0x20 then Some [CHR 0x20] else None)"
    using starts_seq_printable [OF Cons.prems(1,2)] Cons.prems(3) by simp
  with Cons show ?case by (simp add: strip_seqs.simps [of _ "a # s"])
qed simp

lemma trim_space_printable: "printable s \<Longrightarrow> trim_space s = trim_set [CHR 0x20] s"
proof -
  assume p: "printable s"
  then have "printable (rev (dropWhile (\<lambda>c. c \<in> set [CHR 0x20]) s))"
    by (rule printable_subset [rotated]) (simp only: set_rev set_dropWhile_subset)
  with p show ?thesis
    by (simp add: trim_space_def trim_left_def trim_right_def trim_set_def strip_seqs_printable
        unprintable_ws space_in_ws)
qed

lemma trimmed_printable:
  "printable s \<Longrightarrow> s = [] \<or> hd s \<noteq> CHR 0x20 \<and> last s \<noteq> CHR 0x20 \<Longrightarrow> trim_space s = s"
  by (simp add: trim_space_printable trim_set_fixedI)

subsection \<open>Letter case\<close>

definition lower_char :: "char \<Rightarrow> char" where
  "lower_char c =
     (let n = of_char c :: nat in if 65 \<le> n \<and> n \<le> 90 then char_of (n + 32) else c)"

text \<open>
  \<^verbatim>\<open>strings.ToLower\<close>.  U+0130 and the Kelvin sign U+212A are the non-ASCII letters whose
  lower case is an ASCII letter.
\<close>

fun to_lower :: "string \<Rightarrow> string" where
  "to_lower [] = []"
| "to_lower (c # s) =
     (if c = CHR 0xC4 \<and> take 1 s = [CHR 0xB0] then CHR ''i'' # to_lower (drop 1 s)
      else if c = CHR 0xE2 \<and> take 2 s = [CHR 0x84, CHR 0xAA] then CHR ''k'' # to_lower (drop 2 s)
      else lower_char c # to_lower s)"

text \<open>
  \<^verbatim>\<open>strings.EqualFold\<close> compares simple folds: the Kelvin sign folds to k, the long s
  U+017F to s.
\<close>

fun fold_case :: "string \<Rightarrow> string" where
  "fold_case [] = []"
| "fold_case (c # s) =
     (if c = CHR 0xC5 \<and> take 1 s = [CHR 0xBF] then CHR ''s'' # fold_case (drop 1 s)
      else if c = CHR 0xE2 \<and> take 2 s = [CHR 0x84, CHR 0xAA] then CHR ''k'' # fold_case (drop 2 s)
      else lower_char c # fold_case s)"

definition equal_fold :: "string \<Rightarrow> string \<Rightarrow> bool" where
  "equal_fold s t \<longleftrightarrow> fold_case s = fold_case t"

lemma lower_char_range: "lower_char c = c \<or> 97 \<le> (of_char (lower_char c) :: nat) \<and> of_char (lower_char c) \<le> (122::nat)"
  by (auto simp: lower_char_def Let_def)

lemma lower_char_idem [simp, idem]: "lower_char (lower_char c) = lower_char c"
  by (auto simp: lower_char_def Let_def)

lemma lower_char_high:
  assumes "lower_char c = d" and "(122::nat) < of_char d"
  shows "c = d"
  using lower_char_range [of c] assms by auto

lemma take_Suc_eq_Cons: "take (Suc n) s = d # ds \<longleftrightarrow> (\<exists>t. s = d # t \<and> take n t = ds)"
  by (cases s) auto

lemma to_lower_head_high:
  assumes "to_lower s = d # t" and "(122::nat) < of_char d"
  shows "\<exists>s'. s = d # s' \<and> to_lower s' = t"
proof (cases s)
  case (Cons c s')
  with assms show ?thesis
    by (auto split: if_splits dest: lower_char_high [OF refl, symmetric])
qed (use assms in simp)

lemma to_lower_idem [simp, idem]: "to_lower (to_lower s) = to_lower s"
proof (induction s rule: to_lower.induct)
  case (2 c s)
  show ?case
  proof (cases "c = CHR 0xC4 \<and> take 1 s = [CHR 0xB0] \<or>
                c = CHR 0xE2 \<and> take 2 s = [CHR 0x84, CHR 0xAA]")
    case True
    with 2 show ?thesis by (auto simp: lower_char_def)
  next
    case False
    then have c: "to_lower (c # s) = lower_char c # to_lower s" by auto
    have "\<not> (lower_char c = CHR 0xC4 \<and> take 1 (to_lower s) = [CHR 0xB0])"
      using False lower_char_high [of c "CHR 0xC4"] to_lower_head_high [of s "CHR 0xB0"]
      by (auto simp: numeral_2_eq_2 take_Suc_eq_Cons)
    moreover have "\<not> (lower_char c = CHR 0xE2 \<and> take 2 (to_lower s) = [CHR 0x84, CHR 0xAA])"
      using False lower_char_high [of c "CHR 0xE2"] to_lower_head_high [of s "CHR 0x84"]
        to_lower_head_high [of _ "CHR 0xAA"]
      by (fastforce simp: numeral_2_eq_2 take_Suc_eq_Cons)
    moreover have "to_lower (to_lower s) = to_lower s"
      using 2(3) False by auto
    ultimately show ?thesis unfolding c by auto
  qed
qed simp

interpretation lower: normaliser to_lower
  by unfold_locales simp

lemma printable_no_high: "printable (c # s) \<Longrightarrow> c \<noteq> CHR 0xC4 \<and> c \<noteq> CHR 0xE2 \<and> c \<noteq> CHR 0xC5"
  by auto

lemma to_lower_printable: "printable s \<Longrightarrow> to_lower s = map lower_char s"
  by (induction s) (auto dest: printable_no_high)

lemma printable_lower: "printable s \<Longrightarrow> printable (map lower_char s)"
  by (induction s) (auto simp: lower_char_def Let_def)

lemma equal_fold_refl [simp]: "equal_fold s s"
  by (simp add: equal_fold_def)

lemma equal_fold_sym: "equal_fold s t \<longleftrightarrow> equal_fold t s"
  by (auto simp: equal_fold_def)

subsection \<open>Prefixes, replacement, search\<close>

definition trim_prefix :: "string \<Rightarrow> string \<Rightarrow> string" where
  "trim_prefix p s = (if prefix p s then drop (length p) s else s)"

definition trim_suffix :: "string \<Rightarrow> string \<Rightarrow> string" where
  "trim_suffix p s = (if suffix p s then take (length s - length p) s else s)"

text \<open>
  \<^verbatim>\<open>strings.ReplaceAll(s, old, new)\<close> for a non-empty \<open>old\<close>; the agent never calls it with
  an empty one.
\<close>

function replace_all :: "string \<Rightarrow> string \<Rightarrow> string \<Rightarrow> string" where
  "replace_all old new s =
     (if old = [] \<or> s = [] then s
      else if prefix old s then new @ replace_all old new (drop (length old) s)
      else hd s # replace_all old new (tl s))"
  by pat_completeness auto
termination
  by (relation "measure (\<lambda>(old, new, s). length s)") auto

declare replace_all.simps [simp del]

lemma replace_all_Nil [simp]: "replace_all old new [] = []"
  by (simp add: replace_all.simps)

lemma replace_all_Cons:
  "old \<noteq> [] \<Longrightarrow> replace_all old new (c # s) =
     (if prefix old (c # s) then new @ replace_all old new (drop (length old) (c # s))
      else c # replace_all old new s)"
  by (simp add: replace_all.simps [of old new "c # s"])

lemma replace_all_char:
  "replace_all [a] [b] s = map (\<lambda>c. if c = a then b else c) s"
  by (induction s) (auto simp: replace_all_Cons)

lemma replace_all_drop_char:
  "replace_all [a] [] s = filter (\<lambda>c. c \<noteq> a) s"
  by (induction s) (auto simp: replace_all_Cons)

lemma replace_all_id: "\<not> sublist old s \<Longrightarrow> replace_all old new s = s"
proof (induction s)
  case (Cons c s)
  then have "\<not> prefix old (c # s)" "\<not> sublist old s" "old \<noteq> []"
    by (auto simp: sublist_Cons_right)
  with Cons show ?case by (simp add: replace_all_Cons)
qed simp

text \<open>\<^verbatim>\<open>strings.Index\<close>: the position of the first occurrence.\<close>

fun index_of :: "string \<Rightarrow> string \<Rightarrow> nat option" where
  "index_of sub [] = (if sub = [] then Some 0 else None)"
| "index_of sub (c # s) =
     (if prefix sub (c # s) then Some 0 else map_option Suc (index_of sub s))"

lemma index_of_Some:
  "index_of sub s = Some i \<Longrightarrow> i + length sub \<le> length s \<and> prefix sub (drop i s)"
proof (induction s arbitrary: i)
  case (Cons c s)
  then show ?case by (auto split: if_splits dest: prefix_length_le)
qed (auto split: if_splits)

lemma index_of_decomp:
  assumes "index_of sub s = Some i"
  shows "s = take i s @ sub @ drop (i + length sub) s"
proof -
  have "prefix sub (drop i s)" using index_of_Some [OF assms] by simp
  then have "drop i s = sub @ drop (length sub) (drop i s)"
    by (metis append_eq_conv_conj prefix_def)
  then show ?thesis by (metis add.commute append_take_drop_id drop_drop)
qed

lemma index_of_None_iff: "index_of sub s = None \<longleftrightarrow> \<not> sublist sub s"
  by (induction s) (auto simp: sublist_Cons_right)

lemma index_of_least:
  "index_of sub s = Some i \<Longrightarrow> j < i \<Longrightarrow> \<not> prefix sub (drop j s)"
proof (induction s arbitrary: i j)
  case (Cons c s)
  then show ?case by (cases j) (auto split: if_splits)
qed (auto split: if_splits)

definition contains :: "string \<Rightarrow> string \<Rightarrow> bool" where
  "contains s sub \<longleftrightarrow> index_of sub s \<noteq> None"

lemma contains_iff: "contains s sub \<longleftrightarrow> sublist sub s"
  by (simp add: contains_def index_of_None_iff)

text \<open>\<^verbatim>\<open>strings.Cut\<close> at a one-byte separator.\<close>

definition cut_at :: "char \<Rightarrow> string \<Rightarrow> string \<times> string option" where
  "cut_at c s =
     (takeWhile (\<lambda>x. x \<noteq> c) s,
      case dropWhile (\<lambda>x. x \<noteq> c) s of [] \<Rightarrow> None | _ # t \<Rightarrow> Some t)"

lemma cut_at_Some: "cut_at c s = (a, Some b) \<Longrightarrow> s = a @ c # b \<and> c \<notin> set a"
  by (auto simp: cut_at_def split: list.splits dest: set_takeWhileD)
    (metis (mono_tags, lifting) dropWhile_eq_Cons_conv)

lemma cut_at_append: "c \<notin> set a \<Longrightarrow> cut_at c (a @ c # b) = (a, Some b)"
  by (induction a) (auto simp: cut_at_def)

lemma cut_at_absent: "c \<notin> set s \<Longrightarrow> cut_at c s = (s, None)"
  by (induction s) (auto simp: cut_at_def)

subsection \<open>Splitting and joining\<close>

text \<open>\<^verbatim>\<open>strings.Split(s, sep)\<close> for a one-byte separator.\<close>

fun split_on :: "char \<Rightarrow> string \<Rightarrow> string list" where
  "split_on c [] = [[]]"
| "split_on c (x # xs) =
     (if x = c then [] # split_on c xs
      else case split_on c xs of [] \<Rightarrow> [[x]] | y # ys \<Rightarrow> (x # y) # ys)"

fun join :: "string \<Rightarrow> string list \<Rightarrow> string" where
  "join sep [] = []"
| "join sep [x] = x"
| "join sep (x # y # ys) = x @ sep @ join sep (y # ys)"

lemma split_on_ne [simp]: "split_on c s \<noteq> []"
  by (induction s) (auto split: list.splits)

lemma join_Cons: "xs \<noteq> [] \<Longrightarrow> join sep (x # xs) = x @ sep @ join sep xs"
  by (cases xs) auto

lemma join_hd_Cons: "join sep ((a # x) # xs) = a # join sep (x # xs)"
  by (cases xs) auto

lemma join_split_on: "join [c] (split_on c s) = s"
  by (induction s) (auto simp: join_Cons join_hd_Cons split: list.splits)

lemma split_on_free: "x \<in> set (split_on c s) \<Longrightarrow> c \<notin> set x"
proof (induction s arbitrary: x)
  case (Cons a s)
  then show ?case by (auto split: if_splits list.splits)
qed simp

lemma split_on_absent: "c \<notin> set x \<Longrightarrow> split_on c x = [x]"
  by (induction x) auto

lemma split_on_append: "c \<notin> set x \<Longrightarrow> split_on c (x @ c # s) = x # split_on c s"
  by (induction x) auto

lemma split_on_join:
  "xs \<noteq> [] \<Longrightarrow> \<forall>x \<in> set xs. c \<notin> set x \<Longrightarrow> split_on c (join [c] xs) = xs"
  by (induction "[c]" xs rule: join.induct) (auto simp: split_on_absent split_on_append)

subsection \<open>Fields\<close>

text \<open>\<^verbatim>\<open>strings.Fields\<close>: the maximal runs of non-space characters.\<close>

fun span_word :: "string \<Rightarrow> string \<times> string" where
  "span_word [] = ([], [])"
| "span_word (c # s) =
     (if starts_seq ws_seqs (c # s) \<noteq> None then ([], c # s)
      else case span_word s of (w, r) \<Rightarrow> (c # w, r))"

lemma span_word_length: "length (snd (span_word s)) \<le> length s"
  by (induction s) (auto split: prod.splits)

lemma length_trim_left: "length (trim_left s) \<le> length s"
  unfolding trim_left_def by (rule suffix_length_le [OF suffix_strip_seqs])

function str_fields :: "string \<Rightarrow> string list" where
  "str_fields s =
     (case trim_left s of [] \<Rightarrow> []
      | c # t \<Rightarrow> (c # fst (span_word t)) # str_fields (snd (span_word t)))"
  by pat_completeness auto
termination
proof (relation "measure length")
  fix s c t
  assume "trim_left s = c # t"
  then show "(snd (span_word t), s) \<in> measure length"
    using span_word_length [of t] length_trim_left [of s] by simp
qed simp

declare str_fields.simps [simp del]

subsection \<open>Numbers\<close>

definition digit_val :: "char \<Rightarrow> nat option" where
  "digit_val c =
     (let n = of_char c :: nat in if 48 \<le> n \<and> n \<le> 57 then Some (n - 48) else None)"

fun parse_digits :: "nat \<Rightarrow> nat \<Rightarrow> string \<Rightarrow> nat option" where
  "parse_digits base acc [] = Some acc"
| "parse_digits base acc (c # s) =
     (case digit_val c of
        None \<Rightarrow> None
      | Some d \<Rightarrow> if d < base then parse_digits base (acc * base + d) s else None)"

text \<open>\<^verbatim>\<open>strconv.ParseUint(s, base, bits)\<close> for a base of at most ten.\<close>

definition parse_uint :: "nat \<Rightarrow> nat \<Rightarrow> string \<Rightarrow> nat option" where
  "parse_uint base bits s =
     (if s = [] then None
      else case parse_digits base 0 s of
             None \<Rightarrow> None
           | Some n \<Rightarrow> if n < 2 ^ bits then Some n else None)"

lemma parse_uint_bound: "parse_uint base bits s = Some n \<Longrightarrow> n < 2 ^ bits"
  by (auto simp: parse_uint_def split: if_splits option.splits)

text \<open>Decimal rendering of a natural number, as \<^verbatim>\<open>%d\<close> and \<^verbatim>\<open>strconv.Itoa\<close> print it.\<close>

fun show_nat :: "nat \<Rightarrow> string" where
  "show_nat n = (if n < 10 then [char_of (48 + n)] else show_nat (n div 10) @ [char_of (48 + n mod 10)])"

declare show_nat.simps [simp del]

lemma digit_val_char_of: "d < 10 \<Longrightarrow> digit_val (char_of (48 + d)) = Some d"
  by (simp add: digit_val_def)

lemma parse_digits_append:
  "parse_digits b acc (s @ t) =
     (case parse_digits b acc s of None \<Rightarrow> None | Some a \<Rightarrow> parse_digits b a t)"
  by (induction s arbitrary: acc) (auto split: option.splits)

lemma parse_digits_show: "parse_digits 10 0 (show_nat n) = Some n"
proof (induction n rule: show_nat.induct)
  case (1 n)
  then show ?case
    by (simp add: show_nat.simps [of n] parse_digits_append digit_val_char_of)
qed

lemma show_nat_ne: "show_nat n \<noteq> []"
  by (subst show_nat.simps) simp

lemma digits_show_nat: "\<forall>c \<in> set (show_nat n). 48 \<le> (of_char c :: nat) \<and> of_char c \<le> (57 :: nat)"
proof (induction n rule: show_nat.induct)
  case (1 n)
  have "n mod 10 \<le> 9" using pos_mod_bound [of 10 "int n"] by linarith
  then show ?case using 1 by (auto simp: show_nat.simps [of n])
qed

lemma parse_uint_show: "n < 2 ^ bits \<Longrightarrow> parse_uint 10 bits (show_nat n) = Some n"
  by (simp add: parse_uint_def parse_digits_show show_nat_ne)

subsection \<open>Lines\<close>

text \<open>
  \<^verbatim>\<open>bufio.Scanner\<close> with a buffer of at most \<open>lim\<close> bytes: lines without their end of line, an
  unterminated last line included; a line that does not fit stops the scan with an error.  A
  scanner that is given no buffer takes 65536 bytes.
\<close>

definition drop_cr :: "string \<Rightarrow> string" where
  "drop_cr l = trim_suffix [CHR 0x0D] l"

definition raw_lines :: "string \<Rightarrow> string list" where
  "raw_lines s = (let ls = split_on (CHR 0x0A) s in if last ls = [] then butlast ls else ls)"

definition fits_upto :: "int \<Rightarrow> string \<Rightarrow> bool" where
  "fits_upto lim l \<longleftrightarrow> int (length l) < lim"

definition scan_upto :: "int \<Rightarrow> string \<Rightarrow> string list" where
  "scan_upto lim s = map drop_cr (takeWhile (fits_upto lim) (raw_lines s))"

definition scan_upto_error :: "int \<Rightarrow> string \<Rightarrow> string option \<Rightarrow> string option" where
  "scan_upto_error lim s readErr =
     (if list_all (fits_upto lim) (raw_lines s) then readErr else Some ''bufio.Scanner: token too long'')"

abbreviation fits_buffer :: "string \<Rightarrow> bool" where "fits_buffer \<equiv> fits_upto 65536"
abbreviation scan_lines :: "string \<Rightarrow> string list" where "scan_lines \<equiv> scan_upto 65536"
abbreviation scan_error :: "string \<Rightarrow> string option \<Rightarrow> string option" where "scan_error \<equiv> scan_upto_error 65536"

end
