(* ===== verification/Go_Url.thy ===== *)
theory Go_Url
  imports Go_Strings
begin

text \<open>
  The parts of Go's \<^verbatim>\<open>net/url\<close>, \<^verbatim>\<open>path\<close>, \<^verbatim>\<open>path/filepath\<close> and \<^verbatim>\<open>net\<close> packages the agent
  relies on to judge artifact URLs and endpoints.  The callers discard the text of a parse
  error, so parsing returns an option.  A host in brackets keeps its content: whether it is
  a well-formed IPv6 address is not checked here, so the parser accepts a little more than
  Go's there.
\<close>

subsection \<open>Last separators\<close>

definition cut_last :: "char \<Rightarrow> string \<Rightarrow> (string \<times> string) option" where
  "cut_last c s =
     (case cut_at c (rev s) of (_, None) \<Rightarrow> None | (a, Some b) \<Rightarrow> Some (rev b, rev a))"

lemma cut_last_Some: "cut_last c s = Some (a, b) \<Longrightarrow> s = a @ c # b \<and> c \<notin> set b"
proof -
  assume "cut_last c s = Some (a, b)"
  then have "cut_at c (rev s) = (rev b, Some (rev a))"
    by (auto simp: cut_last_def split: prod.splits option.splits)
  from cut_at_Some [OF this] show ?thesis
    by (metis append.assoc append_Cons append_Nil rev.simps(2) rev_append rev_rev_ident set_rev)
qed

lemma cut_last_append: "c \<notin> set b \<Longrightarrow> cut_last c (a @ c # b) = Some (a, b)"
  by (simp add: cut_last_def cut_at_append)

lemma cut_last_absent: "c \<notin> set s \<Longrightarrow> cut_last c s = None"
  by (simp add: cut_last_def cut_at_absent)

subsection \<open>Percent-decoding\<close>

definition hex_val :: "char \<Rightarrow> nat option" where
  "hex_val c =
     (let n = of_char c :: nat in
      if 48 \<le> n \<and> n \<le> 57 then Some (n - 48)
      else if 97 \<le> n \<and> n \<le> 102 then Some (n - 87)
      else if 65 \<le> n \<and> n \<le> 70 then Some (n - 55)
      else None)"

text \<open>
  \<open>unescape ok_plain ok_hi s\<close> decodes \<^verbatim>\<open>%XY\<close>; a plain byte must satisfy \<open>ok_plain\<close>, an
  escape whose two hex digits are \<open>h\<close>, \<open>l\<close> must satisfy \<open>ok_esc h l\<close>.
\<close>

fun unescape :: "(char \<Rightarrow> bool) \<Rightarrow> (nat \<Rightarrow> nat \<Rightarrow> bool) \<Rightarrow> string \<Rightarrow> string option" where
  "unescape ok_plain ok_esc [] = Some []"
| "unescape ok_plain ok_esc (c # s) =
     (if c = CHR ''%''
      then (case map hex_val (take 2 s) of
              [Some h, Some l] \<Rightarrow>
                if ok_esc h l
                then map_option ((#) (char_of (16 * h + l))) (unescape ok_plain ok_esc (drop 2 s))
                else None
            | _ \<Rightarrow> None)
      else if ok_plain c then map_option ((#) c) (unescape ok_plain ok_esc s) else None)"

definition alnum :: "char \<Rightarrow> bool" where
  "alnum c =
     (let n = of_char c :: nat in
      48 \<le> n \<and> n \<le> 57 \<or> 65 \<le> n \<and> n \<le> 90 \<or> 97 \<le> n \<and> n \<le> 122)"

text \<open>\<^verbatim>\<open>shouldEscape(c, encodeHost)\<close> is false exactly on these ASCII bytes.\<close>

definition host_byte :: "char \<Rightarrow> bool" where
  "host_byte c \<longleftrightarrow> (128::nat) \<le> of_char c \<or> alnum c \<or> c \<in> set ''!$&'' \<or> c = CHR 0x27
     \<or> c \<in> set ''()*+,;=:[]<>'' \<or> c = CHR 0x22 \<or> c \<in> set ''-_.~''"

definition unescape_path :: "string \<Rightarrow> string option" where
  "unescape_path = unescape (\<lambda>_. True) (\<lambda>_ _. True)"

definition unescape_host :: "string \<Rightarrow> string option" where
  "unescape_host = unescape host_byte (\<lambda>h l. 8 \<le> h \<or> h = 2 \<and> l = 5)"

subsection \<open>Parsing a URL\<close>

record url =
  u_scheme :: string
  u_host :: string
  u_path :: string

text \<open>
  \<^verbatim>\<open>getScheme\<close>: \<open>None\<close> is "missing protocol scheme"; otherwise the scheme (possibly
  empty) and the rest.
\<close>

fun scheme_scan :: "string \<Rightarrow> string \<Rightarrow> string \<Rightarrow> (string \<times> string) option" where
  "scheme_scan raw acc [] = Some ([], raw)"
| "scheme_scan raw acc (c # s) =
     (let n = of_char c :: nat in
      if 97 \<le> n \<and> n \<le> 122 \<or> 65 \<le> n \<and> n \<le> 90 then scheme_scan raw (acc @ [c]) s
      else if 48 \<le> n \<and> n \<le> 57 \<or> c \<in> set ''+-.''
      then if acc = [] then Some ([], raw) else scheme_scan raw (acc @ [c]) s
      else if c = CHR '':'' then if acc = [] then None else Some (acc, s)
      else Some ([], raw))"

definition get_scheme :: "string \<Rightarrow> (string \<times> string) option" where
  "get_scheme raw = scheme_scan raw [] raw"

definition valid_optional_port :: "string \<Rightarrow> bool" where
  "valid_optional_port p =
     (case p of [] \<Rightarrow> True
      | c # ds \<Rightarrow> c = CHR '':'' \<and> list_all (\<lambda>d. digit_val d \<noteq> None) ds)"

definition parse_host :: "string \<Rightarrow> string option" where
  "parse_host host =
     (if prefix ''['' host
      then (case cut_last (CHR '']'') host of
              None \<Rightarrow> None
            | Some (_, port) \<Rightarrow> if valid_optional_port port then unescape_host host else None)
      else (case cut_at (CHR '':'') host of
              (_, None) \<Rightarrow> unescape_host host
            | (_, Some port) \<Rightarrow>
                if valid_optional_port (CHR '':'' # port) then unescape_host host else None))"

definition userinfo_byte :: "char \<Rightarrow> bool" where
  "userinfo_byte c \<longleftrightarrow> alnum c \<or> c \<in> set ''-._:~!$&'' \<or> c = CHR 0x27 \<or> c \<in> set ''()*+,;=%@''"

definition parse_authority :: "string \<Rightarrow> string option" where
  "parse_authority authority =
     (case cut_last (CHR ''@'') authority of
        None \<Rightarrow> parse_host authority
      | Some (userinfo, hostpart) \<Rightarrow>
          (case parse_host hostpart of
             None \<Rightarrow> None
           | Some host \<Rightarrow>
               if list_all userinfo_byte userinfo \<and> unescape_path userinfo \<noteq> None
               then Some host else None))"

definition cut_query :: "string \<Rightarrow> string" where
  "cut_query rest = fst (cut_at (CHR ''?'') rest)"

definition parse_url_body :: "string \<Rightarrow> url option" where
  "parse_url_body raw =
     (if list_ex (\<lambda>c. (of_char c :: nat) < 32 \<or> of_char c = (127::nat)) raw then None
      else if raw = ''*'' then Some \<lparr>u_scheme = [], u_host = [], u_path = ''*''\<rparr>
      else case get_scheme raw of
        None \<Rightarrow> None
      | Some (scheme0, rest0) \<Rightarrow>
         (let scheme = to_lower scheme0; rest = cut_query rest0 in
          if \<not> prefix ''/'' rest \<and> scheme \<noteq> []
          then Some \<lparr>u_scheme = scheme, u_host = [], u_path = []\<rparr>
          else if \<not> prefix ''/'' rest \<and> CHR '':'' \<in> set (fst (cut_at (CHR ''/'') rest)) then None
          else if prefix ''//'' rest \<and> (scheme \<noteq> [] \<or> \<not> prefix ''///'' rest)
          then (case cut_at (CHR ''/'') (drop 2 rest) of
                  (authority, tl_opt) \<Rightarrow>
                    (case (parse_authority authority,
                           unescape_path (case tl_opt of None \<Rightarrow> [] | Some p \<Rightarrow> CHR ''/'' # p)) of
                       (Some host, Some p) \<Rightarrow> Some \<lparr>u_scheme = scheme, u_host = host, u_path = p\<rparr>
                     | _ \<Rightarrow> None))
          else map_option (\<lambda>p. \<lparr>u_scheme = scheme, u_host = [], u_path = p\<rparr>) (unescape_path rest)))"

definition url_parse :: "string \<Rightarrow> url option" where
  "url_parse raw =
     (case cut_at (CHR ''#'') raw of
        (u, frag) \<Rightarrow>
          (case parse_url_body u of
             None \<Rightarrow> None
           | Some url \<Rightarrow>
               (case frag of None \<Rightarrow> Some url
                | Some f \<Rightarrow> if unescape_path f = None then None else Some url)))"

text \<open>\<^verbatim>\<open>URL.Hostname()\<close> and \<^verbatim>\<open>URL.Port()\<close>.\<close>

definition split_host_port_url :: "string \<Rightarrow> string \<times> string" where
  "split_host_port_url hp =
     (let (h, p) = (case cut_last (CHR '':'') hp of
                      None \<Rightarrow> (hp, [])
                    | Some (h, p) \<Rightarrow>
                        if valid_optional_port (CHR '':'' # p) then (h, p) else (hp, []))
      in (if prefix ''['' h \<and> suffix '']'' h then butlast (tl h) else h, p))"

definition url_hostname :: "url \<Rightarrow> string" where
  "url_hostname u = fst (split_host_port_url (u_host u))"

definition url_port :: "url \<Rightarrow> string" where
  "url_port u = snd (split_host_port_url (u_host u))"

subsection \<open>Slash-separated paths\<close>

fun clean_segs :: "bool \<Rightarrow> string list \<Rightarrow> string list \<Rightarrow> string list" where
  "clean_segs rooted acc [] = rev acc"
| "clean_segs rooted acc (seg # segs) =
     (if seg = [] \<or> seg = ''.'' then clean_segs rooted acc segs
      else if seg = ''..''
      then (if acc \<noteq> [] \<and> hd acc \<noteq> ''..'' then clean_segs rooted (tl acc) segs
            else if rooted then clean_segs rooted acc segs
            else clean_segs rooted (seg # acc) segs)
      else clean_segs rooted (seg # acc) segs)"

text \<open>\<^verbatim>\<open>path.Clean\<close>, which is \<^verbatim>\<open>filepath.Clean\<close> on Unix.\<close>

definition path_clean :: "string \<Rightarrow> string" where
  "path_clean p =
     (let rooted = prefix ''/'' p;
          out = join ''/'' (clean_segs rooted [] (split_on (CHR ''/'') p))
      in if rooted then CHR ''/'' # out else if out = [] then ''.'' else out)"

definition path_join :: "string list \<Rightarrow> string" where
  "path_join elems =
     (case dropWhile (\<lambda>e. e = []) elems of [] \<Rightarrow> [] | es \<Rightarrow> path_clean (join ''/'' es))"

definition path_base :: "string \<Rightarrow> string" where
  "path_base p =
     (if p = [] then ''.''
      else let q = trim_right_set ''/'' p;
               b = (case cut_last (CHR ''/'') q of None \<Rightarrow> q | Some (_, b) \<Rightarrow> b)
           in if b = [] then ''/'' else b)"

definition path_dir :: "string \<Rightarrow> string" where
  "path_dir p =
     path_clean (case cut_last (CHR ''/'') p of None \<Rightarrow> [] | Some (d, _) \<Rightarrow> d @ ''/'')"

text \<open>The segments of a cleaned rooted path are proper names.\<close>

definition proper_seg :: "string \<Rightarrow> bool" where
  "proper_seg s \<longleftrightarrow> s \<noteq> [] \<and> s \<noteq> ''.'' \<and> s \<noteq> ''..''"

lemma set_tl_subset: "set (tl xs) \<subseteq> set xs"
  by (cases xs) auto

lemma clean_segs_rooted:
  "\<forall>a \<in> set acc. proper_seg a \<Longrightarrow> \<forall>s \<in> set (clean_segs True acc segs). proper_seg s"
proof (induction segs arbitrary: acc)
  case (Cons seg segs)
  from Cons.prems set_tl_subset have tl: "\<forall>a \<in> set (tl acc). proper_seg a" by fast
  consider "seg = [] \<or> seg = ''.''" | "seg = ''..''" | "proper_seg seg"
    by (auto simp: proper_seg_def)
  then show ?case
  proof cases
    case 3
    then have "\<forall>a \<in> set (seg # acc). proper_seg a" using Cons.prems by simp
    from Cons.IH [OF this] 3 show ?thesis by (simp add: proper_seg_def)
  qed (use Cons.IH [OF tl] Cons.IH [OF Cons.prems] in auto)
qed simp

subsection \<open>host:port\<close>

text \<open>\<^verbatim>\<open>net.SplitHostPort\<close>; the callers discard the error text.\<close>

definition split_host_port :: "string \<Rightarrow> (string \<times> string) option" where
  "split_host_port hp =
     (case cut_last (CHR '':'') hp of
        None \<Rightarrow> None
      | Some (pre, port) \<Rightarrow>
          if prefix ''['' hp
          then (case cut_at (CHR '']'') hp of
                  (_, None) \<Rightarrow> None
                | (h, Some rest) \<Rightarrow>
                    if h @ '']'' = pre \<and> CHR ''['' \<notin> set (tl hp) \<and> CHR '']'' \<notin> set rest
                    then Some (tl h, port) else None)
          else if CHR '':'' \<in> set pre \<or> CHR ''['' \<in> set hp \<or> CHR '']'' \<in> set hp then None
          else Some (pre, port))"

definition join_host_port :: "string \<Rightarrow> string \<Rightarrow> string" where
  "join_host_port host port =
     (if CHR '':'' \<in> set host then ''['' @ host @ '']:'' @ port else host @ '':'' @ port)"

text \<open>Joining and splitting agree on hosts without brackets and ports without colons.\<close>

lemma split_join_host_port:
  assumes "CHR ''['' \<notin> set host" "CHR '']'' \<notin> set host"
    and "CHR '':'' \<notin> set port" "CHR ''['' \<notin> set port" "CHR '']'' \<notin> set port"
  shows "split_host_port (join_host_port host port) = Some (host, port)"
proof (cases "CHR '':'' \<in> set host")
  case True
  have "cut_last (CHR '':'') (''['' @ host @ '']:'' @ port) = Some (''['' @ host @ '']'', port)"
    using cut_last_append [OF assms(3), of "''['' @ host @ '']''"] by simp
  moreover have "cut_at (CHR '']'') (''['' @ host @ '']:'' @ port)
      = (''['' @ host, Some (CHR '':'' # port))"
    using cut_at_append [of "CHR '']''" "''['' @ host"] assms(2) by simp
  ultimately show ?thesis
    using True assms by (simp add: split_host_port_def join_host_port_def)
next
  case False
  have "cut_last (CHR '':'') (host @ '':'' @ port) = Some (host, port)"
    using cut_last_append [OF assms(3), of host] by simp
  moreover have "\<not> prefix ''['' (host @ '':'' @ port)"
    using assms(1) by (cases host) auto
  ultimately show ?thesis
    using False assms by (simp add: split_host_port_def join_host_port_def)
qed

end
