(* ===== verification/Module_Types.thy ===== *)
theory Module_Types
  imports Go_Strings
begin

text \<open>
  The data of the installer (\<^verbatim>\<open>internal/agent/install/module_types.go\<close>): requests, results,
  responses, the inventory record, the artifact manifest and its parts.  A Go map that the
  code ranges over is an association list in the iteration order of that run; nothing is
  proved for one particular order only.  An \<^verbatim>\<open>int32\<close> that is only compared is an \<^typ>\<open>int\<close>.
\<close>

subsection \<open>Constants\<close>

type_synonym install_stage = string
type_synonym str_map = "(string \<times> string) list"

definition StageValidate :: install_stage where "StageValidate = ''validate''"
definition StageDownload :: install_stage where "StageDownload = ''download''"
definition StageVerify :: install_stage where "StageVerify = ''verify''"
definition StageUnpack :: install_stage where "StageUnpack = ''unpack''"
definition StageRender :: install_stage where "StageRender = ''render''"
definition StageApply :: install_stage where "StageApply = ''apply''"
definition StageHealth :: install_stage where "StageHealth = ''healthcheck''"
definition StageRollback :: install_stage where "StageRollback = ''rollback''"
definition StageCompleted :: install_stage where "StageCompleted = ''completed''"

abbreviation RuntimeLinuxSystemd :: string where "RuntimeLinuxSystemd \<equiv> ''linux-systemd''"
abbreviation InstallerRPCVersionV1 :: string where "InstallerRPCVersionV1 \<equiv> ''aurora.installer.rpc.v1''"
abbreviation BundleSchemaVersionV1 :: string where "BundleSchemaVersionV1 \<equiv> ''aurora.installer.bundle.v1''"
abbreviation BundleSchemaVersionLegacy :: string where "BundleSchemaVersionLegacy \<equiv> ''v1''"

abbreviation InstallStatusUnknown :: string where "InstallStatusUnknown \<equiv> ''unknown''"
abbreviation InstallStatusInstalling :: string where "InstallStatusInstalling \<equiv> ''installing''"
abbreviation InstallStatusInstalled :: string where "InstallStatusInstalled \<equiv> ''installed''"
abbreviation InstallStatusFailed :: string where "InstallStatusFailed \<equiv> ''failed''"

abbreviation ModuleHealthUnknown :: string where "ModuleHealthUnknown \<equiv> ''unknown''"
abbreviation ModuleHealthStarting :: string where "ModuleHealthStarting \<equiv> ''starting''"
abbreviation ModuleHealthHealthy :: string where "ModuleHealthHealthy \<equiv> ''healthy''"
abbreviation ModuleHealthUnhealthy :: string where "ModuleHealthUnhealthy \<equiv> ''unhealthy''"
abbreviation ModuleHealthDegraded :: string where "ModuleHealthDegraded \<equiv> ''degraded''"

lemmas stage_defs = StageValidate_def StageDownload_def StageVerify_def StageUnpack_def
  StageRender_def StageApply_def StageHealth_def StageRollback_def StageCompleted_def

subsection \<open>The artifact manifest\<close>

record capabilities =
  cap_install :: bool
  cap_restart :: bool
  cap_uninstall :: bool
  cap_migration :: bool
  cap_admin_rpc_bootstrap :: bool
  cap_nginx_integration :: bool

record binary_spec =
  bin_path :: string
  bin_install_path :: string
  bin_mode :: string

record asset_spec =
  asset_path :: string
  asset_install_path :: string

record service_spec =
  svc_name :: string
  svc_template_path :: string
  svc_unit_path :: string

record nginx_spec =
  ngx_enabled :: bool
  ngx_template_path :: string
  ngx_site_path :: string

record healthcheck_spec =
  hc_type :: string
  hc_scheme :: string
  hc_host :: string
  hc_paths :: "string list"
  hc_timeout_seconds :: int

record manifest =
  mf_schema_version :: string
  mf_module :: string
  mf_version :: string
  mf_runtime :: string
  mf_capabilities :: capabilities
  mf_binary :: binary_spec
  mf_assets :: "asset_spec list"
  mf_service :: service_spec
  mf_nginx :: nginx_spec
  mf_env_path :: string
  mf_bootstrap_module :: string
  mf_healthcheck :: healthcheck_spec

definition no_capabilities :: capabilities where
  "no_capabilities =
     \<lparr>cap_install = False, cap_restart = False, cap_uninstall = False, cap_migration = False,
      cap_admin_rpc_bootstrap = False, cap_nginx_integration = False\<rparr>"

subsection \<open>Requests, results and responses\<close>

record log_entry =
  le_stage :: install_stage
  le_message :: string

record install_request =
  ir_api_version :: string
  ir_request_id :: string
  ir_module :: string
  ir_version :: string
  ir_artifact_url :: string
  ir_artifact_checksum :: string
  ir_app_host :: string
  ir_app_port :: int
  ir_env :: str_map
  ir_files :: str_map

record install_result =
  is_api_version :: string
  is_module :: string
  is_version :: string
  is_runtime :: string
  is_service_name :: string
  is_unit_path :: string
  is_binary_path :: string
  is_env_file_path :: string
  is_nginx_site_path :: string
  is_asset_paths :: "string list"
  is_endpoint :: string
  is_status :: string
  is_health :: string
  is_manifest_schema_version :: string
  is_capabilities :: capabilities

record 'r response =
  rsp_api_version :: string
  rsp_ok :: bool
  rsp_result :: "'r option"
  rsp_logs :: "log_entry list"
  rsp_error_text :: string

record stream_event =
  ev_api_version :: string
  ev_type :: string
  ev_stage :: install_stage
  ev_message :: string
  ev_result :: "install_result option"
  ev_error_text :: string

record restart_request =
  rr_api_version :: string
  rr_request_id :: string
  rr_module :: string
  rr_service_name :: string

record uninstall_request =
  ur_api_version :: string
  ur_request_id :: string
  ur_module :: string
  ur_service_name :: string
  ur_unit_path :: string
  ur_binary_path :: string
  ur_env_file_path :: string
  ur_nginx_site_path :: string
  ur_asset_paths :: "string list"

text \<open>\<^verbatim>\<open>RestartModuleResult\<close> and \<^verbatim>\<open>UninstallModuleResult\<close> have the same fields.\<close>

record service_result =
  sr_api_version :: string
  sr_module :: string
  sr_runtime :: string
  sr_service_name :: string
  sr_status :: string
  sr_health :: string

record installed_record =
  in_api_version :: string
  in_module :: string
  in_version :: string
  in_runtime :: string
  in_service_name :: string
  in_unit_path :: string
  in_binary_path :: string
  in_env_file_path :: string
  in_nginx_site_path :: string
  in_asset_paths :: "string list"
  in_endpoint :: string
  in_status :: string
  in_health :: string
  in_observed_at :: string
  in_manifest_schema_version :: string
  in_capabilities :: capabilities

end
