(* ===== verification/Host_Files.thy ===== *)
theory Host_Files
  imports Prelude Go_Strings Go_Url Module_Types "HOL-Library.Char_ord" "HOL-Library.List_Lexorder"
begin

text \<open>
  The host's file tree and the calls of package \<^verbatim>\<open>os\<close> the installer makes on it.  A path is its
  cleaned list of names, a tree an association list from paths to nodes; relative paths are
  taken at the root, where systemd starts the agent.  There are no symbolic links, owners or
  times.  Every call may fail, before or after it did part of its work.
\<close>

subsection \<open>Trees\<close>

type_synonym path = "string list"
type_synonym file_mode = "32 word"

datatype node =
    Reg string file_mode
  | Dir file_mode
  | Special

type_synonym fs = "(path \<times> node) list"

definition segs :: "string \<Rightarrow> path" where
  "segs p = clean_segs True [] (split_on (CHR ''/'') p)"

definition fs_get :: "fs \<Rightarrow> path \<Rightarrow> node option" where
  "fs_get fs p = (if p = [] then Some (Dir 0x1ED) else map_of fs p)"

definition fs_put :: "fs \<Rightarrow> path \<Rightarrow> node \<Rightarrow> fs" where
  "fs_put fs p n = (p, n) # fs"

definition fs_del :: "fs \<Rightarrow> path \<Rightarrow> fs" where
  "fs_del fs p = filter (\<lambda>e. \<not> prefix p (fst e)) fs"

definition fs_children :: "fs \<Rightarrow> path \<Rightarrow> path list" where
  "fs_children fs p = sort (remdups (map fst (filter (\<lambda>e. strict_prefix p (fst e)) fs)))"

lemma fs_get_root [simp]: "fs_get fs [] = Some (Dir 0x1ED)"
  by (simp add: fs_get_def)

lemma fs_get_put: "p \<noteq> [] \<Longrightarrow> fs_get (fs_put fs p n) q = (if q = p then Some n else fs_get fs q)"
  by (simp add: fs_get_def fs_put_def)

lemma map_of_filter_keys: "map_of (filter (\<lambda>e. P (fst e)) xs) k = (if P k then map_of xs k else None)"
  by (induction xs) auto

lemma fs_get_del: "p \<noteq> [] \<Longrightarrow> fs_get (fs_del fs p) q = (if prefix p q then None else fs_get fs q)"
  by (auto simp: fs_get_def fs_del_def map_of_filter_keys [of "\<lambda>k. \<not> prefix p k"])

lemma set_fs_children: "set (fs_children fs p) = {q. strict_prefix p q \<and> fs_get fs q \<noteq> None}"
proof -
  have k: "q \<in> fst ` set fs \<longleftrightarrow> map_of fs q \<noteq> None" for q
    by (metis map_of_eq_None_iff)
  have "set (fs_children fs p) = {q \<in> fst ` set fs. strict_prefix p q}"
    by (auto simp: fs_children_def)
  also have "\<dots> = {q. strict_prefix p q \<and> fs_get fs q \<noteq> None}"
    by (cases "p = []") (auto simp: k fs_get_def)
  finally show ?thesis .
qed

lemma fs_children_sorted: "sorted (fs_children fs p)" "distinct (fs_children fs p)"
  by (simp_all add: fs_children_def)

definition is_dir :: "node option \<Rightarrow> bool" where
  "is_dir n = (case n of Some (Dir _) \<Rightarrow> True | _ \<Rightarrow> False)"

lemma is_dir_simps [simp]: "is_dir None = False" "is_dir (Some (Dir m)) = True"
  "is_dir (Some (Reg c m)) = False" "is_dir (Some Special) = False"
  by (simp_all add: is_dir_def)

lemma is_dir_iff: "is_dir n \<longleftrightarrow> (\<exists>m. n = Some (Dir m))"
  by (simp add: is_dir_def split: option.splits node.splits)

text \<open>Every node lies in a directory.\<close>

definition wf_fs :: "fs \<Rightarrow> bool" where
  "wf_fs fs \<longleftrightarrow> (\<forall>p. p \<noteq> [] \<longrightarrow> fs_get fs p \<noteq> None \<longrightarrow> is_dir (fs_get fs (butlast p)))"

lemma wf_ancestor:
  assumes "wf_fs fs"
  shows "fs_get fs (p @ r) \<noteq> None \<Longrightarrow> r \<noteq> [] \<Longrightarrow> is_dir (fs_get fs p)"
proof (induction r rule: rev_induct)
  case (snoc x r)
  have "is_dir (fs_get fs (p @ r))"
    using assms snoc.prems unfolding wf_fs_def by (metis append_assoc append_is_Nil_conv butlast_snoc)
  then show ?case using snoc.IH by (cases "r = []") (auto simp: is_dir_iff)
qed simp

lemma wf_none_below: "wf_fs fs \<Longrightarrow> fs_get fs p = None \<Longrightarrow> fs_get fs (p @ r) = None"
  using wf_ancestor [of fs p r] by (metis append_Nil2 is_dir_simps(1))

lemma wf_below_file: "wf_fs fs \<Longrightarrow> \<not> is_dir (fs_get fs p) \<Longrightarrow> r \<noteq> [] \<Longrightarrow> fs_get fs (p @ r) = None"
  using wf_ancestor [of fs p r] by blast

lemma wf_put:
  assumes "wf_fs fs" "p \<noteq> []" "is_dir (fs_get fs (butlast p))"
    and "is_dir (fs_get fs p) \<Longrightarrow> is_dir (Some n)"
  shows "wf_fs (fs_put fs p n)"
proof -
  have "is_dir (fs_get (fs_put fs p n) (butlast q))" if q: "q \<noteq> []" "fs_get (fs_put fs p n) q \<noteq> None" for q
  proof (cases "q = p")
    case True
    then have "butlast q \<noteq> p" using q(1) by (metis append_butlast_last_id append_self_conv list.distinct(1))
    then show ?thesis using True assms by (simp add: fs_get_put)
  next
    case False
    then have "is_dir (fs_get fs (butlast q))" using q assms(1,2) by (auto simp: wf_fs_def fs_get_put)
    then show ?thesis using assms by (auto simp: fs_get_put)
  qed
  then show ?thesis by (auto simp: wf_fs_def)
qed

lemma wf_del: "wf_fs fs \<Longrightarrow> p \<noteq> [] \<Longrightarrow> wf_fs (fs_del fs p)"
proof -
  assume wf: "wf_fs fs" and p: "p \<noteq> []"
  have "is_dir (fs_get (fs_del fs p) (butlast q))" if q: "q \<noteq> []" "fs_get (fs_del fs p) q \<noteq> None" for q
  proof -
    have n: "\<not> prefix p q" "fs_get fs q \<noteq> None" using q p by (auto simp: fs_get_del split: if_splits)
    then have "\<not> prefix p (butlast q)"
      using prefix_order.trans [OF _ prefixeq_butlast] by blast
    then show ?thesis using wf q(1) n(2) p by (simp add: wf_fs_def fs_get_del)
  qed
  then show ?thesis by (simp add: wf_fs_def)
qed

subsection \<open>The host and its answers\<close>

datatype os_error = Not_exist | Not_dir | Is_dir | File_exists | Unsupported string | Os_fault string

fun os_text :: "os_error \<Rightarrow> string" where
  "os_text Not_exist = ''no such file or directory''"
| "os_text Not_dir = ''not a directory''"
| "os_text Is_dir = ''is a directory''"
| "os_text File_exists = ''file exists''"
| "os_text (Unsupported e) = e"
| "os_text (Os_fault e) = e"

text \<open>
  What the next call does: it works, it fails without an effect, or it fails after a part of
  its work, measured by a number.
\<close>

datatype fault = Works | Fails string | Torn string nat

record os =
  os_fault :: "nat \<Rightarrow> fault"
  os_umask :: file_mode
  os_suffix :: "nat \<Rightarrow> nat"
  os_command :: "nat \<Rightarrow> string option"
  os_delay :: "nat \<Rightarrow> nat"

text \<open>
  The host's files, the commands run, the stages logged, the addresses requested and the health
  probes sent so far, the monotonic clock in nanoseconds, and the number of calls made.
\<close>

record host =
  h_fs :: fs
  h_cmds :: "string list list"
  h_logs :: "log_entry list"
  h_urls :: "string list"
  h_probes :: "string list"
  h_clock :: int
  h_tick :: nat

text \<open>A Go function with an error result, on a state that is the host's or has it as a part.\<close>

type_synonym ('s, 'e, 'a) prog = "os \<Rightarrow> 's \<Rightarrow> ('e + 'a) \<times> 's"
type_synonym ('e, 'a) job = "(host, 'e, 'a) prog"
type_synonym 'a act = "(os_error, 'a) job"

text \<open>
  Of an \<^verbatim>\<open>os.FileMode\<close> the system sees the nine permission bits and the set-user-id,
  set-group-id and sticky bits; \<^verbatim>\<open>mkdir\<close> of the last three only the sticky bit.
\<close>

definition sys_mode :: "file_mode \<Rightarrow> file_mode" where
  "sys_mode m = and m 0xD001FF"

definition masked :: "os \<Rightarrow> file_mode \<Rightarrow> file_mode" where
  "masked os m = and (sys_mode m) (not (os_umask os))"

definition dir_masked :: "os \<Rightarrow> file_mode \<Rightarrow> file_mode" where
  "dir_masked os m = masked os (and m 0x1001FF)"

lemma masked_masked [simp]: "masked os (masked os m) = masked os m"
  by (simp add: masked_def sys_mode_def ac_simps)

lemma dir_masked_dir_masked [simp]: "dir_masked os (dir_masked os m) = dir_masked os m"
  by (simp add: dir_masked_def masked_def sys_mode_def ac_simps)

definition act_bind :: "('s, 'e, 'a) prog \<Rightarrow> ('a \<Rightarrow> ('s, 'e, 'b) prog) \<Rightarrow> ('s, 'e, 'b) prog" where
  "act_bind m f os h = (case m os h of (Inl e, h1) \<Rightarrow> (Inl e, h1) | (Inr x, h1) \<Rightarrow> f x os h1)"

definition act_ret :: "'a \<Rightarrow> ('s, 'e, 'a) prog" where
  "act_ret x os h = (Inr x, h)"

definition act_fail :: "'e \<Rightarrow> ('s, 'e, 'a) prog" where
  "act_fail e os h = (Inl e, h)"

fun act_each :: "('a \<Rightarrow> ('s, 'e, unit) prog) \<Rightarrow> 'a list \<Rightarrow> ('s, 'e, unit) prog" where
  "act_each f [] = act_ret ()"
| "act_each f (x # xs) = act_bind (f x) (\<lambda>_. act_each f xs)"

text \<open>What runs on the way out, whatever happened, its own error dropped.\<close>

definition act_finally :: "('s, 'e, 'a) prog \<Rightarrow> ('s, 'f, 'b) prog \<Rightarrow> ('s, 'e, 'a) prog" where
  "act_finally m f os h = (case m os h of (r, h1) \<Rightarrow> (r, snd (f os h1)))"

definition act_try :: "('s, 'e, 'a) prog \<Rightarrow> ('s, 'f, 'e + 'a) prog" where
  "act_try m os h = (case m os h of (r, h1) \<Rightarrow> (Inr r, h1))"

text \<open>One call: the whole effect and result, and the effect of its first \<open>n\<close> parts.\<close>

definition os_call :: "(fs \<Rightarrow> (os_error + 'a) \<times> fs) \<Rightarrow> (nat \<Rightarrow> fs \<Rightarrow> fs) \<Rightarrow> 'a act" where
  "os_call whole part os h =
     (let h1 = h\<lparr>h_tick := Suc (h_tick h)\<rparr> in
      case os_fault os (h_tick h) of
        Works \<Rightarrow> (case whole (h_fs h) of (r, fs) \<Rightarrow> (r, h1\<lparr>h_fs := fs\<rparr>))
      | Fails e \<Rightarrow> (Inl (Os_fault e), h1)
      | Torn e n \<Rightarrow> (Inl (Os_fault e), h1\<lparr>h_fs := part n (h_fs h)\<rparr>))"

subsection \<open>Calls\<close>

fun walk_to :: "fs \<Rightarrow> path \<Rightarrow> path \<Rightarrow> os_error + node" where
  "walk_to fs acc [] = (case fs_get fs acc of None \<Rightarrow> Inl Not_exist | Some n \<Rightarrow> Inr n)"
| "walk_to fs acc (s # ss) =
     (case fs_get fs acc of
        None \<Rightarrow> Inl Not_exist
      | Some (Dir _) \<Rightarrow> walk_to fs (acc @ [s]) ss
      | Some _ \<Rightarrow> Inl Not_dir)"

definition os_stat :: "path \<Rightarrow> node act" where
  "os_stat p = os_call (\<lambda>fs. (walk_to fs [] p, fs)) (\<lambda>_ fs. fs)"

definition os_open :: "path \<Rightarrow> unit act" where
  "os_open p = act_bind (os_stat p) (\<lambda>_. act_ret ())"

fun mkdirs :: "file_mode \<Rightarrow> path \<Rightarrow> path \<Rightarrow> fs \<Rightarrow> (os_error + unit) \<times> fs" where
  "mkdirs m acc [] fs = (Inr (), fs)"
| "mkdirs m acc (s # ss) fs =
     (let q = acc @ [s] in
      case fs_get fs q of
        None \<Rightarrow> mkdirs m q ss (fs_put fs q (Dir m))
      | Some (Dir _) \<Rightarrow> mkdirs m q ss fs
      | Some _ \<Rightarrow> (Inl Not_dir, fs))"

definition os_mkdir_all :: "path \<Rightarrow> file_mode \<Rightarrow> unit act" where
  "os_mkdir_all p m os =
     os_call (mkdirs (dir_masked os m) [] p) (\<lambda>n fs. snd (mkdirs (dir_masked os m) [] (take n p) fs)) os"

text \<open>Opening a file for writing keeps the mode of one that exists.\<close>

definition put_file :: "path \<Rightarrow> string \<Rightarrow> file_mode \<Rightarrow> fs \<Rightarrow> (os_error + unit) \<times> fs" where
  "put_file p content m fs =
     (if p = [] then (Inl Is_dir, fs)
      else case walk_to fs [] (butlast p) of
             Inl e \<Rightarrow> (Inl e, fs)
           | Inr (Dir _) \<Rightarrow>
               (case fs_get fs p of
                  None \<Rightarrow> (Inr (), fs_put fs p (Reg content m))
                | Some (Reg _ m0) \<Rightarrow> (Inr (), fs_put fs p (Reg content m0))
                | Some (Dir _) \<Rightarrow> (Inl Is_dir, fs)
                | Some Special \<Rightarrow> (Inr (), fs))
           | Inr _ \<Rightarrow> (Inl Not_dir, fs))"

definition os_write_file :: "path \<Rightarrow> string \<Rightarrow> file_mode \<Rightarrow> unit act" where
  "os_write_file p content m os =
     os_call (put_file p content (masked os m)) (\<lambda>n fs. snd (put_file p (take n content) (masked os m) fs)) os"

text \<open>Opening for writing and the copy into the open file as two calls.\<close>

definition os_create :: "path \<Rightarrow> file_mode \<Rightarrow> unit act" where
  "os_create p m os = os_call (put_file p [] (masked os m)) (\<lambda>_ fs. fs) os"

definition fill_file :: "path \<Rightarrow> string \<Rightarrow> fs \<Rightarrow> fs" where
  "fill_file p content fs =
     (case fs_get fs p of Some (Reg _ m) \<Rightarrow> fs_put fs p (Reg content m) | _ \<Rightarrow> fs)"

definition os_fill :: "path \<Rightarrow> string \<Rightarrow> unit act" where
  "os_fill p content = os_call (\<lambda>fs. (Inr (), fill_file p content fs)) (\<lambda>n. fill_file p (take n content))"

definition os_close :: "unit act" where
  "os_close = os_call (\<lambda>fs. (Inr (), fs)) (\<lambda>_ fs. fs)"

definition get_file :: "path \<Rightarrow> fs \<Rightarrow> os_error + string" where
  "get_file p fs =
     (case walk_to fs [] p of
        Inl e \<Rightarrow> Inl e
      | Inr (Reg c _) \<Rightarrow> Inr c
      | Inr (Dir _) \<Rightarrow> Inl Is_dir
      | Inr Special \<Rightarrow> Inl (Unsupported ''special file''))"

definition os_read_file :: "path \<Rightarrow> string act" where
  "os_read_file p = os_call (\<lambda>fs. (get_file p fs, fs)) (\<lambda>_ fs. fs)"

text \<open>
  \<^verbatim>\<open>os.RemoveAll\<close> of what is not there succeeds; an interrupted one has removed what lies
  deeper than some level.
\<close>

definition remove_tree :: "path \<Rightarrow> fs \<Rightarrow> (os_error + unit) \<times> fs" where
  "remove_tree p fs =
     (case walk_to fs [] p of
        Inl Not_exist \<Rightarrow> (Inr (), fs)
      | Inl e \<Rightarrow> (Inl e, fs)
      | Inr _ \<Rightarrow> (Inr (), fs_del fs p))"

definition prune_below :: "path \<Rightarrow> nat \<Rightarrow> fs \<Rightarrow> fs" where
  "prune_below p n fs = filter (\<lambda>e. \<not> (prefix p (fst e) \<and> length p + n < length (fst e))) fs"

definition os_remove_all :: "path \<Rightarrow> unit act" where
  "os_remove_all p = os_call (remove_tree p) (prune_below p)"

definition os_remove :: "path \<Rightarrow> unit act" where
  "os_remove p = os_call
     (\<lambda>fs. case walk_to fs [] p of
        Inl e \<Rightarrow> (Inl e, fs)
      | Inr _ \<Rightarrow> if fs_children fs p \<noteq> [] then (Inl File_exists, fs) else (Inr (), fs_del fs p))
     (\<lambda>_ fs. fs)"

text \<open>Renaming a regular file over another one, atomically.\<close>

definition os_rename :: "path \<Rightarrow> path \<Rightarrow> unit act" where
  "os_rename src dst = os_call
     (\<lambda>fs. case (walk_to fs [] src, if dst = [] then Inl File_exists else walk_to fs [] (butlast dst)) of
        (Inl e, _) \<Rightarrow> (Inl e, fs)
      | (_, Inl e) \<Rightarrow> (Inl e, fs)
      | (Inr (Dir _), _) \<Rightarrow> (Inl (Unsupported ''directory''), fs)
      | (Inr n, Inr (Dir _)) \<Rightarrow>
          if is_dir (fs_get fs dst) then (Inl File_exists, fs)
          else (Inr (), if src = dst then fs else fs_put (fs_del fs src) dst n)
      | (Inr _, Inr _) \<Rightarrow> (Inl Not_dir, fs))
     (\<lambda>_ fs. fs)"

text \<open>
  Temporary names have a random number, which \<open>os_suffix\<close> gives; a name that is taken is an
  error here (the library tries others).
\<close>

definition make_temp :: "node \<Rightarrow> path \<Rightarrow> fs \<Rightarrow> (os_error + path) \<times> fs" where
  "make_temp n p fs =
     (case walk_to fs [] (butlast p) of
        Inl e \<Rightarrow> (Inl e, fs)
      | Inr (Dir _) \<Rightarrow> if fs_get fs p \<noteq> None then (Inl File_exists, fs) else (Inr p, fs_put fs p n)
      | Inr _ \<Rightarrow> (Inl Not_dir, fs))"

definition os_temp :: "node \<Rightarrow> path \<Rightarrow> string \<Rightarrow> string \<Rightarrow> path act" where
  "os_temp n dir pre post os h =
     os_call (make_temp n (dir @ [pre @ show_nat (os_suffix os (h_tick h)) @ post])) (\<lambda>_ fs. fs) os h"

definition os_chmod :: "path \<Rightarrow> file_mode \<Rightarrow> unit act" where
  "os_chmod p m = os_call
     (\<lambda>fs. case walk_to fs [] p of
        Inr (Reg c _) \<Rightarrow> (Inr (), fs_put fs p (Reg c (sys_mode m)))
      | Inr (Dir _) \<Rightarrow> (Inr (), if p = [] then fs else fs_put fs p (Dir (sys_mode m)))
      | Inr _ \<Rightarrow> (Inr (), fs)
      | Inl e \<Rightarrow> (Inl e, fs))
     (\<lambda>_ fs. fs)"

text \<open>The names in a directory, in order.\<close>

definition os_read_dir :: "path \<Rightarrow> (path \<times> node) list act" where
  "os_read_dir p = os_call
     (\<lambda>fs. case walk_to fs [] p of
        Inl e \<Rightarrow> (Inl e, fs)
      | Inr (Dir _) \<Rightarrow>
          (Inr (List.map_filter (\<lambda>q. map_option (Pair q) (fs_get fs q))
             (filter (\<lambda>q. length q = Suc (length p)) (fs_children fs p))), fs)
      | Inr _ \<Rightarrow> (Inl Not_dir, fs))
     (\<lambda>_ fs. fs)"

subsection \<open>Laws of the calls\<close>

text \<open>Nothing above \<open>p\<close> is anything but a directory: what is missing can be made.\<close>

definition open_above :: "fs \<Rightarrow> path \<Rightarrow> bool" where
  "open_above fs p \<longleftrightarrow> (\<forall>q. strict_prefix q p \<longrightarrow> fs_get fs q = None \<or> is_dir (fs_get fs q))"

lemma wf_get_open: "wf_fs fs \<Longrightarrow> fs_get fs p \<noteq> None \<Longrightarrow> strict_prefix q p \<Longrightarrow> is_dir (fs_get fs q)"
  using wf_ancestor [of fs q] by (metis append_Nil2 prefix_def strict_prefix_def)

lemma wf_open_above: "wf_fs fs \<Longrightarrow> fs_get fs p \<noteq> None \<Longrightarrow> open_above fs p"
  by (simp add: open_above_def wf_get_open)

lemma open_above_prefix: "open_above fs p \<Longrightarrow> prefix q p \<Longrightarrow> open_above fs q"
  by (auto simp: open_above_def dest: prefix_order.less_le_trans)

lemma walk_to_get: "walk_to fs acc ss = Inr n \<Longrightarrow> fs_get fs (acc @ ss) = Some n"
  by (induction fs acc ss rule: walk_to.induct) (auto split: option.splits node.splits)

lemma walk_to_missing:
  "walk_to fs acc ss = Inl Not_exist \<Longrightarrow> wf_fs fs \<Longrightarrow>
   fs_get fs (acc @ ss) = None \<and> (\<forall>q. strict_prefix q ss \<longrightarrow> fs_get fs (acc @ q) = None \<or> is_dir (fs_get fs (acc @ q)))"
proof (induction fs acc ss rule: walk_to.induct)
  case (1 fs acc)
  then show ?case by (auto split: option.splits)
next
  case (2 fs acc s ss)
  show ?case
  proof (cases "fs_get fs acc")
    case None
    have n: "fs_get fs (acc @ r) = None" for r
      using None wf_none_below [OF 2(3)] by simp
    show ?thesis by (auto simp: n)
  next
    case (Some a)
    then obtain m where a: "a = Dir m" using 2(2) by (cases a) auto
    then have IH: "fs_get fs ((acc @ [s]) @ ss) = None"
      "\<And>q. strict_prefix q ss \<Longrightarrow> fs_get fs ((acc @ [s]) @ q) = None \<or> is_dir (fs_get fs ((acc @ [s]) @ q))"
      using 2 Some by auto
    have "fs_get fs (acc @ q) = None \<or> is_dir (fs_get fs (acc @ q))" if "strict_prefix q (s # ss)" for q
      using that IH(2) Some a by (cases q) auto
    then show ?thesis using IH(1) by auto
  qed
qed

lemma walk_to_dirs:
  "\<forall>q. strict_prefix q ss \<longrightarrow> is_dir (fs_get fs (acc @ q)) \<Longrightarrow>
   walk_to fs acc ss = (case fs_get fs (acc @ ss) of None \<Rightarrow> Inl Not_exist | Some n \<Rightarrow> Inr n)"
proof (induction fs acc ss rule: walk_to.induct)
  case (2 fs acc s ss)
  then obtain m where "fs_get fs acc = Some (Dir m)" by (metis append_Nil2 is_dir_iff strict_prefix_simps(2))
  moreover have "\<forall>q. strict_prefix q ss \<longrightarrow> is_dir (fs_get fs ((acc @ [s]) @ q))"
    using 2(2) by (metis append.assoc append_Cons append_Nil strict_prefix_simps(3))
  ultimately show ?case using 2 by simp
qed simp

lemma walk_to_some: "wf_fs fs \<Longrightarrow> fs_get fs p = Some n \<Longrightarrow> walk_to fs [] p = Inr n"
  using walk_to_dirs [of p fs "[]"] wf_get_open [of fs p] by fastforce

lemma walk_to_none:
  assumes "wf_fs fs" "fs_get fs p = None" "open_above fs p"
  shows "walk_to fs [] p = Inl Not_exist"
proof -
  have "walk_to fs acc ss = Inl Not_exist"
    if "fs_get fs (acc @ ss) = None" "\<forall>q. strict_prefix q ss \<longrightarrow> fs_get fs (acc @ q) = None \<or> is_dir (fs_get fs (acc @ q))"
    for acc ss
    using that
  proof (induction fs acc ss rule: walk_to.induct)
    case (2 fs acc s ss)
    have "fs_get fs acc = None \<or> is_dir (fs_get fs acc)"
      using 2(3) by (metis append_Nil2 strict_prefix_simps(2))
    moreover have "\<forall>q. strict_prefix q ss \<longrightarrow> fs_get fs ((acc @ [s]) @ q) = None \<or> is_dir (fs_get fs ((acc @ [s]) @ q))"
      using 2(3) by (metis append.assoc append_Cons append_Nil strict_prefix_simps(3))
    ultimately show ?case using 2 by (auto simp: is_dir_iff)
  qed simp
  from this [of "[]" p] show ?thesis using assms by (simp add: open_above_def)
qed

text \<open>\<^verbatim>\<open>os.MkdirAll\<close> adds what is missing on the way and touches nothing else.\<close>

lemma mkdirs_open:
  "\<forall>q. prefix q ss \<longrightarrow> q \<noteq> [] \<longrightarrow> fs_get fs (acc @ q) = None \<or> is_dir (fs_get fs (acc @ q)) \<Longrightarrow>
   fst (mkdirs m acc ss fs) = Inr () \<and>
   (\<forall>q. fs_get (snd (mkdirs m acc ss fs)) q =
          (if fs_get fs q = None \<and> strict_prefix acc q \<and> prefix q (acc @ ss) then Some (Dir m) else fs_get fs q))"
proof (induction m acc ss fs rule: mkdirs.induct)
  case (1 m acc fs)
  then show ?case by (auto dest: prefix_order.antisym)
next
  case (2 m acc s ss fs)
  let ?q = "acc @ [s]"
  have qn: "fs_get fs ?q = None \<or> is_dir (fs_get fs ?q)" using 2(3) by (metis append_Cons append_Nil list.distinct(1) prefixI)
  define fs1 where "fs1 = (if fs_get fs ?q = None then fs_put fs ?q (Dir m) else fs)"
  have g1: "fs_get fs1 q = (if q = ?q \<and> fs_get fs q = None then Some (Dir m) else fs_get fs q)" for q
    by (auto simp: fs1_def fs_get_put)
  have step: "mkdirs m acc (s # ss) fs = mkdirs m ?q ss fs1"
    using qn by (auto simp: fs1_def is_dir_iff Let_def)
  have h: "\<forall>q. prefix q ss \<longrightarrow> q \<noteq> [] \<longrightarrow> fs_get fs1 (?q @ q) = None \<or> is_dir (fs_get fs1 (?q @ q))"
    using 2(3) by (auto simp: g1)
  have IH: "fst (mkdirs m ?q ss fs1) = Inr () \<and>
    (\<forall>q. fs_get (snd (mkdirs m ?q ss fs1)) q =
       (if fs_get fs1 q = None \<and> strict_prefix ?q q \<and> prefix q (?q @ ss) then Some (Dir m) else fs_get fs1 q))"
  proof (cases "fs_get fs ?q")
    case None
    then show ?thesis using 2(1) [OF refl None] h by (simp add: fs1_def)
  next
    case (Some a)
    then obtain k where "a = Dir k" using qn by (auto simp: is_dir_iff)
    then show ?thesis using 2(2) [OF refl Some] h Some by (simp add: fs1_def)
  qed
  have p: "strict_prefix acc q \<and> prefix q (acc @ s # ss) \<longleftrightarrow> q = ?q \<or> strict_prefix ?q q \<and> prefix q (?q @ ss)" for q
    by (auto simp: strict_prefix_def prefix_def append_eq_append_conv2 Cons_eq_append_conv)
  have ne: "\<not> strict_prefix ?q ?q" by simp
  show ?case unfolding step p
    by (metis (no_types, lifting) IH g1 ne option.distinct(1))
qed

lemma mkdirs_wf: "wf_fs fs \<Longrightarrow> is_dir (fs_get fs acc) \<Longrightarrow> wf_fs (snd (mkdirs m acc ss fs))"
proof (induction m acc ss fs rule: mkdirs.induct)
  case (2 m acc s ss fs)
  have "wf_fs (fs_put fs (acc @ [s]) (Dir m))" using 2(3,4) by (intro wf_put) auto
  then show ?case using 2 by (auto simp: Let_def fs_get_put split: option.splits node.splits)
qed simp

text \<open>Below the paths in \<open>S\<close> anything may change; beside them only missing directories above them appear.\<close>

definition touched :: "path set \<Rightarrow> fs \<Rightarrow> fs \<Rightarrow> bool" where
  "touched S fs fs' \<longleftrightarrow> (\<forall>q. (\<exists>d \<in> S. prefix d q) \<or> fs_get fs' q = fs_get fs q \<or>
     fs_get fs q = None \<and> is_dir (fs_get fs' q) \<and> (\<exists>d \<in> S. strict_prefix q d))"

lemma touched_refl [simp]: "touched S fs fs"
  by (simp add: touched_def)

lemma touched_trans: "touched S fs fs1 \<Longrightarrow> touched S fs1 fs2 \<Longrightarrow> touched S fs fs2"
  unfolding touched_def by metis

lemma touched_mono: "touched S fs fs' \<Longrightarrow> S \<subseteq> T \<Longrightarrow> touched T fs fs'"
  unfolding touched_def by blast

lemma touched_same: "touched S fs fs' \<Longrightarrow> \<forall>d \<in> S. parallel d q \<Longrightarrow> fs_get fs' q = fs_get fs q"
  unfolding touched_def parallel_def by (metis strict_prefix_def)

lemma touched_open: "open_above fs p \<Longrightarrow> touched S fs fs' \<Longrightarrow> \<forall>d \<in> S. \<not> strict_prefix d p \<Longrightarrow> open_above fs' p"
  unfolding open_above_def touched_def by (metis prefix_order.le_less_trans)

subsection \<open>Commands and log\<close>

text \<open>\<^verbatim>\<open>execCommandRunner.Run\<close>: the answer is the trimmed output of a failed command.\<close>

definition run_command :: "string list \<Rightarrow> os \<Rightarrow> host \<Rightarrow> string option \<times> host" where
  "run_command args os h =
     (map_option (\<lambda>out. join '' '' args @ '' failed: '' @ out) (os_command os (h_tick h)),
      h\<lparr>h_cmds := h_cmds h @ [args], h_clock := h_clock h + int (os_delay os (h_tick h)), h_tick := Suc (h_tick h)\<rparr>)"

definition logInstallStage :: "install_stage \<Rightarrow> string \<Rightarrow> host \<Rightarrow> host" where
  "logInstallStage stage message h =
     h\<lparr>h_logs := h_logs h @ [\<lparr>le_stage = stage, le_message = trim_space message\<rparr>]\<rparr>"

text \<open>\<^verbatim>\<open>fmt.Errorf("...: %w", err)\<close> around an error of a call.\<close>

definition wrap :: "string \<Rightarrow> 'a act \<Rightarrow> (string, 'a) job" where
  "wrap msg a os h =
     (case a os h of (Inl e, h1) \<Rightarrow> (Inl (msg @ os_text e), h1) | (Inr x, h1) \<Rightarrow> (Inr x, h1))"

definition path_text :: "path \<Rightarrow> string" where
  "path_text p = concat (map (\<lambda>s. CHR ''/'' # s) p)"

subsection \<open>Results of jobs\<close>

named_theorems job \<open>when a job succeeds\<close>

lemma act_bind_ok [job]:
  "act_bind m f os h = (Inr y, h') \<longleftrightarrow> (\<exists>x h1. m os h = (Inr x, h1) \<and> f x os h1 = (Inr y, h'))"
  by (auto simp: act_bind_def split: prod.splits sum.splits)

lemma act_ret_ok [job]: "act_ret x os h = (Inr y, h') \<longleftrightarrow> y = x \<and> h' = h"
  by (auto simp: act_ret_def)

lemma act_fail_ok [job]: "\<not> act_fail e os h = (Inr y, h')"
  by (simp add: act_fail_def)

lemma wrap_ok [job]: "wrap msg a os h = (Inr x, h') \<longleftrightarrow> a os h = (Inr x, h')"
  by (auto simp: wrap_def split: prod.splits sum.splits)

lemma act_try_ok [job]: "act_try a os h = (Inr r, h') \<longleftrightarrow> a os h = (r, h')"
  by (auto simp: act_try_def split: prod.splits)

lemma act_finally_ok [job]:
  "act_finally a f os h = (Inr x, h') \<longleftrightarrow> (\<exists>h1. a os h = (Inr x, h1) \<and> h' = snd (f os h1))"
  by (auto simp: act_finally_def split: prod.splits)

lemma os_call_Inr:
  "os_call w p os h = (Inr x, h') \<longleftrightarrow>
     os_fault os (h_tick h) = Works \<and> fst (w (h_fs h)) = Inr x \<and>
     h' = h\<lparr>h_tick := Suc (h_tick h), h_fs := snd (w (h_fs h))\<rparr>"
  by (auto simp: os_call_def Let_def split: prod.splits fault.splits)

lemma os_stat_ok:
  "os_stat p os h = (Inr n, h') \<Longrightarrow> fs_get (h_fs h) p = Some n \<and> h_fs h' = h_fs h"
  using walk_to_get [of "h_fs h" "[]" p n] by (auto simp: os_stat_def os_call_Inr)

lemma os_read_file_ok:
  "os_read_file p os h = (Inr c, h') \<Longrightarrow> (\<exists>m. fs_get (h_fs h) p = Some (Reg c m)) \<and> h_fs h' = h_fs h"
  using walk_to_get [of "h_fs h" "[]" p]
  by (auto simp: os_read_file_def os_call_Inr get_file_def split: sum.splits node.splits)

lemma os_open_ok: "os_open p os h = (Inr u, h') \<Longrightarrow> h_fs h' = h_fs h"
  by (auto simp: os_open_def job dest: os_stat_ok)

lemma os_temp_ok:
  "os_temp n d a b os h = (Inr p, h') \<Longrightarrow> \<exists>k. p = d @ [a @ show_nat k @ b]"
  by (auto simp: os_temp_def os_call_Inr make_temp_def split: sum.splits node.splits if_splits)

lemma os_rename_ok:
  assumes "os_rename src dst os h = (Inr u, h')" "fs_get (h_fs h) src = Some n"
  shows "fs_get (h_fs h') dst = Some n"
proof (cases "dst = []")
  case True
  then show ?thesis using assms(1) by (auto simp: os_rename_def os_call_Inr split: sum.splits node.splits)
next
  case False
  obtain n' where n': "walk_to (h_fs h) [] src = Inr n'"
    using assms(1) by (cases "walk_to (h_fs h) [] src") (auto simp: os_rename_def os_call_Inr)
  then have n: "n' = n" using assms(2) walk_to_get by fastforce
  obtain d where d: "walk_to (h_fs h) [] (butlast dst) = Inr d"
    using assms(1) n' False
    by (cases "walk_to (h_fs h) [] (butlast dst)") (auto simp: os_rename_def os_call_Inr split: node.splits)
  show ?thesis
    using assms n n' d False
    by (cases n; cases d) (auto simp: os_rename_def os_call_Inr fs_get_put split: if_splits)
qed

text \<open>The text of a path is read back as the path.\<close>

lemma clean_segs_proper: "\<forall>s \<in> set p. proper_seg s \<Longrightarrow> clean_segs r acc p = rev acc @ p"
  by (induction p arbitrary: acc) (auto simp: proper_seg_def)

lemma split_path_text:
  "\<forall>s \<in> set p. CHR ''/'' \<notin> set s \<Longrightarrow> p \<noteq> [] \<Longrightarrow>
   split_on (CHR ''/'') (concat (map (\<lambda>s. CHR ''/'' # s) p)) = [] # p"
proof (induction p)
  case (Cons s p)
  then show ?case by (cases "p = []") (auto simp: split_on_absent split_on_append neq_Nil_conv)
qed simp

lemma segs_path_text: "\<forall>s \<in> set p. proper_seg s \<and> CHR ''/'' \<notin> set s \<Longrightarrow> segs (path_text p) = p"
  by (cases "p = []") (simp_all add: segs_def path_text_def split_path_text clean_segs_proper)

subsection \<open>What a job may do to the host\<close>

text \<open>
  A relation on hosts that every step of a job respects holds between the host before and the
  host after the job, however the job ends.
\<close>

definition moves :: "('s \<Rightarrow> 's \<Rightarrow> bool) \<Rightarrow> os \<Rightarrow> ('s, 'e, 'a) prog \<Rightarrow> bool" where
  "moves R os a \<longleftrightarrow> (\<forall>h. R h (snd (a os h)))"

lemma moves_wrap: "moves R os a \<Longrightarrow> moves R os (wrap msg a)"
  unfolding moves_def wrap_def case_prod_beta by (simp split: sum.splits)

lemma moves_call:
  assumes "\<And>h k. R h (h\<lparr>h_tick := k\<rparr>)"
    and "\<And>h k. R h (h\<lparr>h_tick := k, h_fs := snd (w (h_fs h))\<rparr>)"
    and "\<And>h k n. R h (h\<lparr>h_tick := k, h_fs := p n (h_fs h)\<rparr>)"
  shows "moves R os (os_call w p)"
  unfolding moves_def os_call_def Let_def case_prod_beta using assms by (simp split: fault.splits)

locale host_order =
  fixes R :: "'s \<Rightarrow> 's \<Rightarrow> bool"
  assumes R_refl: "R h h"
    and R_trans: "R h h1 \<Longrightarrow> R h1 h2 \<Longrightarrow> R h h2"
begin

lemma movesD: "moves R os a \<Longrightarrow> a os h = (r, h') \<Longrightarrow> R h h'"
  unfolding moves_def by (metis snd_conv)

lemma moves_ret: "moves R os (act_ret x)"
  by (simp add: moves_def act_ret_def R_refl)

lemma moves_fail: "moves R os (act_fail e)"
  by (simp add: moves_def act_fail_def R_refl)

lemma moves_bind: "moves R os m \<Longrightarrow> (\<And>x. moves R os (f x)) \<Longrightarrow> moves R os (act_bind m f)"
  unfolding moves_def act_bind_def case_prod_beta by (auto split: sum.splits intro: R_trans)

lemma moves_bind_ok:
  "moves R os m \<Longrightarrow> (\<And>h x h1. m os h = (Inr x, h1) \<Longrightarrow> moves R os (f x)) \<Longrightarrow> moves R os (act_bind m f)"
  unfolding moves_def act_bind_def case_prod_beta
  by (auto split: sum.splits intro: R_trans) (metis R_trans prod.collapse)

lemma moves_each: "(\<And>x. x \<in> set xs \<Longrightarrow> moves R os (f x)) \<Longrightarrow> moves R os (act_each f xs)"
  by (induction xs) (simp_all add: moves_ret moves_bind)

lemma moves_try: "moves R os a \<Longrightarrow> moves R os (act_try a)"
  unfolding moves_def act_try_def case_prod_beta by simp

lemma moves_finally: "moves R os a \<Longrightarrow> moves R os f \<Longrightarrow> moves R os (act_finally a f)"
  unfolding moves_def act_finally_def case_prod_beta by (auto intro: R_trans)

lemmas moves_rules = moves_ret moves_fail moves_bind moves_each moves_try moves_finally moves_wrap

end

text \<open>A relation that does not look at the files and the number of calls holds over every call.\<close>

locale fs_blind = host_order R for R :: "host \<Rightarrow> host \<Rightarrow> bool" +
  assumes R_fs: "R h (h\<lparr>h_tick := k, h_fs := fs\<rparr>)"
begin

lemma R_tick: "R h (h\<lparr>h_tick := k\<rparr>)"
  using R_fs [of h "h_fs h" k] by simp

lemma moves_any_call: "moves R os (os_call w p)"
  by (rule moves_call) (rule R_tick R_fs)+

lemma moves_os:
  "moves R os (os_stat p)" "moves R os (os_mkdir_all p m)" "moves R os (os_write_file p c m)"
  "moves R os (os_create p m)" "moves R os (os_fill p c)" "moves R os (os_read_file p)"
  "moves R os (os_remove_all p)" "moves R os (os_remove p)" "moves R os (os_rename p q)"
  "moves R os (os_temp n d a b)" "moves R os (os_chmod p m)" "moves R os (os_read_dir p)"
  "moves R os os_close"
  by (simp_all add: moves_any_call [unfolded moves_def, rule_format] moves_def os_stat_def os_mkdir_all_def os_write_file_def os_create_def os_fill_def
      os_read_file_def os_remove_all_def os_remove_def os_rename_def os_temp_def os_chmod_def os_read_dir_def os_close_def)

lemma moves_open: "moves R os (os_open p)"
  unfolding os_open_def by (intro moves_bind moves_os moves_ret)

lemmas job_rules = moves_rules moves_os moves_open

end

end
