(* ===== verification/Manifest.thy ===== *)
theory Manifest
  imports Go_Url Module_Types
begin

text \<open>
  The artifact manifest (\<^verbatim>\<open>internal/agent/install/manifest.go\<close>): decoding, normalisation and
  validation.  The Go function completes the manifest in place while it checks it; here it
  returns the completed manifest or the first failing check.
\<close>

subsection \<open>Normal forms\<close>

definition normalizeManifestSchemaVersion :: "string \<Rightarrow> string" where
  "normalizeManifestSchemaVersion raw =
     (if to_lower (trim_space raw) \<in>
           {to_lower BundleSchemaVersionV1, to_lower BundleSchemaVersionLegacy}
      then BundleSchemaVersionV1 else [])"

definition normalizeHealthcheckType :: "healthcheck_spec \<Rightarrow> string" where
  "normalizeHealthcheckType spec =
     (let t = to_lower (trim_space (hc_type spec)) in
      if t = ''http'' then ''http''
      else if t = ''tcp'' then ''tcp''
      else if t = ''systemd'' then ''systemd''
      else if t = [] then (if hc_paths spec \<noteq> [] then ''http'' else ''systemd'')
      else t)"

definition normalizeArtifactCapabilities :: "capabilities \<Rightarrow> manifest option \<Rightarrow> capabilities" where
  "normalizeArtifactCapabilities caps m =
     (if \<not> cap_install caps \<and> \<not> cap_restart caps \<and> \<not> cap_uninstall caps
         \<and> \<not> cap_migration caps \<and> \<not> cap_admin_rpc_bootstrap caps
         \<and> \<not> cap_nginx_integration caps
      then (let c = caps\<lparr>cap_install := True, cap_restart := True, cap_uninstall := True\<rparr> in
            case m of
              None \<Rightarrow> c
            | Some mf \<Rightarrow>
                c\<lparr>cap_migration := False,
                  cap_admin_rpc_bootstrap := trim_space (mf_bootstrap_module mf) \<noteq> [],
                  cap_nginx_integration := ngx_enabled (mf_nginx mf)\<rparr>)
      else caps)"

subsection \<open>Validation\<close>

datatype manifest_error =
    ManifestReadFailed string
  | ManifestDecodeFailed string
  | ManifestNil
  | SchemaVersionRequired
  | SchemaVersionUnsupported
  | ManifestModuleRequired
  | ManifestVersionRequired
  | RuntimeUnsupported string
  | BinaryPathRequired
  | BinaryInstallPathRequired
  | AssetPathRequired nat
  | AssetInstallPathRequired nat
  | ServiceNameRequired
  | ServiceTemplateRequired
  | CapabilityInstallDisabled
  | CapabilityNginxDisabled
  | CapabilityBootstrapDisabled
  | HealthcheckUnsupported string
  | HealthcheckPathsRequired
  | NginxTemplateRequired
  | NginxSitePathRequired

fun manifest_error_text :: "manifest_error \<Rightarrow> string" where
  "manifest_error_text (ManifestReadFailed e) = ''read manifest failed: '' @ e"
| "manifest_error_text (ManifestDecodeFailed e) = ''decode manifest failed: '' @ e"
| "manifest_error_text ManifestNil = ''manifest is nil''"
| "manifest_error_text SchemaVersionRequired = ''manifest schema_version is required''"
| "manifest_error_text SchemaVersionUnsupported = ''manifest schema_version is unsupported''"
| "manifest_error_text ManifestModuleRequired = ''manifest module is required''"
| "manifest_error_text ManifestVersionRequired = ''manifest version is required''"
| "manifest_error_text (RuntimeUnsupported r) = ''manifest runtime is unsupported: '' @ r"
| "manifest_error_text BinaryPathRequired = ''manifest binary.path is required''"
| "manifest_error_text BinaryInstallPathRequired = ''manifest binary.install_path is required''"
| "manifest_error_text (AssetPathRequired i) = ''manifest assets['' @ show_nat i @ ''].path is required''"
| "manifest_error_text (AssetInstallPathRequired i) =
     ''manifest assets['' @ show_nat i @ ''].install_path is required''"
| "manifest_error_text ServiceNameRequired = ''manifest service.name is required''"
| "manifest_error_text ServiceTemplateRequired = ''manifest service.template_path is required''"
| "manifest_error_text CapabilityInstallDisabled = ''manifest capability install must be enabled''"
| "manifest_error_text CapabilityNginxDisabled =
     ''manifest capability nginx_integration must be enabled when nginx is configured''"
| "manifest_error_text CapabilityBootstrapDisabled =
     ''manifest capability admin_rpc_bootstrap must be enabled when runtime bootstrap is configured''"
| "manifest_error_text (HealthcheckUnsupported t) = ''manifest healthcheck.type is unsupported: '' @ t"
| "manifest_error_text HealthcheckPathsRequired =
     ''manifest healthcheck.paths is required when healthcheck.type is http''"
| "manifest_error_text NginxTemplateRequired =
     ''manifest nginx.template_path is required when nginx is enabled''"
| "manifest_error_text NginxSitePathRequired =
     ''manifest nginx.site_path is required when nginx is enabled''"

text \<open>The loop over \<^verbatim>\<open>manifest.Assets\<close>: the first asset that lacks a path.\<close>

fun check_assets :: "nat \<Rightarrow> asset_spec list \<Rightarrow> manifest_error option" where
  "check_assets idx [] = None"
| "check_assets idx (a # as) =
     (if trim_space (asset_path a) = [] then Some (AssetPathRequired idx)
      else if trim_space (asset_install_path a) = [] then Some (AssetInstallPathRequired idx)
      else check_assets (Suc idx) as)"

text \<open>The parts of the manifest that validation completes in place.\<close>

definition fill_runtime :: "manifest \<Rightarrow> manifest" where
  "fill_runtime m =
     (if trim_space (mf_runtime m) = [] then m\<lparr>mf_runtime := RuntimeLinuxSystemd\<rparr> else m)"

definition fill_unit_path :: "manifest \<Rightarrow> manifest" where
  "fill_unit_path m =
     (if trim_space (svc_unit_path (mf_service m)) = []
      then m\<lparr>mf_service := (mf_service m)\<lparr>svc_unit_path :=
               path_join [''/etc/systemd/system'', trim_space (svc_name (mf_service m))]\<rparr>\<rparr>
      else m)"

definition fill_capabilities :: "manifest \<Rightarrow> manifest" where
  "fill_capabilities m =
     m\<lparr>mf_capabilities := normalizeArtifactCapabilities (mf_capabilities m) (Some m)\<rparr>"

definition fill_healthcheck :: "manifest \<Rightarrow> manifest" where
  "fill_healthcheck m =
     m\<lparr>mf_healthcheck :=
         (mf_healthcheck m)\<lparr>hc_type := normalizeHealthcheckType (mf_healthcheck m)\<rparr>\<rparr>"

text \<open>The checks in two stretches: identity and files, then capabilities and health.\<close>

definition validateManifestFiles :: "manifest \<Rightarrow> manifest_error + manifest" where
  "validateManifestFiles m0 =
     (if trim_space (mf_schema_version m0) = [] then Inl SchemaVersionRequired
      else let m1 = m0\<lparr>mf_schema_version := normalizeManifestSchemaVersion (mf_schema_version m0)\<rparr> in
      if mf_schema_version m1 = [] then Inl SchemaVersionUnsupported
      else if trim_space (mf_module m1) = [] then Inl ManifestModuleRequired
      else if trim_space (mf_version m1) = [] then Inl ManifestVersionRequired
      else let m2 = fill_runtime m1 in
      if trim_space (mf_runtime m2) \<noteq> RuntimeLinuxSystemd
      then Inl (RuntimeUnsupported (trim_space (mf_runtime m2)))
      else if trim_space (bin_path (mf_binary m2)) = [] then Inl BinaryPathRequired
      else if trim_space (bin_install_path (mf_binary m2)) = [] then Inl BinaryInstallPathRequired
      else case check_assets 0 (mf_assets m2) of
        Some e \<Rightarrow> Inl e
      | None \<Rightarrow>
          if trim_space (svc_name (mf_service m2)) = [] then Inl ServiceNameRequired
          else if trim_space (svc_template_path (mf_service m2)) = [] then Inl ServiceTemplateRequired
          else Inr (fill_unit_path m2))"

definition validateManifestRuntime :: "manifest \<Rightarrow> manifest_error + manifest" where
  "validateManifestRuntime m2 =
     (let m3 = fill_capabilities m2 in
      if \<not> cap_install (mf_capabilities m3) then Inl CapabilityInstallDisabled
      else if ngx_enabled (mf_nginx m3) \<and> \<not> cap_nginx_integration (mf_capabilities m3)
      then Inl CapabilityNginxDisabled
      else if trim_space (mf_bootstrap_module m3) \<noteq> []
              \<and> \<not> cap_admin_rpc_bootstrap (mf_capabilities m3)
      then Inl CapabilityBootstrapDisabled
      else let m4 = fill_healthcheck m3 in
      if hc_type (mf_healthcheck m4) \<notin> {''systemd'', ''tcp'', ''http''}
      then Inl (HealthcheckUnsupported (trim_space (hc_type (mf_healthcheck m4))))
      else if hc_type (mf_healthcheck m4) = ''http'' \<and> hc_paths (mf_healthcheck m4) = []
      then Inl HealthcheckPathsRequired
      else if ngx_enabled (mf_nginx m4) \<and> trim_space (ngx_template_path (mf_nginx m4)) = []
      then Inl NginxTemplateRequired
      else if ngx_enabled (mf_nginx m4) \<and> trim_space (ngx_site_path (mf_nginx m4)) = []
      then Inl NginxSitePathRequired
      else Inr m4)"

definition validateManifest :: "manifest option \<Rightarrow> manifest_error + manifest" where
  "validateManifest mo =
     (case mo of
        None \<Rightarrow> Inl ManifestNil
      | Some m \<Rightarrow> bind_res (validateManifestFiles m) validateManifestRuntime)"

text \<open>
  \<^verbatim>\<open>manifest.json\<close> as the decoder leaves it: unreadable, not the JSON of a manifest, or a
  manifest value.
\<close>

datatype manifest_file = MfUnreadable string | MfMalformed string | MfDecoded manifest

definition loadManifest :: "manifest_file \<Rightarrow> manifest_error + manifest" where
  "loadManifest f =
     (case f of
        MfUnreadable e \<Rightarrow> Inl (ManifestReadFailed e)
      | MfMalformed e \<Rightarrow> Inl (ManifestDecodeFailed e)
      | MfDecoded m \<Rightarrow> validateManifest (Some m))"

subsection \<open>What a validated manifest guarantees\<close>

definition manifest_ok :: "manifest \<Rightarrow> bool" where
  "manifest_ok m \<longleftrightarrow>
     mf_schema_version m = BundleSchemaVersionV1
     \<and> trim_space (mf_module m) \<noteq> [] \<and> trim_space (mf_version m) \<noteq> []
     \<and> trim_space (mf_runtime m) = RuntimeLinuxSystemd
     \<and> trim_space (bin_path (mf_binary m)) \<noteq> [] \<and> trim_space (bin_install_path (mf_binary m)) \<noteq> []
     \<and> list_all (\<lambda>a. trim_space (asset_path a) \<noteq> [] \<and> trim_space (asset_install_path a) \<noteq> [])
         (mf_assets m)
     \<and> trim_space (svc_name (mf_service m)) \<noteq> []
     \<and> trim_space (svc_template_path (mf_service m)) \<noteq> []
     \<and> trim_space (svc_unit_path (mf_service m)) \<noteq> []
     \<and> cap_install (mf_capabilities m)
     \<and> (ngx_enabled (mf_nginx m) \<longrightarrow>
          cap_nginx_integration (mf_capabilities m)
          \<and> trim_space (ngx_template_path (mf_nginx m)) \<noteq> []
          \<and> trim_space (ngx_site_path (mf_nginx m)) \<noteq> [])
     \<and> (trim_space (mf_bootstrap_module m) \<noteq> [] \<longrightarrow> cap_admin_rpc_bootstrap (mf_capabilities m))
     \<and> hc_type (mf_healthcheck m) \<in> {''systemd'', ''tcp'', ''http''}
     \<and> (hc_type (mf_healthcheck m) = ''http'' \<longrightarrow> hc_paths (mf_healthcheck m) \<noteq> [])"

lemma check_assets_None:
  "check_assets idx as = None \<longleftrightarrow>
     list_all (\<lambda>a. trim_space (asset_path a) \<noteq> [] \<and> trim_space (asset_install_path a) \<noteq> []) as"
  by (induction as arbitrary: idx) auto

lemma normalizeManifestSchemaVersion_range:
  "normalizeManifestSchemaVersion raw \<in> {[], BundleSchemaVersionV1}"
  by (simp add: normalizeManifestSchemaVersion_def)

lemma normalizeManifestSchemaVersion_V1:
  "normalizeManifestSchemaVersion BundleSchemaVersionV1 = BundleSchemaVersionV1"
  by code_simp

lemma normalizeManifestSchemaVersion_Nil: "normalizeManifestSchemaVersion [] = []"
  by code_simp

lemma normalizeManifestSchemaVersion_idem [simp, idem]:
  "normalizeManifestSchemaVersion (normalizeManifestSchemaVersion raw)
     = normalizeManifestSchemaVersion raw"
  using normalizeManifestSchemaVersion_range [of raw]
  by (auto simp: normalizeManifestSchemaVersion_V1 normalizeManifestSchemaVersion_Nil)

lemma normalizeArtifactCapabilities_idem [simp, idem]:
  "normalizeArtifactCapabilities (normalizeArtifactCapabilities caps m) m'
     = normalizeArtifactCapabilities caps m"
  by (simp add: normalizeArtifactCapabilities_def Let_def split: option.splits)

lemma healthcheck_type_fixed:
  assumes "t \<in> {''systemd'', ''tcp'', ''http''}"
  shows "normalizeHealthcheckType (h\<lparr>hc_type := t\<rparr>) = t"
proof -
  have "to_lower (trim_space ''systemd'') = ''systemd''" "to_lower (trim_space ''tcp'') = ''tcp''"
    "to_lower (trim_space ''http'') = ''http''" by code_simp+
  with assms show ?thesis by (auto simp: normalizeHealthcheckType_def)
qed

lemma slash_not_blank: "trim_space (CHR ''/'' # s) \<noteq> []"
  by (rule trim_space_visible) code_simp

lemma path_join_absolute: "\<exists>s. path_join [CHR ''/'' # d, x] = CHR ''/'' # s"
  by (simp add: path_join_def path_clean_def Let_def)

lemma fill_runtime_frame [simp]:
  "mf_schema_version (fill_runtime m) = mf_schema_version m" "mf_module (fill_runtime m) = mf_module m"
  "mf_version (fill_runtime m) = mf_version m" "mf_binary (fill_runtime m) = mf_binary m"
  "mf_assets (fill_runtime m) = mf_assets m" "mf_service (fill_runtime m) = mf_service m"
  "mf_nginx (fill_runtime m) = mf_nginx m" "mf_env_path (fill_runtime m) = mf_env_path m"
  by (simp_all add: fill_runtime_def)

lemma fill_unit_path_frame [simp]:
  "mf_schema_version (fill_unit_path m) = mf_schema_version m"
  "mf_module (fill_unit_path m) = mf_module m" "mf_version (fill_unit_path m) = mf_version m"
  "mf_runtime (fill_unit_path m) = mf_runtime m" "mf_binary (fill_unit_path m) = mf_binary m"
  "mf_assets (fill_unit_path m) = mf_assets m" "mf_nginx (fill_unit_path m) = mf_nginx m"
  "mf_env_path (fill_unit_path m) = mf_env_path m"
  "svc_name (mf_service (fill_unit_path m)) = svc_name (mf_service m)"
  "svc_template_path (mf_service (fill_unit_path m)) = svc_template_path (mf_service m)"
  by (simp_all add: fill_unit_path_def)

lemma fill_unit_path_filled: "trim_space (svc_unit_path (mf_service (fill_unit_path m))) \<noteq> []"
proof -
  have "trim_space (path_join [''/etc/systemd/system'', x]) \<noteq> []" for x
    using path_join_absolute [of "''etc/systemd/system''" x] slash_not_blank by metis
  then show ?thesis by (simp add: fill_unit_path_def)
qed

lemma validateManifestFiles_ok_iff:
  "validateManifestFiles m = Inr m' \<longleftrightarrow>
     (let n = fill_runtime
                (m\<lparr>mf_schema_version := normalizeManifestSchemaVersion (mf_schema_version m)\<rparr>) in
      m' = fill_unit_path n
      \<and> trim_space (mf_schema_version m) \<noteq> []
      \<and> normalizeManifestSchemaVersion (mf_schema_version m) \<noteq> []
      \<and> trim_space (mf_module m) \<noteq> [] \<and> trim_space (mf_version m) \<noteq> []
      \<and> trim_space (mf_runtime n) = RuntimeLinuxSystemd
      \<and> trim_space (bin_path (mf_binary m)) \<noteq> [] \<and> trim_space (bin_install_path (mf_binary m)) \<noteq> []
      \<and> check_assets 0 (mf_assets m) = None
      \<and> trim_space (svc_name (mf_service m)) \<noteq> []
      \<and> trim_space (svc_template_path (mf_service m)) \<noteq> [])"
  unfolding validateManifestFiles_def Let_def by auto

lemma validateManifestFiles_ok:
  assumes "validateManifestFiles m = Inr m'"
  shows "mf_schema_version m' = BundleSchemaVersionV1
     \<and> trim_space (mf_module m') \<noteq> [] \<and> trim_space (mf_version m') \<noteq> []
     \<and> trim_space (mf_runtime m') = RuntimeLinuxSystemd
     \<and> trim_space (bin_path (mf_binary m')) \<noteq> [] \<and> trim_space (bin_install_path (mf_binary m')) \<noteq> []
     \<and> check_assets 0 (mf_assets m') = None
     \<and> trim_space (svc_name (mf_service m')) \<noteq> []
     \<and> trim_space (svc_template_path (mf_service m')) \<noteq> []
     \<and> trim_space (svc_unit_path (mf_service m')) \<noteq> []"
  using assms normalizeManifestSchemaVersion_range [of "mf_schema_version m"] fill_unit_path_filled
  by (simp add: validateManifestFiles_ok_iff Let_def)

lemma validateManifestFiles_fixed:
  assumes "mf_schema_version m' = BundleSchemaVersionV1"
     "trim_space (mf_module m') \<noteq> []" "trim_space (mf_version m') \<noteq> []"
     "trim_space (mf_runtime m') = RuntimeLinuxSystemd"
     "trim_space (bin_path (mf_binary m')) \<noteq> []" "trim_space (bin_install_path (mf_binary m')) \<noteq> []"
     "check_assets 0 (mf_assets m') = None"
     "trim_space (svc_name (mf_service m')) \<noteq> []"
     "trim_space (svc_template_path (mf_service m')) \<noteq> []"
     "trim_space (svc_unit_path (mf_service m')) \<noteq> []"
  shows "validateManifestFiles m' = Inr m'"
proof -
  have v: "trim_space BundleSchemaVersionV1 \<noteq> []" by code_simp
  have u: "fill_unit_path m' = m'" using assms(10) by (simp add: fill_unit_path_def)
  have s: "m'\<lparr>mf_schema_version := BundleSchemaVersionV1\<rparr> = m'"
    using assms(1) by (cases m') simp
  have r: "fill_runtime (m'\<lparr>mf_schema_version := BundleSchemaVersionV1\<rparr>) = m'"
    unfolding s using assms(4) by (simp add: fill_runtime_def)
  show ?thesis
    using assms v u r
    by (simp add: validateManifestFiles_ok_iff normalizeManifestSchemaVersion_V1 Let_def)
qed

lemma fill_capabilities_frame [simp]:
  "mf_schema_version (fill_capabilities m) = mf_schema_version m"
  "mf_module (fill_capabilities m) = mf_module m" "mf_version (fill_capabilities m) = mf_version m"
  "mf_runtime (fill_capabilities m) = mf_runtime m" "mf_binary (fill_capabilities m) = mf_binary m"
  "mf_assets (fill_capabilities m) = mf_assets m" "mf_service (fill_capabilities m) = mf_service m"
  "mf_nginx (fill_capabilities m) = mf_nginx m" "mf_env_path (fill_capabilities m) = mf_env_path m"
  "mf_bootstrap_module (fill_capabilities m) = mf_bootstrap_module m"
  "mf_healthcheck (fill_capabilities m) = mf_healthcheck m"
  by (simp_all add: fill_capabilities_def)

lemma fill_healthcheck_frame [simp]:
  "mf_schema_version (fill_healthcheck m) = mf_schema_version m"
  "mf_module (fill_healthcheck m) = mf_module m" "mf_version (fill_healthcheck m) = mf_version m"
  "mf_runtime (fill_healthcheck m) = mf_runtime m" "mf_binary (fill_healthcheck m) = mf_binary m"
  "mf_assets (fill_healthcheck m) = mf_assets m" "mf_service (fill_healthcheck m) = mf_service m"
  "mf_nginx (fill_healthcheck m) = mf_nginx m" "mf_env_path (fill_healthcheck m) = mf_env_path m"
  "mf_bootstrap_module (fill_healthcheck m) = mf_bootstrap_module m"
  "mf_capabilities (fill_healthcheck m) = mf_capabilities m"
  "hc_paths (mf_healthcheck (fill_healthcheck m)) = hc_paths (mf_healthcheck m)"
  by (simp_all add: fill_healthcheck_def)

lemma validateManifestRuntime_ok_iff:
  "validateManifestRuntime m = Inr m' \<longleftrightarrow>
     (let caps = mf_capabilities (fill_capabilities m);
          t = hc_type (mf_healthcheck (fill_healthcheck (fill_capabilities m))) in
      m' = fill_healthcheck (fill_capabilities m)
      \<and> cap_install caps
      \<and> (ngx_enabled (mf_nginx m) \<longrightarrow>
           cap_nginx_integration caps
           \<and> trim_space (ngx_template_path (mf_nginx m)) \<noteq> []
           \<and> trim_space (ngx_site_path (mf_nginx m)) \<noteq> [])
      \<and> (trim_space (mf_bootstrap_module m) \<noteq> [] \<longrightarrow> cap_admin_rpc_bootstrap caps)
      \<and> t \<in> {''systemd'', ''tcp'', ''http''}
      \<and> (t = ''http'' \<longrightarrow> hc_paths (mf_healthcheck m) \<noteq> []))"
  unfolding validateManifestRuntime_def Let_def guard_Inr_iff by auto

lemma validateManifestRuntime_frame:
  "validateManifestRuntime m = Inr m' \<Longrightarrow>
     mf_schema_version m' = mf_schema_version m \<and> mf_module m' = mf_module m
     \<and> mf_version m' = mf_version m \<and> mf_runtime m' = mf_runtime m \<and> mf_binary m' = mf_binary m
     \<and> mf_assets m' = mf_assets m \<and> mf_service m' = mf_service m \<and> mf_nginx m' = mf_nginx m
     \<and> mf_env_path m' = mf_env_path m \<and> mf_bootstrap_module m' = mf_bootstrap_module m"
  by (simp add: validateManifestRuntime_ok_iff Let_def)

lemma validateManifestFiles_frame:
  "validateManifestFiles m = Inr m' \<Longrightarrow>
     mf_module m' = mf_module m \<and> mf_version m' = mf_version m \<and> mf_binary m' = mf_binary m
     \<and> mf_assets m' = mf_assets m \<and> mf_nginx m' = mf_nginx m \<and> mf_env_path m' = mf_env_path m
     \<and> svc_name (mf_service m') = svc_name (mf_service m)"
  by (simp add: validateManifestFiles_ok_iff Let_def)

lemma validateManifestRuntime_ok:
  "validateManifestRuntime m = Inr m' \<Longrightarrow>
     cap_install (mf_capabilities m')
     \<and> (ngx_enabled (mf_nginx m') \<longrightarrow>
          cap_nginx_integration (mf_capabilities m')
          \<and> trim_space (ngx_template_path (mf_nginx m')) \<noteq> []
          \<and> trim_space (ngx_site_path (mf_nginx m')) \<noteq> [])
     \<and> (trim_space (mf_bootstrap_module m') \<noteq> [] \<longrightarrow> cap_admin_rpc_bootstrap (mf_capabilities m'))
     \<and> hc_type (mf_healthcheck m') \<in> {''systemd'', ''tcp'', ''http''}
     \<and> (hc_type (mf_healthcheck m') = ''http'' \<longrightarrow> hc_paths (mf_healthcheck m') \<noteq> [])"
  unfolding validateManifestRuntime_ok_iff Let_def by auto

lemma normalizeArtifactCapabilities_installed:
  "cap_install c \<Longrightarrow> normalizeArtifactCapabilities c m = c"
  by (simp add: normalizeArtifactCapabilities_def)

lemma validateManifestRuntime_fixed:
  assumes "manifest_ok m"
  shows "validateManifestRuntime m = Inr m"
proof -
  have c: "fill_capabilities m = m"
    using assms by (simp add: manifest_ok_def fill_capabilities_def
        normalizeArtifactCapabilities_installed)
  have h: "fill_healthcheck m = m"
    using assms healthcheck_type_fixed [of "hc_type (mf_healthcheck m)" "mf_healthcheck m"]
    by (simp add: manifest_ok_def fill_healthcheck_def)
  show ?thesis
    using assms by (simp add: validateManifestRuntime_ok_iff manifest_ok_def Let_def c h)
qed

text \<open>
  C40: a manifest that passes validation is complete: supported schema and runtime, a binary, a
  named service with a template and a unit path, install paths for every asset, and the
  capability flags that its nginx, bootstrap and health-check parts need; the module, version
  and file parts are those of the decoded manifest.
\<close>

theorem validateManifest_ok:
  assumes "validateManifest (Some m) = Inr m'"
  shows "manifest_ok m' \<and> mf_module m' = mf_module m \<and> mf_version m' = mf_version m
     \<and> mf_binary m' = mf_binary m \<and> mf_assets m' = mf_assets m \<and> mf_nginx m' = mf_nginx m
     \<and> svc_name (mf_service m') = svc_name (mf_service m)"
proof -
  from assms obtain n where f: "validateManifestFiles m = Inr n"
    and r: "validateManifestRuntime n = Inr m'"
    by (auto simp: validateManifest_def bind_res_Inr_iff)
  show ?thesis
    using validateManifestFiles_ok [OF f] validateManifestRuntime_ok [OF r]
      validateManifestRuntime_frame [OF r] validateManifestFiles_frame [OF f]
    by (auto simp: manifest_ok_def check_assets_None)
qed

text \<open>
  validation is idempotent: the completed manifest passes again, unchanged, so the
  defaults it fills in never contradict its own checks.
\<close>

theorem validateManifest_idem:
  assumes "validateManifest mo = Inr m"
  shows "validateManifest (Some m) = Inr m"
proof -
  from assms obtain m0 n where f: "validateManifestFiles m0 = Inr n"
    and r: "validateManifestRuntime n = Inr m"
    by (auto simp: validateManifest_def bind_res_Inr_iff split: option.splits)
  have ok: "manifest_ok m"
    using validateManifestFiles_ok [OF f] validateManifestRuntime_ok [OF r]
      validateManifestRuntime_frame [OF r]
    by (auto simp: manifest_ok_def check_assets_None)
  then have "validateManifestFiles m = Inr m"
    by (intro validateManifestFiles_fixed) (auto simp: manifest_ok_def check_assets_None)
  then show ?thesis
    using validateManifestRuntime_fixed [OF ok] by (simp add: validateManifest_def)
qed

text \<open>A concrete manifest, used by the witnesses.\<close>

definition sample_manifest :: manifest where
  "sample_manifest =
    \<lparr>mf_schema_version = ''V1'', mf_module = ''ums'', mf_version = ''1'', mf_runtime = [],
     mf_capabilities = no_capabilities,
     mf_binary = \<lparr>bin_path = ''b'', bin_install_path = ''/u/b'', bin_mode = ''755''\<rparr>,
     mf_assets = [\<lparr>asset_path = ''a'', asset_install_path = ''/u/a''\<rparr>],
     mf_service = \<lparr>svc_name = ''s'', svc_template_path = ''t'', svc_unit_path = ''/e/s''\<rparr>,
     mf_nginx = \<lparr>ngx_enabled = True, ngx_template_path = ''n'', ngx_site_path = ''/n''\<rparr>,
     mf_env_path = ''/e'', mf_bootstrap_module = [],
     mf_healthcheck = \<lparr>hc_type = [], hc_scheme = [], hc_host = [], hc_paths = [''/h''],
                       hc_timeout_seconds = 0\<rparr>\<rparr>"

definition sample_manifest_valid :: manifest where
  "sample_manifest_valid =
     sample_manifest\<lparr>mf_schema_version := BundleSchemaVersionV1, mf_runtime := RuntimeLinuxSystemd,
       mf_capabilities := no_capabilities\<lparr>cap_install := True, cap_restart := True,
         cap_uninstall := True, cap_nginx_integration := True\<rparr>,
       mf_healthcheck := (mf_healthcheck sample_manifest)\<lparr>hc_type := ''http''\<rparr>\<rparr>"

lemma sample_manifest_validates: "validateManifest (Some sample_manifest) = Inr sample_manifest_valid"
  by code_simp

theorem validateManifest_ok_witness:
  "manifest_ok sample_manifest_valid \<and> mf_module sample_manifest_valid = ''ums''"
  using validateManifest_ok [OF sample_manifest_validates]
  by (simp add: sample_manifest_def)

theorem validateManifest_idem_witness:
  "validateManifest (Some sample_manifest_valid) = Inr sample_manifest_valid"
  by (rule validateManifest_idem [OF sample_manifest_validates])

end
