(* ===== verification/Rollback.thy ===== *)
theory Rollback
  imports Host_Files Manifest "HOL-Library.Multiset"
begin

text \<open>
  Undoing a partial install (\<^verbatim>\<open>internal/agent/install/rollback.go\<close>): before a path is written
  its present state is copied aside, and when the install fails every captured path is put
  back and the service is stopped or restarted.
\<close>

subsection \<open>Copies\<close>

definition copyFile :: "path \<Rightarrow> path \<Rightarrow> file_mode \<Rightarrow> unit act" where
  "copyFile source destination mode =
     act_bind (os_read_file source) (\<lambda>content.
     act_bind (os_mkdir_all (butlast destination) 0x1ED) (\<lambda>_.
     os_write_file destination content mode))"

definition copyEntry :: "path \<Rightarrow> path \<Rightarrow> path \<Rightarrow> unit act" where
  "copyEntry source destination p os h =
     (let target = destination @ drop (length source) p in
      case fs_get (h_fs h) p of
        None \<Rightarrow> (Inl Not_exist, h)
      | Some (Dir m) \<Rightarrow> os_mkdir_all target m os h
      | Some (Reg _ m) \<Rightarrow> copyFile p target m os h
      | Some Special \<Rightarrow>
          (Inl (Unsupported (''copy dir only supports regular files or directories: '' @ path_text p)), h))"

text \<open>\<^verbatim>\<open>filepath.Walk\<close> visits what is below the source in the order of the names.\<close>

definition copyDir :: "path \<Rightarrow> path \<Rightarrow> unit act" where
  "copyDir source destination =
     act_bind (os_stat source) (\<lambda>info.
       case info of
         Dir m \<Rightarrow>
           act_bind (os_mkdir_all destination m)
             (\<lambda>_ os h. act_each (copyEntry source destination) (fs_children (h_fs h) source) os h)
       | _ \<Rightarrow> act_fail (Unsupported (path_text source @ '' is not a directory'')))"

subsection \<open>Capturing\<close>

record backup =
  bk_path :: string
  bk_existed :: bool
  bk_is_dir :: bool
  bk_backup :: path

text \<open>The map of backups, keyed by the trimmed path, as the list of its entries.\<close>

record rollback =
  rb_root :: path
  rb_backups :: "backup list"

definition newInstallRollback :: "string \<Rightarrow> rollback" where
  "newInstallRollback root = \<lparr>rb_root = segs (trim_space root), rb_backups = []\<rparr>"

definition addBackup :: "backup \<Rightarrow> rollback \<Rightarrow> rollback" where
  "addBackup b r = r\<lparr>rb_backups := rb_backups r @ [b]\<rparr>"

definition captured :: "string \<Rightarrow> rollback \<Rightarrow> bool" where
  "captured target r \<longleftrightarrow> list_ex (\<lambda>b. bk_path b = target) (rb_backups r)"

definition backupName :: "nat \<Rightarrow> string" where
  "backupName n = show_nat n @ ''.bak''"

definition captureTarget :: "string \<Rightarrow> os \<Rightarrow> rollback \<times> host \<Rightarrow> string option \<times> rollback \<times> host" where
  "captureTarget target os s =
     (case s of (r, h) \<Rightarrow>
        case os_stat (segs target) os h of
          (Inl Not_exist, h1) \<Rightarrow>
            (None, addBackup \<lparr>bk_path = target, bk_existed = False, bk_is_dir = False, bk_backup = []\<rparr> r, h1)
        | (Inl e, h1) \<Rightarrow> (Some (''stat rollback target failed: '' @ os_text e), r, h1)
        | (Inr info, h1) \<Rightarrow>
            (let backupPath = rb_root r @ [backupName (length (rb_backups r))];
                 entry = (\<lambda>d. addBackup \<lparr>bk_path = target, bk_existed = True, bk_is_dir = d, bk_backup = backupPath\<rparr> r)
             in case info of
                  Dir _ \<Rightarrow>
                    (case copyDir (segs target) backupPath os h1 of
                       (Inl e, h2) \<Rightarrow> (Some (''backup dir failed: '' @ os_text e), r, h2)
                     | (Inr _, h2) \<Rightarrow> (None, entry True, h2))
                | Reg _ m \<Rightarrow>
                    (case copyFile (segs target) backupPath m os h1 of
                       (Inl e, h2) \<Rightarrow> (Some (''backup file failed: '' @ os_text e), r, h2)
                     | (Inr _, h2) \<Rightarrow> (None, entry False, h2))
                | Special \<Rightarrow>
                    (Some (''rollback only supports regular files or directories: '' @ target), r, h1)))"

definition Capture :: "string \<Rightarrow> os \<Rightarrow> rollback \<times> host \<Rightarrow> string option \<times> rollback \<times> host" where
  "Capture rawPath os s =
     (case s of (r, h) \<Rightarrow>
        let target = trim_space rawPath in
        if target = [] then (None, r, h)
        else if captured target r then (None, r, h)
        else case os_mkdir_all (rb_root r) 0x1ED os h of
               (Inl e, h1) \<Rightarrow> (Some (''create rollback dir failed: '' @ os_text e), r, h1)
             | (Inr _, h1) \<Rightarrow> captureTarget target os (r, h1))"

subsection \<open>Restoring\<close>

definition restoreContent :: "backup \<Rightarrow> os \<Rightarrow> host \<Rightarrow> string option \<times> host" where
  "restoreContent b os h =
     (if bk_is_dir b
      then (case copyDir (bk_backup b) (segs (bk_path b)) os h of
              (Inl e, h1) \<Rightarrow> (Some (''restore '' @ bk_path b @ '' failed: '' @ os_text e), h1)
            | (Inr _, h1) \<Rightarrow> (None, h1))
      else (case os_stat (bk_backup b) os h of
              (Inl e, h1) \<Rightarrow> (Some (''stat backup '' @ path_text (bk_backup b) @ '' failed: '' @ os_text e), h1)
            | (Inr info, h1) \<Rightarrow>
                (case copyFile (bk_backup b) (segs (bk_path b))
                        (case info of Reg _ m \<Rightarrow> m | Dir m \<Rightarrow> m | Special \<Rightarrow> 0) os h1 of
                   (Inl e, h2) \<Rightarrow> (Some (''restore '' @ bk_path b @ '' failed: '' @ os_text e), h2)
                 | (Inr _, h2) \<Rightarrow> (None, h2))))"

definition restoreOne :: "backup \<Rightarrow> os \<Rightarrow> host \<Rightarrow> string option \<times> host" where
  "restoreOne b os h =
     (case os_remove_all (segs (trim_space (bk_path b))) os h of
        (Inl e, h1) \<Rightarrow>
          if e \<noteq> Not_exist then (Some (''remove '' @ bk_path b @ '' failed: '' @ os_text e), h1)
          else if bk_existed b then restoreContent b os h1 else (None, h1)
      | (Inr _, h1) \<Rightarrow> if bk_existed b then restoreContent b os h1 else (None, h1))"

definition optList :: "'a option \<Rightarrow> 'a list" where
  "optList x = (case x of None \<Rightarrow> [] | Some e \<Rightarrow> [e])"

fun restoreAll :: "backup list \<Rightarrow> os \<Rightarrow> host \<Rightarrow> string list \<times> host" where
  "restoreAll [] os h = ([], h)"
| "restoreAll (b # bs) os h =
     (case restoreOne b os h of (e, h1) \<Rightarrow>
        case restoreAll bs os h1 of (es, h2) \<Rightarrow> (optList e @ es, h2))"

text \<open>The commands after the files; the results of the first and of the last two are not looked at.\<close>

definition restoreService :: "manifest \<Rightarrow> rollback \<Rightarrow> os \<Rightarrow> host \<Rightarrow> string list \<times> host" where
  "restoreService m r os h =
     (let serviceName = trim_space (svc_name (mf_service m)) in
      case run_command [''systemctl'', ''daemon-reload''] os h of (e1, h1) \<Rightarrow>
        if serviceName = [] then (optList e1, h1)
        else if list_ex (\<lambda>b. bk_path b = trim_space (svc_unit_path (mf_service m)) \<and> bk_existed b) (rb_backups r)
        then (case run_command [''systemctl'', ''enable'', serviceName] os h1 of (e2, h2) \<Rightarrow>
                case run_command [''systemctl'', ''restart'', serviceName] os h2 of (e3, h3) \<Rightarrow>
                  (optList e1 @ optList e2 @ optList e3, h3))
        else (case run_command [''systemctl'', ''stop'', serviceName] os h1 of (_, h2) \<Rightarrow>
                case run_command [''systemctl'', ''disable'', serviceName] os h2 of (_, h3) \<Rightarrow> (optList e1, h3)))"

definition restoreNginx :: "manifest \<Rightarrow> os \<Rightarrow> host \<Rightarrow> string list \<times> host" where
  "restoreNginx m os h =
     (if \<not> ngx_enabled (mf_nginx m) then ([], h)
      else case run_command [''nginx'', ''-t''] os h of
             (Some e, h1) \<Rightarrow> ([e], h1)
           | (None, h1) \<Rightarrow>
               (case run_command [''systemctl'', ''reload'', ''nginx''] os h1 of (e, h2) \<Rightarrow> (optList e, h2)))"

definition stopService :: "manifest \<Rightarrow> os \<Rightarrow> host \<Rightarrow> host" where
  "stopService m os h =
     (let serviceName = trim_space (svc_name (mf_service m)) in
      if serviceName = [] then h
      else snd (run_command [''systemctl'', ''stop'', serviceName] os
             (logInstallStage StageRollback ''stopping service before restoring files'' h)))"

text \<open>
  Go ranges over a map in an order of its own: \<open>order\<close> rearranges the entries.
\<close>

definition Restore ::
    "(backup list \<Rightarrow> backup list) \<Rightarrow> manifest \<Rightarrow> os \<Rightarrow> rollback \<Rightarrow> host \<Rightarrow> string list \<times> host" where
  "Restore order m os r h =
     (if rb_backups r = [] then ([], h)
      else case restoreAll (order (rb_backups r)) os (stopService m os h) of (es1, h1) \<Rightarrow>
             case restoreService m r os h1 of (es2, h2) \<Rightarrow>
               case restoreNginx m os h2 of (es3, h3) \<Rightarrow>
                 (es1 @ es2 @ es3,
                  logInstallStage StageRollback
                    (if es1 @ es2 @ es3 \<noteq> [] then ''rollback completed with errors'' else ''rollback completed'') h3))"

subsection \<open>Steps that leave a record of the host alone\<close>

context fs_blind
begin

lemma moves_copyFile: "moves R os (copyFile s d m)"
  unfolding copyFile_def by (intro job_rules)

lemma moves_copyEntry: "moves R os (copyEntry s d p)"
  using moves_copyFile moves_os(2) unfolding moves_def copyEntry_def Let_def
  by (auto simp: R_refl split: option.splits node.splits)

lemma moves_copyDir: "moves R os (copyDir s d)"
proof -
  have "moves R os (\<lambda>os h. act_each (copyEntry s d) (fs_children (h_fs h) s) os h)"
    using moves_each [where f = "copyEntry s d", OF moves_copyEntry] by (simp add: moves_def)
  then show ?thesis unfolding copyDir_def by (auto intro!: job_rules split: node.splits)
qed

lemma R_then: "moves R os a \<Longrightarrow> R h h1 \<Longrightarrow> R h (snd (a os h1))"
  unfolding moves_def by (blast intro: R_trans)

lemmas R_steps = R_refl R_then [OF moves_os(1)] R_then [OF moves_os(2)] R_then [OF moves_os(7)]
  R_then [OF moves_copyFile] R_then [OF moves_copyDir]

lemma R_captureTarget: "R h h1 \<Longrightarrow> R h (snd (snd (captureTarget t os (r, h1))))"
  unfolding captureTarget_def Let_def case_prod_beta
  by (auto split: sum.splits node.splits os_error.splits intro!: R_steps)

lemma R_Capture: "R (snd s) (snd (snd (Capture p os s)))"
  unfolding Capture_def Let_def case_prod_beta
  by (auto split: sum.splits intro!: R_steps R_captureTarget)

end

subsection \<open>A host whose calls work\<close>

definition faultless :: "os \<Rightarrow> bool" where
  "faultless os \<longleftrightarrow> os_fault os = (\<lambda>_. Works)"

lemma os_call_ok: "faultless os \<Longrightarrow> os_call w pt os h =
   (fst (w (h_fs h)), h\<lparr>h_tick := Suc (h_tick h), h_fs := snd (w (h_fs h))\<rparr>)"
  by (simp add: os_call_def faultless_def Let_def split: prod.splits)

text \<open>What a copy makes of a node: the same, with the bits of the umask cleared.\<close>

fun remode :: "os \<Rightarrow> node \<Rightarrow> node" where
  "remode os (Reg c m) = Reg c (masked os m)"
| "remode os (Dir m) = Dir (dir_masked os m)"
| "remode os Special = Special"

lemma remode_remode [simp]: "remode os (remode os n) = remode os n"
  by (cases n) simp_all

text \<open>Outside \<open>d\<close> a copy only adds missing directories above it.\<close>

definition frame :: "fs \<Rightarrow> path \<Rightarrow> fs \<Rightarrow> bool" where
  "frame fs0 d fs \<longleftrightarrow> (\<forall>q. \<not> prefix d q \<longrightarrow>
     fs_get fs q = fs_get fs0 q \<or> strict_prefix q d \<and> fs_get fs0 q = None \<and> is_dir (fs_get fs q))"

lemma frame_touched: "frame fs0 d fs \<longleftrightarrow> touched {d} fs0 fs"
  unfolding frame_def touched_def by blast

lemma frame_refl [simp]: "frame fs d fs"
  by (simp add: frame_def)

lemma frame_trans: "frame a d b \<Longrightarrow> frame b d c \<Longrightarrow> frame a d c"
  unfolding frame_def by metis

lemma frame_same: "frame fs0 d fs \<Longrightarrow> \<not> prefix d q \<Longrightarrow> \<not> prefix q d \<Longrightarrow> fs_get fs q = fs_get fs0 q"
  unfolding frame_def by (metis strict_prefix_def)

lemma frame_below: "frame fs0 (d @ r) fs \<Longrightarrow> is_dir (fs_get fs0 d) \<Longrightarrow>
   \<forall>q. prefix d q \<longrightarrow> strict_prefix q (d @ r) \<longrightarrow> fs_get fs0 q \<noteq> None \<Longrightarrow> wf_fs fs0 \<Longrightarrow>
   \<not> prefix (d @ r) q \<Longrightarrow> fs_get fs q = fs_get fs0 q"
  unfolding frame_def
  by (metis is_dir_simps(1) prefix_def prefix_same_cases strict_prefix_def wf_get_open)

lemma butlast_strict: "p \<noteq> [] \<Longrightarrow> strict_prefix (butlast p) p"
  by (metis append_butlast_last_id append_self_conv list.distinct(1) prefixeq_butlast strict_prefix_def)

lemma prefix_butlast_iff: "p \<noteq> [] \<Longrightarrow> prefix q (butlast p) \<longleftrightarrow> strict_prefix q p"
  by (metis append_butlast_last_id prefix_order.dual_order.strict_iff_not prefix_snoc butlast_strict
      prefix_order.le_less_trans strict_prefix_def)

lemma mkdir_frame:
  assumes "wf_fs fs" "open_above fs (d @ [x])"
  shows "fst (mkdirs m [] d fs) = Inr ()" "wf_fs (snd (mkdirs m [] d fs))"
    "fs_get (snd (mkdirs m [] d fs)) q =
       (if fs_get fs q = None \<and> prefix q d then Some (Dir m) else fs_get fs q)"
proof -
  have o: "\<forall>q. prefix q d \<longrightarrow> q \<noteq> [] \<longrightarrow> fs_get fs ([] @ q) = None \<or> is_dir (fs_get fs ([] @ q))"
    using assms(2) prefix_butlast_iff [of "d @ [x]"] by (simp add: open_above_def)
  show "fst (mkdirs m [] d fs) = Inr ()" using mkdirs_open [OF o] by simp
  show "wf_fs (snd (mkdirs m [] d fs))" using assms(1) by (intro mkdirs_wf) auto
  show "fs_get (snd (mkdirs m [] d fs)) q =
       (if fs_get fs q = None \<and> prefix q d then Some (Dir m) else fs_get fs q)"
    using mkdirs_open [OF o, of m] by (cases q) auto
qed

lemma put_file_new:
  assumes "wf_fs fs" "p \<noteq> []" "is_dir (fs_get fs (butlast p))" "fs_get fs p = None"
  shows "put_file p c m fs = (Inr (), fs_put fs p (Reg c m))" "wf_fs (fs_put fs p (Reg c m))"
  using assms walk_to_some [OF assms(1), of "butlast p"] wf_put [of fs p "Reg c m"]
  by (auto simp: put_file_def is_dir_iff)

lemma copyFile_ok:
  assumes "faultless os" "wf_fs (h_fs h)" "fs_get (h_fs h) src = Some (Reg c m0)"
    and "d \<noteq> []" "open_above (h_fs h) d" "fs_get (h_fs h) d = None"
  obtains h' where "copyFile src d m os h = (Inr (), h')" "wf_fs (h_fs h')"
    "fs_get (h_fs h') d = Some (Reg c (masked os m))" "frame (h_fs h) d (h_fs h')"
    "\<And>q. fs_get (h_fs h') q = (if q = d then Some (Reg c (masked os m))
       else if strict_prefix q d \<and> fs_get (h_fs h) q = None then Some (Dir (dir_masked os 0x1ED)) else fs_get (h_fs h) q)"
proof -
  let ?fs = "h_fs h" and ?m = "dir_masked os 0x1ED"
  have od: "open_above ?fs (butlast d @ [last d])" using assms by simp
  note mk = mkdir_frame [OF assms(2) od, of ?m]
  let ?fs1 = "snd (mkdirs ?m [] (butlast d) ?fs)"
  have g1: "fs_get ?fs1 q = (if fs_get ?fs q = None \<and> strict_prefix q d then Some (Dir ?m) else fs_get ?fs q)" for q
    using mk(3) [of q] assms(4) by (simp add: prefix_butlast_iff)
  have dd: "is_dir (fs_get ?fs1 (butlast d))"
    using g1 [of "butlast d"] assms(4,5) butlast_strict [of d] by (auto simp: open_above_def)
  have dn: "fs_get ?fs1 d = None" using g1 [of d] assms(6) by simp
  note pf = put_file_new [OF mk(2) assms(4) dd dn, of c "masked os m"]
  have rd: "get_file src ?fs = Inr c" using walk_to_some [OF assms(2,3)] by (simp add: get_file_def)
  let ?h = "h\<lparr>h_tick := Suc (Suc (Suc (h_tick h))), h_fs := fs_put ?fs1 d (Reg c (masked os m))\<rparr>"
  have g2: "fs_get (h_fs ?h) q = (if q = d then Some (Reg c (masked os m))
       else if strict_prefix q d \<and> fs_get ?fs q = None then Some (Dir ?m) else fs_get ?fs q)" for q
    using assms(4) by (auto simp: fs_get_put g1)
  have "copyFile src d m os h = (Inr (), ?h)"
    using mk(1) pf(1) rd
    by (simp add: copyFile_def act_bind_def os_read_file_def os_mkdir_all_def os_write_file_def os_call_ok [OF assms(1)])
  moreover have "frame ?fs d (h_fs ?h)" unfolding frame_def g2 by auto
  ultimately show ?thesis using that [of ?h] pf(2) g2 by simp
qed

subsection \<open>Copying a directory\<close>

text \<open>
  Half way through, the entries in \<open>D\<close> have their copy, nothing else lies below the
  destination, and all around it is as before.
\<close>

definition copied :: "os \<Rightarrow> fs \<Rightarrow> path \<Rightarrow> path \<Rightarrow> path set \<Rightarrow> fs \<Rightarrow> bool" where
  "copied os fs0 s d D fs \<longleftrightarrow> wf_fs fs \<and> frame fs0 d fs \<and>
     (\<forall>r. fs_get fs (d @ r) = (if r = [] \<or> s @ r \<in> D then map_option (remode os) (fs_get fs0 (s @ r)) else None))"

lemma copied_source:
  assumes "copied os fs0 s d D fs" "\<not> prefix d s" "\<not> prefix s d"
  shows "fs_get fs (s @ r) = fs_get fs0 (s @ r)"
proof -
  have "\<not> prefix d (s @ r)" "\<not> prefix (s @ r) d"
    using assms(2,3) by (metis prefixI prefix_same_cases) (metis assms(3) append_prefixD)
  then show ?thesis using assms(1) frame_same unfolding copied_def by blast
qed

lemma copyEntry_special:
  assumes "copied os fs0 s d D (h_fs h)" "\<not> prefix d s" "\<not> prefix s d"
    and "fs_get fs0 (s @ r) = Some Special"
  shows "isl (fst (copyEntry s d (s @ r) os h))"
  using copied_source [OF assms(1-3), of r] assms(4) by (simp add: copyEntry_def Let_def)

lemma copyEntry_step:
  assumes f: "faultless os" and c: "copied os fs0 s d D (h_fs h)"
    and np: "\<not> prefix d s" "\<not> prefix s d" and dir: "is_dir (fs_get fs0 s)"
    and r: "r \<noteq> []" "fs_get fs0 (s @ r) = Some n" "n \<noteq> Special" "s @ r \<notin> D"
    and up: "butlast r = [] \<or> s @ butlast r \<in> D" and wf: "wf_fs fs0"
  obtains h' where "copyEntry s d (s @ r) os h = (Inr (), h')"
    "copied os fs0 s d (insert (s @ r) D) (h_fs h')"
proof -
  let ?fs = "h_fs h"
  have wf1: "wf_fs ?fs" and fr: "frame fs0 d ?fs"
    and g: "\<And>q. fs_get ?fs (d @ q) = (if q = [] \<or> s @ q \<in> D then map_option (remode os) (fs_get fs0 (s @ q)) else None)"
    using c by (auto simp: copied_def)
  have src: "fs_get ?fs (s @ r) = Some n" using copied_source [OF c np] r(2) by simp
  have dn: "fs_get ?fs (d @ r) = None" using r g by simp
  have dne: "d \<noteq> []" using np(1) by auto
  have "is_dir (fs_get fs0 (s @ butlast r))"
    using wf r(1,2) unfolding wf_fs_def by (metis append_is_Nil_conv butlast_append option.distinct(1))
  then have par: "is_dir (fs_get ?fs (d @ butlast r))"
    using up by (auto simp: g is_dir_iff)
  have bl: "butlast (d @ r) = d @ butlast r" using r(1) by (simp add: butlast_append)
  have dirs: "is_dir (fs_get ?fs q)" if "strict_prefix q (d @ r)" for q
  proof -
    have "q = d @ butlast r \<or> strict_prefix q (d @ butlast r)"
      using that prefix_butlast_iff [of "d @ r" q] r(1) bl by (auto simp: strict_prefix_def)
    then show ?thesis using par wf_get_open [OF wf1, of "d @ butlast r" q] by (auto simp: is_dir_iff)
  qed
  have op: "open_above ?fs (d @ r)" using dirs by (simp add: open_above_def)
  have stepped: "copied os fs0 s d (insert (s @ r) D) fs"
    if w: "wf_fs fs" and gq: "\<And>q. fs_get fs q = (if q = d @ r then Some (remode os n) else fs_get ?fs q)" for fs
  proof -
    have "frame fs0 d fs" using fr unfolding frame_def gq by (metis prefixI)
    moreover have "fs_get fs (d @ q) = (if q = [] \<or> s @ q \<in> insert (s @ r) D
        then map_option (remode os) (fs_get fs0 (s @ q)) else None)" for q
      using r g [of q] by (auto simp: gq)
    ultimately show ?thesis using w by (simp add: copied_def)
  qed
  show ?thesis
  proof (cases n)
    case (Reg cn m)
    have "fs_get ?fs (s @ r) = Some (Reg cn m)" using src Reg by simp
    from copyFile_ok [OF f wf1 this _ op dn, of m] dne obtain h' where
      h': "copyFile (s @ r) (d @ r) m os h = (Inr (), h')" "wf_fs (h_fs h')"
      "\<And>q. fs_get (h_fs h') q = (if q = d @ r then Some (Reg cn (masked os m))
       else if strict_prefix q (d @ r) \<and> fs_get ?fs q = None then Some (Dir (dir_masked os 0x1ED)) else fs_get ?fs q)"
      by auto
    have "fs_get (h_fs h') q = (if q = d @ r then Some (remode os n) else fs_get ?fs q)" for q
      using h'(3) [of q] dirs [of q] Reg by auto
    with stepped [OF h'(2)] have "copied os fs0 s d (insert (s @ r) D) (h_fs h')" by blast
    then show ?thesis using that [of h'] h'(1) src Reg by (simp add: copyEntry_def Let_def)
  next
    case (Dir m)
    let ?m = "dir_masked os m"
    have o: "open_above ?fs (d @ r @ [x])" for x
      using dirs dn prefix_butlast_iff [of "d @ r @ [x]"] unfolding open_above_def
      by (metis append.assoc append_is_Nil_conv butlast_snoc list.distinct(1) strict_prefix_def)
    note mk = mkdir_frame [OF wf1, of "d @ r", simplified, OF o, of ?m]
    let ?h = "h\<lparr>h_tick := Suc (h_tick h), h_fs := snd (mkdirs ?m [] (d @ r) ?fs)\<rparr>"
    have "fs_get (h_fs ?h) q = (if q = d @ r then Some (remode os n) else fs_get ?fs q)" for q
    proof -
      have "strict_prefix q (d @ r) \<longrightarrow> fs_get ?fs q \<noteq> None" using dirs [of q] by (auto simp: is_dir_iff)
      then show ?thesis using mk(3) [of q] Dir dn by (auto simp: strict_prefix_def)
    qed
    with stepped [of "h_fs ?h"] mk(2) have "copied os fs0 s d (insert (s @ r) D) (h_fs ?h)" by auto
    moreover have "copyEntry s d (s @ r) os h = (Inr (), ?h)"
      using src Dir mk(1) by (simp add: copyEntry_def Let_def os_mkdir_all_def os_call_ok [OF f])
    ultimately show ?thesis using that by blast
  next
    case Special
    then show ?thesis using r(3) by simp
  qed
qed

lemma sorted_parent:
  assumes "sorted (xs @ p # ys)" "strict_prefix q p" "q \<in> set (xs @ p # ys)"
  shows "q \<in> set xs"
proof -
  have "q < p" using assms(2) by (metis list_less_def lexord_append_leftI strict_prefixE' append_Nil2 lexord_Nil_left)
  then show ?thesis using assms(1,3) by (auto simp: sorted_append)
qed

lemma copyEntries:
  assumes f: "faultless os" and np: "\<not> prefix d s" "\<not> prefix s d"
    and dir: "is_dir (fs_get fs0 s)" and wf: "wf_fs fs0"
  shows "copied os fs0 s d (set xs) (h_fs h) \<Longrightarrow> xs @ ys = fs_children fs0 s \<Longrightarrow>
    (if \<forall>p \<in> set ys. fs_get fs0 p \<noteq> Some Special
     then \<exists>h'. act_each (copyEntry s d) ys os h = (Inr (), h') \<and> copied os fs0 s d (set (xs @ ys)) (h_fs h')
     else isl (fst (act_each (copyEntry s d) ys os h)))"
proof (induction ys arbitrary: xs h)
  case Nil
  then show ?case by (simp add: act_ret_def)
next
  case (Cons p ys)
  have "p \<in> set (fs_children fs0 s)" using Cons.prems(2) by (metis in_set_conv_decomp)
  then obtain r n where r: "p = s @ r" "r \<noteq> []" "fs_get fs0 p = Some n"
    by (auto simp: set_fs_children elim!: strict_prefixE')
  have pD: "p \<notin> set xs" using Cons.prems(2) fs_children_sorted(2) [of fs0 s]
    by (metis distinct_append insert_iff list.simps(15) disjoint_iff)
  show ?case
  proof (cases "n = Special")
    case True
    then show ?thesis using r copyEntry_special [OF Cons.prems(1) np, of r]
      by (auto simp: act_bind_def split: prod.splits sum.splits)
  next
    case False
    have up: "butlast r = [] \<or> s @ butlast r \<in> set xs"
    proof (cases "butlast r = []")
      case False
      have bl: "butlast p = s @ butlast r" using r by (simp add: butlast_append)
      have st: "strict_prefix (s @ butlast r) p" using bl r(1,2) butlast_strict [of p] by simp
      have "s @ butlast r \<in> set (fs_children fs0 s)"
        using False wf_get_open [OF wf _ st] r(3)
        by (auto simp: set_fs_children is_dir_iff strict_prefix_def)
      then show ?thesis using sorted_parent [of xs p ys] st Cons.prems(2) fs_children_sorted(1) [of fs0 s] by simp
    qed simp
    obtain h1 where h1: "copyEntry s d p os h = (Inr (), h1)" "copied os fs0 s d (insert p (set xs)) (h_fs h1)"
      using copyEntry_step [OF f Cons.prems(1) np dir r(2) _ False _ up wf] r pD by metis
    have "copied os fs0 s d (set (xs @ [p])) (h_fs h1)" using h1(2) by simp
    note IH = Cons.IH [OF this]
    have "(xs @ [p]) @ ys = fs_children fs0 s" using Cons.prems(2) by simp
    from IH [OF this] show ?thesis
      using h1(1) r(3) False by (auto simp: act_bind_def split: if_splits)
  qed
qed

text \<open>A finished copy.\<close>

definition mirrored :: "os \<Rightarrow> fs \<Rightarrow> path \<Rightarrow> path \<Rightarrow> fs \<Rightarrow> bool" where
  "mirrored os fs0 s d fs \<longleftrightarrow> wf_fs fs \<and> frame fs0 d fs \<and>
     (\<forall>r. fs_get fs (d @ r) = map_option (remode os) (fs_get fs0 (s @ r)))"

definition no_special :: "fs \<Rightarrow> path \<Rightarrow> bool" where
  "no_special fs p \<longleftrightarrow> (\<forall>r. fs_get fs (p @ r) \<noteq> Some Special)"

lemma copied_all:
  assumes "copied os fs0 s d (set (fs_children fs0 s)) fs"
  shows "mirrored os fs0 s d fs"
proof -
  have "s @ r \<in> set (fs_children fs0 s) \<longleftrightarrow> r \<noteq> [] \<and> fs_get fs0 (s @ r) \<noteq> None" for r
    by (auto simp: set_fs_children strict_prefix_def)
  then show ?thesis using assms by (auto simp: mirrored_def copied_def)
qed

lemma fs_children_cong:
  assumes "\<And>q. fs_get fs (p @ q) = fs_get fs' (p @ q)"
  shows "fs_children fs p = fs_children fs' p"
proof -
  have "set (fs_children fs p) = set (fs_children fs' p)"
    unfolding set_fs_children using assms by (auto simp: strict_prefix_def prefix_def)
  then show ?thesis using fs_children_sorted sorted_distinct_set_unique by blast
qed

lemma copyDir_result:
  assumes f: "faultless os" and wf: "wf_fs (h_fs h)" and np: "\<not> prefix d s" "\<not> prefix s d"
    and src: "fs_get (h_fs h) s = Some (Dir m)" and new: "fs_get (h_fs h) d = None" "open_above (h_fs h) d"
  shows "if no_special (h_fs h) s
    then \<exists>h'. copyDir s d os h = (Inr (), h') \<and> mirrored os (h_fs h) s d (h_fs h')
    else isl (fst (copyDir s d os h))"
proof -
  let ?fs = "h_fs h" and ?m = "dir_masked os m"
  have o: "open_above ?fs (d @ [x])" for x
    using new prefix_butlast_iff [of "d @ [x]"] unfolding open_above_def by (simp add: prefix_order.le_less) metis
  note mk = mkdir_frame [OF wf o, of ?m]
  let ?h1 = "h\<lparr>h_tick := Suc (Suc (h_tick h)), h_fs := snd (mkdirs ?m [] d ?fs)\<rparr>"
  have below: "fs_get ?fs (d @ r) = None" for r
    using new(1) wf_none_below [OF wf] by simp
  have fr: "frame ?fs d (h_fs ?h1)" unfolding frame_def using mk(3) by (auto simp: strict_prefix_def)
  have c0: "copied os ?fs s d (set []) (h_fs ?h1)"
    using mk(2,3) fr below src by (auto simp: copied_def prefix_def)
  have ch: "fs_children (h_fs ?h1) s = fs_children ?fs s"
    by (rule fs_children_cong) (rule copied_source [OF c0 np])
  have run: "copyDir s d os h = act_each (copyEntry s d) (fs_children ?fs s) os ?h1"
    using walk_to_some [OF wf src] mk(1) ch
    by (simp add: copyDir_def act_bind_def os_stat_def os_mkdir_all_def os_call_ok [OF f])
  have sp: "(\<forall>p \<in> set (fs_children ?fs s). fs_get ?fs p \<noteq> Some Special) \<longleftrightarrow> no_special ?fs s"
    using src unfolding no_special_def set_fs_children
    by (auto simp: strict_prefix_def prefix_def) (metis append_Nil2 node.distinct(5) option.inject)
  show ?thesis
    using copyEntries [OF f np _ wf c0, of "fs_children ?fs s"] src sp copied_all run by (auto split: if_splits)
qed

lemma copyFile_mirrors:
  assumes f: "faultless os" and wf: "wf_fs (h_fs h)"
    and src: "fs_get (h_fs h) s = Some (Reg c m)"
    and new: "d \<noteq> []" "fs_get (h_fs h) d = None" "open_above (h_fs h) d"
  shows "\<exists>h'. copyFile s d m os h = (Inr (), h') \<and> mirrored os (h_fs h) s d (h_fs h')"
proof -
  obtain h' where h': "copyFile s d m os h = (Inr (), h')" "wf_fs (h_fs h')"
      "fs_get (h_fs h') d = Some (Reg c (masked os m))" "frame (h_fs h) d (h_fs h')"
    using copyFile_ok [OF f wf src new(1,3,2)] by metis
  have "fs_get (h_fs h') (d @ r) = map_option (remode os) (fs_get (h_fs h) (s @ r))" for r
  proof (cases "r = []")
    case False
    then have "fs_get (h_fs h) (s @ r) = None" "fs_get (h_fs h') (d @ r) = None"
      using wf_below_file [OF wf, of s r] src wf_below_file [OF h'(2), of d r] h'(3) by auto
    then show ?thesis by simp
  qed (use h'(3) src in simp)
  then show ?thesis using h' by (auto simp: mirrored_def)
qed

lemma no_special_reg: "wf_fs fs \<Longrightarrow> fs_get fs s = Some (Reg c m) \<Longrightarrow> no_special fs s"
  unfolding no_special_def
  by (metis append_Nil2 is_dir_simps(3) node.distinct(3) option.distinct(1) option.inject wf_ancestor)

subsection \<open>Backups\<close>

text \<open>The backup \<open>b\<close> holds in \<open>fs\<close> what the tree \<open>fs0\<close> had at its path.\<close>

definition backup_ok :: "os \<Rightarrow> path \<Rightarrow> fs \<Rightarrow> backup \<Rightarrow> fs \<Rightarrow> bool" where
  "backup_ok os root fs b fs0 \<longleftrightarrow>
     trim_space (bk_path b) = bk_path b \<and> parallel (segs (bk_path b)) root \<and> open_above fs (segs (bk_path b)) \<and>
     (if bk_existed b
      then (\<exists>x. bk_backup b = root @ [x]) \<and> no_special fs (bk_backup b) \<and>
        bk_is_dir b = is_dir (fs_get fs (bk_backup b)) \<and> fs_get fs (bk_backup b) \<noteq> None \<and>
        (\<forall>q. fs_get fs (bk_backup b @ q) = map_option (remode os) (fs_get fs0 (segs (bk_path b) @ q)))
      else \<forall>q. fs_get fs0 (segs (bk_path b) @ q) = None)"

lemma backup_ok_cong:
  assumes "backup_ok os root fs b fs0" "\<And>q. bk_existed b \<Longrightarrow> fs_get fs' (bk_backup b @ q) = fs_get fs (bk_backup b @ q)"
    and "open_above fs' (segs (bk_path b))"
  shows "backup_ok os root fs' b fs0"
proof (cases "bk_existed b")
  case True
  have e: "fs_get fs' (bk_backup b @ q) = fs_get fs (bk_backup b @ q)" for q
    using assms(2) True by simp
  have "no_special fs' (bk_backup b) = no_special fs (bk_backup b)" by (simp only: no_special_def e)
  moreover have "fs_get fs' (bk_backup b) = fs_get fs (bk_backup b)" using e [of "[]"] by simp
  ultimately show ?thesis
    using assms(1,3) True unfolding backup_ok_def by (simp only: e) simp
qed (use assms in \<open>simp add: backup_ok_def\<close>)

lemma open_above_frame:
  "open_above fs p \<Longrightarrow> frame fs d fs' \<Longrightarrow> \<not> prefix d p \<Longrightarrow> open_above fs' p"
  unfolding open_above_def frame_def
  by (metis prefix_order.less_imp_le prefix_order.trans)

lemma open_above_del: "p \<noteq> [] \<Longrightarrow> open_above fs q \<Longrightarrow> open_above (fs_del fs p) q"
  by (auto simp: open_above_def fs_get_del)

text \<open>Removing what is there, if anything.\<close>

lemma remove_all_ok:
  assumes "faultless os" "wf_fs (h_fs h)" "open_above (h_fs h) p" "p \<noteq> []"
  obtains h1 where "os_remove_all p os h = (Inr (), h1)" "wf_fs (h_fs h1)"
    "\<And>q. fs_get (h_fs h1) q = (if prefix p q then None else fs_get (h_fs h) q)"
proof (cases "fs_get (h_fs h) p")
  case None
  have n: "fs_get (h_fs h) q = None" if "prefix p q" for q
    using that None wf_none_below [OF assms(2)] by (auto simp: prefix_def)
  show ?thesis
    by (rule that [of "h\<lparr>h_tick := Suc (h_tick h)\<rparr>"])
      (use walk_to_none [OF assms(2) None assms(3)] assms n in
        \<open>auto simp: os_remove_all_def os_call_ok remove_tree_def\<close>)
next
  case (Some n)
  show ?thesis
    by (rule that [of "h\<lparr>h_tick := Suc (h_tick h), h_fs := fs_del (h_fs h) p\<rparr>"])
      (use walk_to_some [OF assms(2) Some] assms wf_del in
        \<open>auto simp: os_remove_all_def os_call_ok remove_tree_def fs_get_del\<close>)
qed

lemma restoreOne_ok:
  assumes f: "faultless os" and wf: "wf_fs (h_fs h)" and b: "backup_ok os root (h_fs h) b fs0"
  obtains h' where "restoreOne b os h = (None, h')" "wf_fs (h_fs h')" "frame (h_fs h) (segs (bk_path b)) (h_fs h')"
    "\<And>q. fs_get (h_fs h') (segs (bk_path b) @ q) = map_option (remode os) (fs_get fs0 (segs (bk_path b) @ q))"
proof -
  let ?p = "segs (bk_path b)"
  have t: "trim_space (bk_path b) = bk_path b" and pr: "parallel ?p root" and op: "open_above (h_fs h) ?p"
    using b by (auto simp: backup_ok_def)
  have pn: "?p \<noteq> []" using pr by auto
  obtain h1 where h1: "os_remove_all ?p os h = (Inr (), h1)" "wf_fs (h_fs h1)"
    "\<And>q. fs_get (h_fs h1) q = (if prefix ?p q then None else fs_get (h_fs h) q)"
    using remove_all_ok [OF f wf op pn] by metis
  have fr1: "frame (h_fs h) ?p (h_fs h1)" by (simp add: frame_def h1(3))
  note result = that
  show ?thesis
  proof (cases "bk_existed b")
    case False
    then show ?thesis using that [of h1] h1 fr1 b t by (simp add: restoreOne_def backup_ok_def)
  next
    case True
    let ?s = "bk_backup b"
    have np: "\<not> prefix ?p ?s" "\<not> prefix ?s ?p"
      using b True pr append_prefixD [of root] unfolding backup_ok_def
      by (metis parallelE prefixI prefix_same_cases) (metis True append_prefixD b backup_ok_def parallelE pr)
    have src: "fs_get (h_fs h1) (?s @ q) = fs_get (h_fs h) (?s @ q)" for q
      using np h1(3) [of "?s @ q"] by (metis prefixI prefix_same_cases)
    have op1: "open_above (h_fs h1) ?p" using open_above_frame op fr1 by (auto simp: open_above_def h1(3))
    have new: "fs_get (h_fs h1) ?p = None" using h1(3) [of ?p] by simp
    have "no_special (h_fs h) ?s" using b True by (simp only: backup_ok_def if_True)
    then have sp: "no_special (h_fs h1) ?s" by (simp add: no_special_def src)
    have fin: ?thesis if h': "restoreOne b os h = (None, h')" "mirrored os (h_fs h1) ?s ?p (h_fs h')" for h'
    proof (rule result [OF h'(1)])
      show "wf_fs (h_fs h')" "frame (h_fs h) ?p (h_fs h')"
        using h'(2) frame_trans [OF fr1] by (auto simp: mirrored_def)
      show "fs_get (h_fs h') (?p @ q) = map_option (remode os) (fs_get fs0 (?p @ q))" for q
        using h'(2) src b True
        by (simp add: mirrored_def backup_ok_def option.map_comp comp_def)
    qed
    show ?thesis
    proof (cases "bk_is_dir b")
      case d: True
      then obtain m where "fs_get (h_fs h1) ?s = Some (Dir m)"
        using b True src [of "[]"] by (auto simp: backup_ok_def is_dir_iff)
      with copyDir_result [OF f h1(2) np _ new op1] sp obtain h' where
        "copyDir ?s ?p os h1 = (Inr (), h')" "mirrored os (h_fs h1) ?s ?p (h_fs h')" by auto
      then show ?thesis using fin [of h'] h1(1) True d t by (simp add: restoreOne_def restoreContent_def)
    next
      case d: False
      then obtain n where n: "fs_get (h_fs h1) ?s = Some n" "\<not> is_dir (Some n)"
        using b True src [of "[]"] by (auto simp: backup_ok_def)
      then obtain c m where r: "fs_get (h_fs h1) ?s = Some (Reg c m)"
        using sp unfolding no_special_def by (metis append_Nil2 is_dir_simps(2) node.exhaust)
      let ?h2 = "h1\<lparr>h_tick := Suc (h_tick h1)\<rparr>"
      obtain h' where "copyFile ?s ?p m os ?h2 = (Inr (), h')" "mirrored os (h_fs h1) ?s ?p (h_fs h')"
        using copyFile_mirrors [OF f _ _ pn, of ?h2 ?s c m] h1(2) r new op1 by auto
      then show ?thesis using fin [of h'] h1(1) True d t walk_to_some [OF h1(2) r]
        by (simp add: restoreOne_def restoreContent_def os_stat_def os_call_ok [OF f])
    qed
  qed
qed

lemma restoreAll_ok:
  assumes f: "faultless os"
  shows "wf_fs (h_fs h) \<Longrightarrow> \<forall>(b, fs0) \<in> set bs. backup_ok os root (h_fs h) b fs0 \<Longrightarrow>
     sorted_wrt (\<lambda>x y. parallel (segs (bk_path (fst x))) (segs (bk_path (fst y)))) bs \<Longrightarrow>
   \<exists>h'. restoreAll (map fst bs) os h = ([], h') \<and> wf_fs (h_fs h') \<and>
     (\<forall>(b, fs0) \<in> set bs. \<forall>q. fs_get (h_fs h') (segs (bk_path b) @ q) =
        map_option (remode os) (fs_get fs0 (segs (bk_path b) @ q))) \<and>
     touched ((\<lambda>x. segs (bk_path (fst x))) ` set bs) (h_fs h) (h_fs h')"
proof (induction bs arbitrary: h)
  case Nil
  then show ?case by simp
next
  case (Cons x bs)
  obtain b fs0 where x: "x = (b, fs0)" by force
  let ?p = "segs (bk_path b)"
  have b: "backup_ok os root (h_fs h) b fs0" using Cons.prems(2) x by simp
  obtain h1 where h1: "restoreOne b os h = (None, h1)" "wf_fs (h_fs h1)" "frame (h_fs h) ?p (h_fs h1)"
    "\<And>q. fs_get (h_fs h1) (?p @ q) = map_option (remode os) (fs_get fs0 (?p @ q))"
    using restoreOne_ok [OF f Cons.prems(1) b] by metis
  have pr: "parallel ?p root" using b by (simp add: backup_ok_def)
  have same: "fs_get (h_fs h1) q = fs_get (h_fs h) q" if "parallel ?p q" for q
    using that frame_same [OF h1(3)] by (simp add: parallel_def)
  have par: "parallel ?p (segs (bk_path (fst y)))" if "y \<in> set bs" for y
    using Cons.prems(3) that x by auto
  have root: "fs_get (h_fs h1) q = fs_get (h_fs h) q" if "prefix root q" for q
    using that pr same [of q] by (metis parallel_def prefix_order.trans prefix_same_cases)
  have rest: "\<forall>(b', fs') \<in> set bs. backup_ok os root (h_fs h1) b' fs'"
  proof safe
    fix b' fs' assume y: "(b', fs') \<in> set bs"
    then have o: "backup_ok os root (h_fs h) b' fs'" using Cons.prems(2) by auto
    have "open_above (h_fs h1) (segs (bk_path b'))"
      by (rule open_above_frame [OF _ h1(3)]) (use o par [OF y] in \<open>auto simp: backup_ok_def parallel_def\<close>)
    moreover have "fs_get (h_fs h1) (bk_backup b' @ q) = fs_get (h_fs h) (bk_backup b' @ q)" if "bk_existed b'" for q
      by (rule root) (use o that in \<open>auto simp: backup_ok_def\<close>)
    ultimately show "backup_ok os root (h_fs h1) b' fs'" using backup_ok_cong [OF o] by blast
  qed
  obtain h' where h': "restoreAll (map fst bs) os h1 = ([], h')" "wf_fs (h_fs h')"
     "\<forall>(b, fs0) \<in> set bs. \<forall>q. fs_get (h_fs h') (segs (bk_path b) @ q) =
        map_option (remode os) (fs_get fs0 (segs (bk_path b) @ q))"
     "touched ((\<lambda>x. segs (bk_path (fst x))) ` set bs) (h_fs h1) (h_fs h')"
    using Cons.IH [OF h1(2) rest] Cons.prems(3) by auto
  have same': "fs_get (h_fs h') (?p @ q) = fs_get (h_fs h1) (?p @ q)" for q
  proof (rule touched_same [OF h'(4)], safe)
    fix b' fs' assume y: "(b', fs') \<in> set bs"
    show "parallel (segs (bk_path (fst (b', fs')))) (?p @ q)"
      using parallel_append [of "segs (bk_path b')" ?p "[]" q] par [OF y] by (simp add: parallel_commute)
  qed
  have "touched ((\<lambda>x. segs (bk_path (fst x))) ` set (x # bs)) (h_fs h) (h_fs h1)"
    using h1(3) x by (auto simp: frame_touched intro: touched_mono)
  moreover have "touched ((\<lambda>x. segs (bk_path (fst x))) ` set (x # bs)) (h_fs h1) (h_fs h')"
    using h'(4) by (rule touched_mono) auto
  ultimately have "touched ((\<lambda>x. segs (bk_path (fst x))) ` set (x # bs)) (h_fs h) (h_fs h')"
    by (rule touched_trans)
  then show ?case using same' h1(1,4) h'(1-3) x by (auto simp: optList_def)
qed

subsection \<open>Captures and changes\<close>

lemma backupName_inj: "backupName n = backupName k \<longleftrightarrow> n = k"
  by (metis append_same_eq backupName_def option.inject parse_digits_show)

lemma mkdirs_same:
  "\<forall>q. prefix q ss \<longrightarrow> q \<noteq> [] \<longrightarrow> is_dir (fs_get fs (acc @ q)) \<Longrightarrow> mkdirs m acc ss fs = (Inr (), fs)"
proof (induction m acc ss fs rule: mkdirs.induct)
  case (2 m acc s ss fs)
  then obtain k where k: "fs_get fs (acc @ [s]) = Some (Dir k)"
    by (metis append_Cons append_Nil is_dir_iff list.distinct(1) prefixI)
  moreover have "\<forall>q. prefix q ss \<longrightarrow> q \<noteq> [] \<longrightarrow> is_dir (fs_get fs ((acc @ [s]) @ q))"
    using 2(3) by auto
  ultimately show ?case using 2(2) [OF refl k] by simp
qed simp

text \<open>The state of a rollback: the \<open>i\<close>-th backup is of the \<open>i\<close>-th tree, and the next names are free.\<close>

definition rollback_inv :: "os \<Rightarrow> rollback \<Rightarrow> fs \<Rightarrow> fs list \<Rightarrow> bool" where
  "rollback_inv os r fs saved \<longleftrightarrow>
     wf_fs fs \<and> open_above fs (rb_root r) \<and>
     (fs_get fs (rb_root r) = None \<or> is_dir (fs_get fs (rb_root r))) \<and>
     list_all2 (backup_ok os (rb_root r) fs) (rb_backups r) saved \<and>
     (\<forall>n \<ge> length (rb_backups r). fs_get fs (rb_root r @ [backupName n]) = None)"

lemma rollback_inv_change:
  assumes "rollback_inv os r fs saved" "wf_fs fs'" "\<forall>q. prefix (rb_root r) q \<longrightarrow> fs_get fs' q = fs_get fs q"
    and "open_above fs' (rb_root r)"
    and "\<forall>b \<in> set (rb_backups r). open_above fs' (segs (bk_path b))"
  shows "rollback_inv os r fs' saved"
proof -
  have "list_all2 (backup_ok os (rb_root r) fs') (rb_backups r) saved"
  proof (rule list.rel_mono_strong [where R = "backup_ok os (rb_root r) fs"])
    show "list_all2 (backup_ok os (rb_root r) fs) (rb_backups r) saved" using assms(1) by (simp add: rollback_inv_def)
    fix b fs0 assume b: "b \<in> set (rb_backups r)" "backup_ok os (rb_root r) fs b fs0"
    show "backup_ok os (rb_root r) fs' b fs0"
      by (rule backup_ok_cong [OF b(2)]) (use b assms(3,5) in \<open>auto simp: backup_ok_def\<close>)
  qed
  then show ?thesis using assms by (simp add: rollback_inv_def)
qed

lemma rollback_inv_add:
  assumes i: "rollback_inv os r fs saved" and w: "wf_fs fs'" and rd: "is_dir (fs_get fs (rb_root r))"
    and fr: "frame fs (rb_root r @ [backupName (length (rb_backups r))]) fs'"
    and b: "backup_ok os (rb_root r) fs' b fs"
  shows "rollback_inv os (addBackup b r) fs' (saved @ [fs])"
proof -
  let ?n = "length (rb_backups r)" and ?d = "rb_root r @ [backupName (length (rb_backups r))]"
  have free: "\<And>k. k \<ge> ?n \<Longrightarrow> fs_get fs (rb_root r @ [backupName k]) = None"
    using i by (auto simp: rollback_inv_def)
  have root: "is_dir (fs_get fs' (rb_root r))"
    using fr [unfolded frame_def, rule_format, of "rb_root r"] rd by (auto simp: prefix_def)
  have par: "fs_get fs' (rb_root r @ x # q) = fs_get fs (rb_root r @ x # q)" if "x \<noteq> backupName ?n" for x q
    using frame_same [OF fr, of "rb_root r @ x # q"] that by (auto simp: prefix_def)
  have "backup_ok os (rb_root r) fs' b' fs0" if o: "backup_ok os (rb_root r) fs b' fs0" for b' fs0
  proof (rule backup_ok_cong [OF o])
    show "open_above fs' (segs (bk_path b'))"
      using open_above_frame [OF _ fr] o unfolding backup_ok_def by (metis append_prefixD parallelE)
    show "fs_get fs' (bk_backup b' @ q) = fs_get fs (bk_backup b' @ q)" if e: "bk_existed b'" for q
    proof -
      obtain x where x: "bk_backup b' = rb_root r @ [x]" "fs_get fs (bk_backup b') \<noteq> None"
        using o e by (auto simp: backup_ok_def)
      then have "x \<noteq> backupName ?n" using free [of ?n] by auto
      then show ?thesis using par x(1) by simp
    qed
  qed
  then have "list_all2 (backup_ok os (rb_root r) fs') (rb_backups r) saved"
    using i by (auto simp: rollback_inv_def elim: list.rel_mono_strong)
  moreover have "fs_get fs' (rb_root r @ [backupName k]) = None" if "k \<ge> Suc ?n" for k
    using par [of "backupName k" "[]"] free [of k] that by (simp add: backupName_inj)
  ultimately show ?thesis using b w root wf_open_above [OF w, of "rb_root r"]
    by (auto simp: rollback_inv_def addBackup_def list_all2_appendI is_dir_iff)
qed

lemma mirrored_backup_ok:
  assumes m: "mirrored os fs (segs p) (root @ [x]) fs'" and ns: "no_special fs (segs p)"
    and n: "fs_get fs (segs p) = Some n" and t: "trim_space p = p" "parallel (segs p) root" and w: "wf_fs fs"
    and b: "b = \<lparr>bk_path = p, bk_existed = True, bk_is_dir = is_dir (Some n), bk_backup = root @ [x]\<rparr>"
  shows "backup_ok os root fs' b fs"
proof -
  have e: "fs_get fs' (root @ x # q) = map_option (remode os) (fs_get fs (segs p @ q))" for q
    using m by (simp add: mirrored_def)
  have "no_special fs' (root @ [x])"
    using ns by (auto simp: no_special_def e elim!: remode.elims) 
  moreover have "open_above fs' (segs p)"
    by (rule open_above_frame [of fs _ "root @ [x]"])
      (use m t n w in \<open>auto simp: mirrored_def wf_open_above dest: append_prefixD\<close>)
  moreover have "is_dir (fs_get fs' (root @ [x])) = is_dir (Some n)"
    using e [of "[]"] n by (cases n) simp_all
  ultimately show ?thesis using e n t by (simp add: backup_ok_def b)
qed

text \<open>Making the directory of the backups disturbs nothing.\<close>

lemma capture_root:
  assumes f: "faultless os" and i: "rollback_inv os r (h_fs h) saved"
  obtains h1 where "os_mkdir_all (rb_root r) 0x1ED os h = (Inr (), h1)" "rollback_inv os r (h_fs h1) saved"
    "is_dir (fs_get (h_fs h1) (rb_root r))"
    "\<And>q. \<not> prefix q (rb_root r) \<Longrightarrow> fs_get (h_fs h1) q = fs_get (h_fs h) q"
    "touched {rb_root r} (h_fs h) (h_fs h1)"
proof -
  let ?fs = "h_fs h" and ?m = "dir_masked os 0x1ED"
  let ?fs1 = "snd (mkdirs ?m [] (rb_root r) ?fs)"
  have wf: "wf_fs ?fs" and op: "open_above ?fs (rb_root r)"
    and rd: "fs_get ?fs (rb_root r) = None \<or> is_dir (fs_get ?fs (rb_root r))"
    using i by (auto simp: rollback_inv_def)
  have "open_above ?fs (rb_root r @ [[]])"
    using op rd prefix_butlast_iff [of "rb_root r @ [[]]"] by (auto simp: open_above_def strict_prefix_def)
  note mk = mkdir_frame [OF wf this, of ?m]
  have same: "fs_get ?fs1 q = fs_get ?fs q" if "\<not> prefix q (rb_root r)" for q
    using mk(3) [of q] that by simp
  have root: "is_dir (fs_get ?fs1 (rb_root r))" using mk(3) [of "rb_root r"] rd by auto
  have t: "touched {rb_root r} ?fs ?fs1" using mk(3) by (auto simp: touched_def strict_prefix_def)
  have opn: "open_above ?fs1 p" if "open_above ?fs p" for p
    using that mk(3) by (simp add: open_above_def)
  have "list_all2 (backup_ok os (rb_root r) ?fs1) (rb_backups r) saved"
  proof (rule list.rel_mono_strong [where R = "backup_ok os (rb_root r) ?fs"])
    show "list_all2 (backup_ok os (rb_root r) ?fs) (rb_backups r) saved" using i by (simp add: rollback_inv_def)
    fix b fs0 assume b: "backup_ok os (rb_root r) ?fs b fs0"
    have "fs_get ?fs1 (bk_backup b @ q) = fs_get ?fs (bk_backup b @ q)" if "bk_existed b" for q
      by (rule same) (use b that in \<open>auto simp: backup_ok_def\<close>)
    moreover have "open_above ?fs1 (segs (bk_path b))" using b unfolding backup_ok_def by (blast intro: opn)
    ultimately show "backup_ok os (rb_root r) ?fs1 b fs0" by (rule backup_ok_cong [OF b])
  qed
  moreover have "fs_get ?fs1 (rb_root r @ [x]) = fs_get ?fs (rb_root r @ [x])" for x
    by (rule same) simp
  ultimately have "rollback_inv os r ?fs1 saved"
    using i mk(2) root opn [OF op] by (simp add: rollback_inv_def)
  moreover have "os_mkdir_all (rb_root r) 0x1ED os h = (Inr (), h\<lparr>h_tick := Suc (h_tick h), h_fs := ?fs1\<rparr>)"
    using mk(1) by (simp add: os_mkdir_all_def os_call_ok [OF f])
  ultimately show ?thesis using that [of "h\<lparr>h_tick := Suc (h_tick h), h_fs := ?fs1\<rparr>"] root same t by simp
qed

lemma captureTarget_inv:
  assumes f: "faultless os" and i: "rollback_inv os r (h_fs h) saved"
    and rd: "is_dir (fs_get (h_fs h) (rb_root r))"
    and c: "captureTarget p os (r, h) = (None, r', h')"
    and pr: "parallel (segs p) (rb_root r)" and tp: "trim_space p = p"
  shows "\<exists>b. bk_path b = p \<and> r' = addBackup b r \<and> rollback_inv os r' (h_fs h') (saved @ [h_fs h])"
proof -
  let ?fs = "h_fs h"
  let ?x = "backupName (length (rb_backups r))"
  let ?d = "rb_root r @ [?x]"
  have wf: "wf_fs ?fs" and dn: "fs_get ?fs ?d = None" using i by (auto simp: rollback_inv_def)
  have dirs: "is_dir (fs_get ?fs q)" if "prefix q (rb_root r)" for q
    using that rd wf_get_open [OF wf, of "rb_root r" q] by (cases "q = rb_root r") (auto simp: strict_prefix_def is_dir_iff)
  have od: "open_above ?fs ?d" using dirs prefix_butlast_iff [of ?d] by (simp add: open_above_def)
  have np: "\<not> prefix ?d (segs p)" "\<not> prefix (segs p) ?d"
    using pr by (metis append_prefixD parallelE) (metis parallelE pr prefixI prefix_same_cases)
  let ?h2 = "h\<lparr>h_tick := Suc (h_tick h)\<rparr>"
  have st: "os_stat (segs p) os h = (walk_to ?fs [] (segs p), ?h2)"
    by (simp add: os_stat_def os_call_ok [OF f])
  show ?thesis
  proof (cases "walk_to ?fs [] (segs p)")
    case (Inl e)
    let ?b = "\<lparr>bk_path = p, bk_existed = False, bk_is_dir = False, bk_backup = []\<rparr>"
    have e: "e = Not_exist" "r' = addBackup ?b r" "h' = ?h2"
      using c Inl st by (auto simp: captureTarget_def Let_def split: os_error.splits)
    have n: "fs_get ?fs (segs p) = None" "open_above ?fs (segs p)"
      using walk_to_missing [of ?fs "[]" "segs p"] Inl e(1) wf by (auto simp: open_above_def)
    have "backup_ok os (rb_root r) ?fs ?b ?fs"
      using n pr tp wf_none_below [OF wf n(1)] by (simp add: backup_ok_def)
    then have "rollback_inv os (addBackup ?b r) ?fs (saved @ [?fs])"
      using rollback_inv_add [OF i wf rd frame_refl] by blast
    then show ?thesis using e by (intro exI [of _ ?b]) simp
  next
    case (Inr n)
    have n: "fs_get ?fs (segs p) = Some n" using walk_to_get [OF Inr] by simp
    let ?b = "\<lparr>bk_path = p, bk_existed = True, bk_is_dir = is_dir (Some n), bk_backup = ?d\<rparr>"
    have fin: ?thesis if m: "mirrored os ?fs (segs p) ?d (h_fs h')" "no_special ?fs (segs p)" "r' = addBackup ?b r"
    proof -
      have "rollback_inv os (addBackup ?b r) (h_fs h') (saved @ [?fs])"
        using rollback_inv_add [OF i _ rd _ mirrored_backup_ok [OF m(1,2) n tp pr wf refl]] m(1)
        by (auto simp: mirrored_def)
      then show ?thesis using m(3) by (intro exI [of _ ?b]) simp
    qed
    show ?thesis
    proof (cases n)
      case (Reg cn m)
      then have s: "fs_get (h_fs ?h2) (segs p) = Some (Reg cn m)" using n by simp
      obtain h3 where "copyFile (segs p) ?d m os ?h2 = (Inr (), h3)" "mirrored os ?fs (segs p) ?d (h_fs h3)"
        using copyFile_mirrors [OF f _ s, of ?d] wf od dn by auto
      then show ?thesis using fin c Inr Reg st no_special_reg [OF wf] n
        by (auto simp: captureTarget_def Let_def)
    next
      case (Dir m)
      then have "if no_special ?fs (segs p)
        then \<exists>h3. copyDir (segs p) ?d os ?h2 = (Inr (), h3) \<and> mirrored os ?fs (segs p) ?d (h_fs h3)
        else isl (fst (copyDir (segs p) ?d os ?h2))"
        using copyDir_result [OF f _ np, of ?h2 m] wf od dn n by (auto split: if_splits)
      then show ?thesis using fin c Inr Dir st
        by (auto simp: captureTarget_def Let_def split: prod.splits sum.splits if_splits)
    next
      case Special
      then show ?thesis using c Inr st by (simp add: captureTarget_def Let_def)
    qed
  qed
qed

lemma Capture_inv:
  assumes f: "faultless os" and i: "rollback_inv os r (h_fs h) saved"
    and c: "Capture p os (r, h) = (None, r', h')" and pr: "parallel (segs (trim_space p)) (rb_root r)"
  shows "(trim_space p = [] \<or> captured (trim_space p) r) \<and> r' = r \<and> h' = h \<or>
    (\<exists>b. bk_path b = trim_space p \<and> \<not> captured (trim_space p) r \<and> r' = addBackup b r \<and> rollback_inv os r' (h_fs h') (saved @ [h_fs h]))"
proof (cases "trim_space p = [] \<or> captured (trim_space p) r")
  case True
  then have "Capture p os (r, h) = (None, r, h)" by (auto simp: Capture_def Let_def)
  then show ?thesis using c True by simp
next
  case False
  obtain h1 where h1: "os_mkdir_all (rb_root r) 0x1ED os h = (Inr (), h1)" "rollback_inv os r (h_fs h1) saved"
    "is_dir (fs_get (h_fs h1) (rb_root r))" "\<And>q. \<not> prefix q (rb_root r) \<Longrightarrow> fs_get (h_fs h1) q = fs_get (h_fs h) q"
    using capture_root [OF f i] by metis
  have "captureTarget (trim_space p) os (r, h1) = (None, r', h')"
    using c False h1(1) by (simp add: Capture_def Let_def)
  then obtain b where b: "bk_path b = trim_space p" "r' = addBackup b r" "rollback_inv os r' (h_fs h') (saved @ [h_fs h1])"
    using captureTarget_inv [OF f h1(2,3) _ pr] by auto
  have same: "fs_get (h_fs h1) (segs (trim_space p) @ q) = fs_get (h_fs h) (segs (trim_space p) @ q)" for q
    by (rule h1(4)) (use pr in \<open>auto dest: append_prefixD\<close>)
  have "backup_ok os (rb_root r) (h_fs h') b (h_fs h1) = backup_ok os (rb_root r) (h_fs h') b (h_fs h)"
    unfolding backup_ok_def b(1) same by simp
  moreover have "length saved = length (rb_backups r)" using i unfolding rollback_inv_def by (metis list_all2_lengthD)
  ultimately have "rollback_inv os r' (h_fs h') (saved @ [h_fs h])"
    using b(2,3) by (simp add: rollback_inv_def addBackup_def list_all2_append)
  then show ?thesis using b(1,2) False by blast
qed

text \<open>
  A run of an install as the rollback sees it, from an empty or missing directory: paths outside
  the directory are captured, and between the captures the tree may change in any way that
  leaves the directory alone and does not put a file where the directory or a captured path
  needs a directory.
\<close>

inductive rollback_run :: "os \<Rightarrow> string \<Rightarrow> host \<Rightarrow> rollback \<Rightarrow> host \<Rightarrow> fs list \<Rightarrow> bool"
  for os root h0 where
  Started: "wf_fs (h_fs h0) \<Longrightarrow> open_above (h_fs h0) (segs (trim_space root)) \<Longrightarrow>
     fs_get (h_fs h0) (segs (trim_space root)) = None \<or> is_dir (fs_get (h_fs h0) (segs (trim_space root))) \<Longrightarrow>
     fs_children (h_fs h0) (segs (trim_space root)) = [] \<Longrightarrow>
     rollback_run os root h0 (newInstallRollback root) h0 []"
| Captured: "rollback_run os root h0 r h saved \<Longrightarrow> Capture p os (r, h) = (None, r', h') \<Longrightarrow>
     parallel (segs (trim_space p)) (rb_root r) \<Longrightarrow>
     rollback_run os root h0 r' h'
       (if length (rb_backups r') = length (rb_backups r) then saved else saved @ [h_fs h])"
| Changed: "rollback_run os root h0 r h saved \<Longrightarrow> wf_fs (h_fs h') \<Longrightarrow>
     \<forall>q. prefix (rb_root r) q \<longrightarrow> fs_get (h_fs h') q = fs_get (h_fs h) q \<Longrightarrow>
     open_above (h_fs h') (rb_root r) \<Longrightarrow>
     \<forall>b \<in> set (rb_backups r). open_above (h_fs h') (segs (bk_path b)) \<Longrightarrow>
     rollback_run os root h0 r h' saved"

lemma rollback_run_inv:
  assumes "faultless os" "rollback_run os root h0 r h saved"
  shows "rollback_inv os r (h_fs h) saved"
  using assms(2)
proof induction
  case Started
  have "fs_get (h_fs h0) (segs (trim_space root) @ [x]) = None" for x
    using Started(4) set_fs_children [of "h_fs h0" "segs (trim_space root)"]
    by (metis (mono_tags, lifting) append_self_conv empty_iff empty_set list.distinct(1) mem_Collect_eq prefixI strict_prefix_def)
  then show ?case using Started by (simp add: rollback_inv_def newInstallRollback_def)
next
  case (Captured r h saved p r' h')
  then show ?case using Capture_inv [OF assms(1) Captured(4,2,3)] by (auto simp: addBackup_def)
next
  case (Changed r h saved h')
  then show ?case using rollback_inv_change by blast
qed

lemma stopService_fs [simp]: "h_fs (stopService m os h) = h_fs h"
  by (simp add: stopService_def run_command_def logInstallStage_def Let_def)

lemma restoreService_fs [simp]: "h_fs (snd (restoreService m r os h)) = h_fs h"
  by (simp add: restoreService_def run_command_def Let_def)

lemma restoreNginx_fs [simp]: "h_fs (snd (restoreNginx m os h)) = h_fs h"
  by (simp add: restoreNginx_def run_command_def split: option.splits)

lemma rollback_run_distinct:
  assumes "faultless os" "rollback_run os root h0 r h saved"
  shows "distinct (map bk_path (rb_backups r))"
  using assms(2)
proof induction
  case (Captured r h saved p r' h')
  then show ?case
    using Capture_inv [OF assms(1) rollback_run_inv [OF assms(1) Captured(1)] Captured(2,3)]
    by (fastforce simp: addBackup_def captured_def list_ex_iff)
qed (simp_all add: newInstallRollback_def)

lemma sorted_wrt_pairwise:
  "distinct (map f xs) \<Longrightarrow> \<forall>x \<in> set xs. \<forall>y \<in> set xs. f x \<noteq> f y \<longrightarrow> P x y \<Longrightarrow> sorted_wrt P xs"
  by (induction xs) force+

lemma no_command_errors:
  assumes "os_command os = (\<lambda>_. None)"
  shows "fst (restoreService m r os h) = []" "fst (restoreNginx m os h) = []"
  using assms by (simp_all add: restoreService_def restoreNginx_def run_command_def optList_def Let_def)

text \<open>What a restore does to the tree, from any state that has its backups.\<close>

lemma Restore_files:
  assumes f: "faultless os" and wf: "wf_fs (h_fs h)"
    and l2: "list_all2 (backup_ok os root (h_fs h)) (rb_backups r) saved"
    and dist: "distinct (map bk_path (rb_backups r))"
    and par: "\<forall>b \<in> set (rb_backups r). \<forall>b' \<in> set (rb_backups r).
       bk_path b \<noteq> bk_path b' \<longrightarrow> parallel (segs (bk_path b)) (segs (bk_path b'))"
    and ms: "mset (order (rb_backups r)) = mset (rb_backups r)"
    and run: "Restore order m os r h = (errs, h')"
  shows "\<forall>i < length saved. \<forall>q.
       fs_get (h_fs h') (segs (bk_path (rb_backups r ! i)) @ q) =
       map_option (remode os) (fs_get (saved ! i) (segs (bk_path (rb_backups r ! i)) @ q))"
    and "wf_fs (h_fs h')" and "touched ((\<lambda>b. segs (bk_path b)) ` set (rb_backups r)) (h_fs h) (h_fs h')"
    and "os_command os = (\<lambda>_. None) \<longrightarrow> errs = []"
proof -
  let ?bs = "rb_backups r" and ?h0 = "stopService m os h"
  have len: "length saved = length ?bs" using l2 by (simp add: list_all2_lengthD)
  have "(\<forall>i < length saved. \<forall>q.
       fs_get (h_fs h') (segs (bk_path (?bs ! i)) @ q) =
       map_option (remode os) (fs_get (saved ! i) (segs (bk_path (?bs ! i)) @ q))) \<and>
    wf_fs (h_fs h') \<and> touched ((\<lambda>b. segs (bk_path b)) ` set ?bs) (h_fs h) (h_fs h') \<and>
    (os_command os = (\<lambda>_. None) \<longrightarrow> errs = [])"
  proof (cases "?bs = []")
    case True
    then show ?thesis using run len wf by (simp add: Restore_def)
  next
    case False
    define tree where "tree b = the (map_of (zip ?bs saved) b)" for b
    have dz: "distinct ?bs" using dist distinct_map by blast
    have tr: "tree (?bs ! k) = saved ! k" if "k < length ?bs" for k
      using that len dz by (simp add: tree_def map_of_zip_nth)
    let ?ps = "map (\<lambda>b. (b, tree b)) (order ?bs)"
    have so: "set (order ?bs) = set ?bs" "distinct (map bk_path (order ?bs))"
      using ms dist mset_eq_setD [OF ms]
        mset_eq_imp_distinct_iff [of "map bk_path (order ?bs)" "map bk_path ?bs"] by simp_all
    have b: "\<forall>(b, fs0) \<in> set ?ps. backup_ok os root (h_fs ?h0) b fs0"
      using so(1) l2 tr by (auto simp: in_set_conv_nth list_all2_conv_all_nth)
    have p: "sorted_wrt (\<lambda>x y. parallel (segs (bk_path (fst x))) (segs (bk_path (fst y)))) ?ps"
      by (rule sorted_wrt_pairwise [where f = "\<lambda>x. bk_path (fst x)"])
        (use so par in \<open>auto simp: comp_def\<close>)
    have "wf_fs (h_fs ?h0)" using wf by simp
    from restoreAll_ok [OF f this b p] obtain h1 where h1: "restoreAll (map fst ?ps) os ?h0 = ([], h1)" "wf_fs (h_fs h1)"
      "\<forall>(b, fs0) \<in> set ?ps. \<forall>q. fs_get (h_fs h1) (segs (bk_path b) @ q) =
        map_option (remode os) (fs_get fs0 (segs (bk_path b) @ q))"
      "touched ((\<lambda>x. segs (bk_path (fst x))) ` set ?ps) (h_fs ?h0) (h_fs h1)"
      by blast
    have all: "restoreAll (order ?bs) os ?h0 = ([], h1)" using h1(1) by (simp add: comp_def)
    have im: "(\<lambda>x. segs (bk_path (fst x))) ` set ?ps = (\<lambda>b. segs (bk_path b)) ` set ?bs"
      using so(1) by (simp add: image_image)
    obtain es2 h2 where e2: "restoreService m r os h1 = (es2, h2)" by force
    obtain es3 h3 where e3: "restoreNginx m os h2 = (es3, h3)" by force
    have res: "errs = es2 @ es3" "h_fs h' = h_fs h3"
      using run False all e2 e3 by (auto simp: Restore_def logInstallStage_def)
    have fs: "h_fs h' = h_fs h1"
      using res(2) restoreService_fs [of m r os h1] restoreNginx_fs [of m os h2] e2 e3 by simp
    have e: "errs = []" if "os_command os = (\<lambda>_. None)"
      using res(1) no_command_errors(1) [OF that, of m r h1] no_command_errors(2) [OF that, of m h2] e2 e3 by simp
    have "fs_get (h_fs h') (segs (bk_path (?bs ! k)) @ q) =
       map_option (remode os) (fs_get (saved ! k) (segs (bk_path (?bs ! k)) @ q))" if "k < length saved" for k q
      using h1(3) so(1) that len tr [of k] by (auto simp: fs)
    then show ?thesis using e h1(2) h1(4) [unfolded im] by (simp add: fs)
  qed
  then show "\<forall>i < length saved. \<forall>q.
       fs_get (h_fs h') (segs (bk_path (?bs ! i)) @ q) =
       map_option (remode os) (fs_get (saved ! i) (segs (bk_path (?bs ! i)) @ q))"
    and "wf_fs (h_fs h')" and "touched ((\<lambda>b. segs (bk_path b)) ` set ?bs) (h_fs h) (h_fs h')"
    and "os_command os = (\<lambda>_. None) \<longrightarrow> errs = []"
    by blast+
qed

text \<open>
  C11: When every file call works, \<^verbatim>\<open>Restore\<close> brings back every captured path as it was when
  \<^verbatim>\<open>Capture\<close> saw it, files, contents and directories below it, up to mode bits of the umask,
  whatever the install did to the tree in between, in whichever order the map of backups is
  visited, provided that no captured path lies below another.  It touches nothing beside the
  captured paths and the directories above them, and when the commands succeed it reports no
  error.
\<close>

theorem Restore_brings_back:
  assumes "faultless os" and "rollback_run os root h0 r h saved"
    and "\<forall>b \<in> set (rb_backups r). \<forall>b' \<in> set (rb_backups r).
       bk_path b \<noteq> bk_path b' \<longrightarrow> parallel (segs (bk_path b)) (segs (bk_path b'))"
    and "mset (order (rb_backups r)) = mset (rb_backups r)"
    and "Restore order m os r h = (errs, h')"
  shows "length saved = length (rb_backups r) \<and>
    (\<forall>i < length saved. \<forall>q.
       fs_get (h_fs h') (segs (bk_path (rb_backups r ! i)) @ q) =
       map_option (remode os) (fs_get (saved ! i) (segs (bk_path (rb_backups r ! i)) @ q))) \<and>
    (\<forall>q. (\<forall>b \<in> set (rb_backups r). parallel (segs (bk_path b)) q) \<longrightarrow> fs_get (h_fs h') q = fs_get (h_fs h) q) \<and>
    (os_command os = (\<lambda>_. None) \<longrightarrow> errs = [])"
proof -
  have i: "rollback_inv os r (h_fs h) saved" using rollback_run_inv assms(1,2) by blast
  have dist: "distinct (map bk_path (rb_backups r))" using rollback_run_distinct assms(1,2) by blast
  have l2: "list_all2 (backup_ok os (rb_root r) (h_fs h)) (rb_backups r) saved" and wf: "wf_fs (h_fs h)"
    using i by (auto simp: rollback_inv_def)
  note rf = Restore_files [OF assms(1) wf l2 dist assms(3-5)]
  have len: "length saved = length (rb_backups r)" using l2 by (simp add: list_all2_lengthD)
  have "fs_get (h_fs h') q = fs_get (h_fs h) q" if "\<forall>b \<in> set (rb_backups r). parallel (segs (bk_path b)) q" for q
    by (rule touched_same [OF rf(3)]) (use that in blast)
  then show ?thesis using rf(1,4) len by blast
qed

definition sample_os :: os where
  "sample_os = \<lparr>os_fault = \<lambda>_. Works, os_umask = 0x12, os_suffix = \<lambda>_. 0, os_command = \<lambda>_. None, os_delay = \<lambda>_. 0\<rparr>"

definition host_with :: "fs \<Rightarrow> host" where
  "host_with fs = \<lparr>h_fs = fs, h_cmds = [], h_logs = [], h_urls = [], h_probes = [], h_clock = 0, h_tick = 0\<rparr>"

definition sample_tree :: fs where
  "sample_tree = [([''etc'', ''a''], Reg ''old'' 0x1A4), ([''rb''], Dir 0x1C0), ([''etc''], Dir 0x1ED)]"

lemmas sample_defs = sample_os_def host_with_def sample_tree_def faultless_def

definition sample_captured :: "rollback \<times> host" where
  "sample_captured = snd (Capture ''/etc/a'' sample_os (newInstallRollback ''/rb'', host_with sample_tree))"

definition sample_changed :: host where
  "sample_changed =
     (let h = snd sample_captured in h\<lparr>h_fs := fs_put (h_fs h) [''etc'', ''a''] (Reg ''new'' 0x1A4)\<rparr>)"

lemma sample_capture:
  "sample_captured =
     (\<lparr>rb_root = [''rb''], rb_backups =
        [\<lparr>bk_path = ''/etc/a'', bk_existed = True, bk_is_dir = False, bk_backup = [''rb'', ''0.bak'']\<rparr>]\<rparr>,
      \<lparr>h_fs = ([''rb'', ''0.bak''], Reg ''old'' 0x1A4) # sample_tree, h_cmds = [], h_logs = [], h_urls = [], h_probes = [], h_clock = 0, h_tick = 5\<rparr>)"
  "fst (Capture ''/etc/a'' sample_os (newInstallRollback ''/rb'', host_with sample_tree)) = None"
  by code_simp+

lemma sample_segs: "segs ''/etc/a'' = [''etc'', ''a'']" "segs ''/rb'' = [''rb'']"
  "trim_space ''/etc/a'' = ''/etc/a''" "trim_space ''/rb'' = ''/rb''"
  by code_simp+

lemma fs_wfI:
  assumes "list_all (\<lambda>(p, n). p = [] \<or> is_dir (fs_get fs (butlast p))) fs"
  shows "wf_fs fs"
proof -
  have "is_dir (fs_get fs (butlast p))" if "p \<noteq> []" "fs_get fs p \<noteq> None" for p
    using assms that map_of_SomeD [of fs p] by (fastforce simp: fs_get_def list_all_iff)
  then show ?thesis by (simp add: wf_fs_def)
qed

lemma sample_run:
  "rollback_run sample_os ''/rb'' (host_with sample_tree) (fst sample_captured) sample_changed [sample_tree]"
proof -
  have s: "rollback_run sample_os ''/rb'' (host_with sample_tree) (newInstallRollback ''/rb'') (host_with sample_tree) []"
    by (rule Started)
      (auto simp: host_with_def sample_segs sample_tree_def fs_get_def fs_children_def open_above_def prefix_Cons
         strict_prefix_def intro!: fs_wfI)
  have c: "Capture ''/etc/a'' sample_os (newInstallRollback ''/rb'', host_with sample_tree) =
      (None, fst sample_captured, snd sample_captured)"
    using sample_capture(2) by (simp add: sample_captured_def prod_eq_iff)
  have r: "rollback_run sample_os ''/rb'' (host_with sample_tree) (fst sample_captured) (snd sample_captured) [sample_tree]"
    using Captured [OF s c] 
    by (simp add: sample_segs sample_capture newInstallRollback_def parallel_def) (simp add: host_with_def)
  show ?thesis
    by (rule Changed [OF r])
      (auto simp: sample_changed_def sample_capture sample_tree_def fs_put_def fs_get_def sample_segs open_above_def
         intro!: fs_wfI)
qed

theorem Restore_brings_back_witness:
  "fs_get (h_fs sample_changed) [''etc'', ''a''] = Some (Reg ''new'' 0x1A4) \<and>
   (\<exists>h'. Restore rev sample_manifest sample_os (fst sample_captured) sample_changed = ([], h') \<and>
     fs_get (h_fs h') [''etc'', ''a''] = Some (Reg ''old'' 0x1A4) \<and> fs_get (h_fs h') [''etc'', ''b''] = None)"
proof -
  obtain errs h' where h': "Restore rev sample_manifest sample_os (fst sample_captured) sample_changed = (errs, h')"
    by force
  have "length [sample_tree] = length (rb_backups (fst sample_captured)) \<and>
    (\<forall>i < length [sample_tree]. \<forall>q.
       fs_get (h_fs h') (segs (bk_path (rb_backups (fst sample_captured) ! i)) @ q) =
       map_option (remode sample_os) (fs_get ([sample_tree] ! i) (segs (bk_path (rb_backups (fst sample_captured) ! i)) @ q))) \<and>
    (\<forall>q. (\<forall>b \<in> set (rb_backups (fst sample_captured)). parallel (segs (bk_path b)) q) \<longrightarrow>
       fs_get (h_fs h') q = fs_get (h_fs sample_changed) q) \<and>
    (os_command sample_os = (\<lambda>_. None) \<longrightarrow> errs = [])"
    by (rule Restore_brings_back [OF _ sample_run _ _ h']) (simp_all add: faultless_def sample_os_def sample_capture)
  then have a: "fs_get (h_fs h') ([''etc'', ''a''] @ []) = map_option (remode sample_os) (fs_get sample_tree ([''etc'', ''a''] @ []))"
    and b: "fs_get (h_fs h') [''etc'', ''b''] = fs_get (h_fs sample_changed) [''etc'', ''b'']" and e: "errs = []"
    by (auto simp: sample_capture sample_segs sample_os_def parallel_def)
  have "fs_get (h_fs h') [''etc'', ''a''] = Some (Reg ''old'' 0x1A4)"
    using a by (simp add: sample_tree_def fs_get_def masked_def sys_mode_def sample_os_def)
  moreover have "fs_get (h_fs h') [''etc'', ''b''] = None"
    using b by (simp add: sample_changed_def sample_capture sample_tree_def fs_put_def fs_get_def)
  ultimately show ?thesis
    using h' e by (simp add: sample_changed_def sample_capture fs_put_def fs_get_def)
qed

end
