(* ===== verification/Policy.thy ===== *)
theory Policy
  imports Go_Url Module_Types "HOL-Library.AList"
begin

text \<open>
  The install policy (\<^verbatim>\<open>internal/agent/install/policy.go\<close>): which modules may be installed,
  from which hosts and GitHub repositories, and the check of an install request against it.
  A Go set \<^verbatim>\<open>map[string]struct{}\<close> is a \<^typ>\<open>string set\<close>; the map of artifact sources, over
  which the normalisation ranges, is an association list in iteration order.
\<close>

subsection \<open>Normal forms of names\<close>

definition normalizeModuleName :: "string \<Rightarrow> string" where
  "normalizeModuleName raw =
     (let value = to_lower (trim_space raw);
          value = replace_all ''_'' ''-'' value;
          value = replace_all '' '' ''-'' value
      in trim_set ''-/'' value)"

definition normalizeArtifactHost :: "string \<Rightarrow> string" where
  "normalizeArtifactHost raw =
     (let value = to_lower (trim_space raw);
          value = trim_prefix ''https://'' value;
          value = trim_prefix ''http://'' value
      in trim_set ''/'' value)"

definition normalizeRepoSlug :: "string \<Rightarrow> string" where
  "normalizeRepoSlug raw = trim_set ''/'' (to_lower (trim_space raw))"

subsection \<open>The policy and its defaults\<close>

record source_policy =
  sp_repo_slug :: string
  sp_asset_base :: string

record policy =
  pol_modules :: "string set"
  pol_hosts :: "string set"
  pol_repo_slugs :: "string set"
  pol_artifacts :: "(string \<times> source_policy) list"
  pol_audit_log_path :: string

definition defaultArtifactSourcePolicies :: "(string \<times> source_policy) list" where
  "defaultArtifactSourcePolicies =
    [(''ums'', \<lparr>sp_repo_slug = ''phucle996/aurora-ums'', sp_asset_base = ''aurora-ums''\<rparr>),
     (''platform'', \<lparr>sp_repo_slug = ''phucle996/aurora-platform-resource'',
                     sp_asset_base = ''aurora-platform-resource''\<rparr>),
     (''paas'', \<lparr>sp_repo_slug = ''phucle996/aurora-paas-service'',
                 sp_asset_base = ''aurora-paas-service''\<rparr>),
     (''dbaas'', \<lparr>sp_repo_slug = ''phucle996/aurora-dbaas-module'',
                  sp_asset_base = ''aurora-dbaas-service''\<rparr>)]"

text \<open>The literal that \<^verbatim>\<open>defaultPolicy\<close> passes to \<^verbatim>\<open>normalizePolicy\<close>.\<close>

definition rawDefaultPolicy :: policy where
  "rawDefaultPolicy =
    \<lparr>pol_modules = {''ums'', ''platform'', ''paas'', ''dbaas''},
     pol_hosts = {''github.com'', ''release-assets.githubusercontent.com'',
                  ''objects.githubusercontent.com''},
     pol_repo_slugs = {},
     pol_artifacts = defaultArtifactSourcePolicies,
     pol_audit_log_path = ''/var/lib/aurora-agent/install_audit.jsonl''\<rparr>"

text \<open>One iteration of the loop over \<^verbatim>\<open>policy.AllowedArtifacts\<close>; \<open>None\<close> is \<^verbatim>\<open>continue\<close>.\<close>

definition norm_artifact :: "string \<times> source_policy \<Rightarrow> (string \<times> source_policy) option" where
  "norm_artifact e =
     (case e of (m, source) \<Rightarrow>
        let moduleName = normalizeModuleName m;
            repoSlug = normalizeRepoSlug (sp_repo_slug source);
            assetBase = trim_space (sp_asset_base source)
        in if moduleName = [] \<or> repoSlug = [] \<or> assetBase = [] then None
           else Some (moduleName, \<lparr>sp_repo_slug = repoSlug, sp_asset_base = assetBase\<rparr>))"

text \<open>\<^verbatim>\<open>normalizePolicy\<close> up to its fall-backs, and the fall-backs.\<close>

definition normalizePolicyCore :: "policy \<Rightarrow> policy" where
  "normalizePolicyCore p =
     (let kept = List.map_filter norm_artifact (pol_artifacts p) in
      \<lparr>pol_modules = normalizeModuleName ` pol_modules p - {[]},
       pol_hosts = normalizeArtifactHost ` pol_hosts p - {[]},
       pol_repo_slugs = (normalizeRepoSlug ` pol_repo_slugs p - {[]})
                        \<union> set (map (sp_repo_slug \<circ> snd) kept),
       pol_artifacts = fold (\<lambda>(m, s) al. AList.update m s al) kept [],
       pol_audit_log_path = trim_space (pol_audit_log_path p)\<rparr>)"

definition fillDefaults :: "policy \<Rightarrow> policy \<Rightarrow> policy" where
  "fillDefaults d p =
     \<lparr>pol_modules = (if pol_modules p = {} then pol_modules d else pol_modules p),
      pol_hosts = (if pol_hosts p = {} then pol_hosts d else pol_hosts p),
      pol_repo_slugs = (if pol_repo_slugs p = {} then pol_repo_slugs d else pol_repo_slugs p),
      pol_artifacts = (if pol_artifacts p = [] then pol_artifacts d else pol_artifacts p),
      pol_audit_log_path =
        (if pol_audit_log_path p = [] then pol_audit_log_path d else pol_audit_log_path p)\<rparr>"

text \<open>
  \<^verbatim>\<open>defaultPolicy\<close> calls \<^verbatim>\<open>normalizePolicy\<close>, which calls \<^verbatim>\<open>defaultPolicy\<close> back for an empty
  part.  The literal has no empty part (\<open>fill_raw_default\<close> below), so that inner call never
  happens and the default is the core normalisation of the literal.
\<close>

definition defaultPolicy :: policy where
  "defaultPolicy = normalizePolicyCore rawDefaultPolicy"

definition normalizePolicy :: "policy \<Rightarrow> policy" where
  "normalizePolicy p = fillDefaults defaultPolicy (normalizePolicyCore p)"

text \<open>\<^verbatim>\<open>currentPolicy\<close>: a deep copy of the configured policy, its audit path trimmed.\<close>

definition clonePolicy :: "policy \<Rightarrow> policy" where
  "clonePolicy p = p\<lparr>pol_audit_log_path := trim_space (pol_audit_log_path p)\<rparr>"

subsection \<open>Checking a request\<close>

datatype policy_error =
    ModuleNotAllowed string
  | UrlInvalid
  | UrlNotHttps
  | UrlHostEmpty
  | HostNotAllowed string
  | NoArtifactSource string
  | NotGitHubPath
  | NotReleaseAsset
  | RepoNotForModule string string
  | RepoNotAllowed string
  | AssetNotAllowed string string

fun policy_error_text :: "policy_error \<Rightarrow> string" where
  "policy_error_text (ModuleNotAllowed m) = ''module '' @ m @ '' is not allowed by agent install policy''"
| "policy_error_text UrlInvalid = ''artifact_url is invalid''"
| "policy_error_text UrlNotHttps = ''artifact_url must use https''"
| "policy_error_text UrlHostEmpty = ''artifact_url host is empty''"
| "policy_error_text (HostNotAllowed h) =
     ''artifact host '' @ h @ '' is not allowed by agent install policy''"
| "policy_error_text (NoArtifactSource m) =
     ''module '' @ m @ '' does not have an allowed artifact source''"
| "policy_error_text NotGitHubPath = ''artifact_url must use a github.com release path''"
| "policy_error_text NotReleaseAsset = ''artifact_url must target a github release asset''"
| "policy_error_text (RepoNotForModule r m) =
     ''artifact repo '' @ r @ '' is not allowed for module '' @ m"
| "policy_error_text (RepoNotAllowed r) =
     ''artifact repo '' @ r @ '' is not allowed by agent install policy''"
| "policy_error_text (AssetNotAllowed a m) =
     ''artifact asset '' @ a @ '' is not allowed for module '' @ m"

definition validateArtifactURL :: "string \<Rightarrow> string set \<Rightarrow> policy_error + unit" where
  "validateArtifactURL raw allowedHosts =
     (case url_parse (trim_space raw) of
        None \<Rightarrow> Inl UrlInvalid
      | Some parsed \<Rightarrow>
          if \<not> equal_fold (u_scheme parsed) ''https'' then Inl UrlNotHttps
          else let host = normalizeArtifactHost (url_hostname parsed) in
            if host = [] then Inl UrlHostEmpty
            else if host \<notin> allowedHosts then Inl (HostNotAllowed host)
            else Inr ())"

definition parseGitHubReleaseAsset :: "string \<Rightarrow> policy_error + string \<times> string" where
  "parseGitHubReleaseAsset rawPath =
     (let clean = path_clean (trim_space rawPath);
          parts = split_on (CHR ''/'') (trim_set ''/'' clean)
      in if length parts < 5 then Inl NotReleaseAsset
         else if parts ! 2 \<noteq> ''releases'' \<or> parts ! 3 \<noteq> ''download'' then Inl NotReleaseAsset
         else let repoSlug = normalizeRepoSlug (parts ! 0 @ ''/'' @ parts ! 1);
                  assetName = trim_space (last parts)
              in if repoSlug = [] \<or> assetName = [] then Inl NotReleaseAsset
                 else Inr (repoSlug, assetName))"

definition validateArtifactSourceForModule :: "string \<Rightarrow> string \<Rightarrow> policy \<Rightarrow> policy_error + unit" where
  "validateArtifactSourceForModule raw moduleName p =
     (case map_of (pol_artifacts p) moduleName of
        None \<Rightarrow> Inl (NoArtifactSource moduleName)
      | Some source \<Rightarrow>
         (case url_parse (trim_space raw) of
            None \<Rightarrow> Inl UrlInvalid
          | Some parsed \<Rightarrow>
             if normalizeArtifactHost (url_hostname parsed) \<noteq> ''github.com'' then Inl NotGitHubPath
             else (case parseGitHubReleaseAsset (u_path parsed) of
                Inl e \<Rightarrow> Inl e
              | Inr (repoSlug, assetName) \<Rightarrow>
                  if repoSlug \<noteq> normalizeRepoSlug (sp_repo_slug source)
                  then Inl (RepoNotForModule repoSlug moduleName)
                  else if repoSlug \<notin> pol_repo_slugs p then Inl (RepoNotAllowed repoSlug)
                  else if \<not> prefix (trim_space (sp_asset_base source) @ ''_linux_'') assetName
                          \<or> \<not> suffix ''_bundle.tar.gz'' assetName
                  then Inl (AssetNotAllowed assetName moduleName)
                  else Inr ())))"

definition validateInstallPolicy :: "policy \<Rightarrow> install_request \<Rightarrow> policy_error + unit" where
  "validateInstallPolicy installPolicy req =
     (let p = clonePolicy installPolicy;
          moduleName = normalizeModuleName (ir_module req)
      in if moduleName \<notin> pol_modules p then Inl (ModuleNotAllowed moduleName)
         else case validateArtifactURL (ir_artifact_url req) (pol_hosts p) of
           Inl e \<Rightarrow> Inl e
         | Inr _ \<Rightarrow> validateArtifactSourceForModule (ir_artifact_url req) moduleName p)"

subsection \<open>Lemmas: names\<close>

lemma trim_set_trim_space_fixed:
  assumes "printable s" "CHR 0x20 \<notin> set s"
  shows "trim_space s = s"
  by (rule trimmed_printable [OF assms(1)]) (use assms(2) hd_in_set last_in_set in metis)

text \<open>On printable names, normalising is lower-casing, then mapping underscores and spaces.\<close>

definition dash_char :: "char \<Rightarrow> char" where
  "dash_char c = (if c = CHR ''_'' \<or> c = CHR '' '' then CHR ''-'' else c)"

lemma normalizeModuleName_alt:
  "normalizeModuleName raw = trim_set ''-/'' (map dash_char (to_lower (trim_space raw)))"
proof -
  have "replace_all '' '' ''-'' (replace_all ''_'' ''-'' s) = map dash_char s" for s
    by (simp add: replace_all_char dash_char_def comp_def)
  then show ?thesis by (simp add: normalizeModuleName_def)
qed

lemma printable_dash: "printable s \<Longrightarrow> printable (map dash_char s)"
  by (induction s) (auto simp: dash_char_def)

lemma lower_dash_lower: "lower_char (dash_char (lower_char c)) = dash_char (lower_char c)"
proof (cases "dash_char (lower_char c) = CHR ''-''")
  case True
  then show ?thesis by (simp add: lower_char_def)
next
  case False
  then have "dash_char (lower_char c) = lower_char c" by (auto simp: dash_char_def)
  then show ?thesis by simp
qed

lemma normalizeModuleName_printable:
  assumes "printable raw"
  shows "printable (normalizeModuleName raw)"
    and "CHR 0x20 \<notin> set (normalizeModuleName raw)"
    and "to_lower (normalizeModuleName raw) = normalizeModuleName raw"
    and "map dash_char (normalizeModuleName raw) = normalizeModuleName raw"
proof -
  let ?l = "to_lower (trim_space raw)"
  have p: "printable (trim_space raw)"
    using assms by (metis printable_subset set_trim_set trim_space_printable)
  then have pl: "printable ?l" by (simp add: to_lower_printable printable_lower)
  let ?m = "map dash_char ?l"
  have sub: "set (normalizeModuleName raw) \<subseteq> set ?m"
    unfolding normalizeModuleName_alt by (rule set_trim_set)
  show pn: "printable (normalizeModuleName raw)"
    by (rule printable_subset [OF sub printable_dash [OF pl]])
  have "CHR 0x20 \<notin> set ?m" by (auto simp: dash_char_def split: if_splits)
  with sub show "CHR 0x20 \<notin> set (normalizeModuleName raw)" by blast
  have low: "\<forall>c \<in> set ?m. lower_char c = c"
    using p by (auto simp: to_lower_printable lower_dash_lower)
  with sub have "\<forall>c \<in> set (normalizeModuleName raw). lower_char c = c" by blast
  then show "to_lower (normalizeModuleName raw) = normalizeModuleName raw"
    using pn by (simp add: to_lower_printable map_idI)
  have "\<forall>c \<in> set ?m. dash_char c = c" by (auto simp: dash_char_def)
  with sub show "map dash_char (normalizeModuleName raw) = normalizeModuleName raw"
    by (metis map_idI subset_iff)
qed

text \<open>
  normalising a module name twice is normalising it once, for every name of printable
  ASCII characters; the journal, the policy and the lock table may therefore each normalise
  on their own and still agree on the key of a module.
\<close>

theorem normalizeModuleName_idem:
  assumes "printable raw"
  shows "normalizeModuleName (normalizeModuleName raw) = normalizeModuleName raw"
proof -
  let ?n = "normalizeModuleName raw"
  have "trim_space ?n = ?n"
    using normalizeModuleName_printable(1,2) [OF assms] by (rule trim_set_trim_space_fixed)
  then have "normalizeModuleName ?n = trim_set ''-/'' ?n"
    by (simp add: normalizeModuleName_alt [of ?n] normalizeModuleName_printable(3,4) [OF assms])
  also have "\<dots> = ?n" by (simp add: normalizeModuleName_alt [of raw])
  finally show ?thesis .
qed

theorem normalizeModuleName_idem_witness:
  "normalizeModuleName (normalizeModuleName '' Aurora_UMS/'') = normalizeModuleName '' Aurora_UMS/''
   \<and> normalizeModuleName '' Aurora_UMS/'' = ''aurora-ums''"
proof
  show "normalizeModuleName (normalizeModuleName '' Aurora_UMS/'')
      = normalizeModuleName '' Aurora_UMS/''"
    by (rule normalizeModuleName_idem) simp
  show "normalizeModuleName '' Aurora_UMS/'' = ''aurora-ums''" by code_simp
qed

text \<open>Names with control characters are not covered: a tab hidden behind a dash survives once.\<close>

lemma normalizeModuleName_not_idem:
  "normalizeModuleName (normalizeModuleName [CHR ''-'', CHR 0x09, CHR ''a''])
     \<noteq> normalizeModuleName [CHR ''-'', CHR 0x09, CHR ''a'']"
  by code_simp

subsection \<open>Lemmas: the policy\<close>

lemma defaultPolicy_artifacts: "pol_artifacts defaultPolicy = defaultArtifactSourcePolicies"
  by code_simp

lemma defaultPolicy_hosts: "pol_hosts defaultPolicy = pol_hosts rawDefaultPolicy"
  by code_simp

lemma defaultPolicy_modules: "pol_modules defaultPolicy = pol_modules rawDefaultPolicy"
  by code_simp

lemma defaultPolicy_slugs:
  "pol_repo_slugs defaultPolicy = set (map (sp_repo_slug \<circ> snd) defaultArtifactSourcePolicies)"
  by code_simp

lemma defaultPolicy_audit: "pol_audit_log_path defaultPolicy = ''/var/lib/aurora-agent/install_audit.jsonl''"
  by code_simp

lemmas defaultPolicy_parts = defaultPolicy_artifacts defaultPolicy_hosts defaultPolicy_modules
  defaultPolicy_slugs defaultPolicy_audit

lemma fill_raw_default: "fillDefaults d defaultPolicy = defaultPolicy"
  by (simp add: fillDefaults_def defaultPolicy_parts rawDefaultPolicy_def
      defaultArtifactSourcePolicies_def)

lemma fold_update_keys:
  "distinct (map fst al) \<Longrightarrow> distinct (map fst (fold (\<lambda>(m, s) al. AList.update m s al) kept al))"
  by (induction kept arbitrary: al) (auto simp: distinct_update)

lemma fold_update_subset:
  "set (fold (\<lambda>(m, s) al. AList.update m s al) kept al) \<subseteq> set al \<union> set kept"
proof (induction kept arbitrary: al)
  case (Cons e kept)
  obtain m s where e: "e = (m, s)" by (cases e)
  have "set (AList.update m s al) \<subseteq> insert (m, s) (set al)"
    by (induction al) auto
  with Cons.IH [of "AList.update m s al"] e show ?case by auto
qed simp

lemma norm_artifact_Some:
  "norm_artifact e = Some (m, s) \<Longrightarrow>
   m \<noteq> [] \<and> sp_repo_slug s \<noteq> [] \<and> sp_asset_base s \<noteq> []"
  by (auto simp: norm_artifact_def Let_def split: prod.splits if_splits)

lemma core_artifacts_ok:
  assumes "(m, s) \<in> set (pol_artifacts (normalizePolicyCore p))"
  shows "m \<noteq> [] \<and> sp_repo_slug s \<noteq> [] \<and> sp_asset_base s \<noteq> []"
proof -
  have "(m, s) \<in> set (List.map_filter norm_artifact (pol_artifacts p))"
    using assms fold_update_subset [of "List.map_filter norm_artifact (pol_artifacts p)" "[]"]
    by (auto simp: normalizePolicyCore_def Let_def)
  then show ?thesis by (auto simp: in_set_map_filter dest: norm_artifact_Some)
qed

text \<open>
  whatever policy is configured, the normalised one names at least one module, host,
  repository and artifact source, has an audit log path, has no empty name, no source with an
  empty repository or asset base, and at most one source per module.
\<close>

theorem normalizePolicy_well_formed:
  "let q = normalizePolicy p in
     pol_modules q \<noteq> {} \<and> [] \<notin> pol_modules q \<and> pol_hosts q \<noteq> {} \<and> [] \<notin> pol_hosts q
     \<and> pol_repo_slugs q \<noteq> {} \<and> pol_artifacts q \<noteq> [] \<and> pol_audit_log_path q \<noteq> []
     \<and> distinct (map fst (pol_artifacts q))
     \<and> ([], s) \<notin> set (pol_artifacts q)
     \<and> (m, \<lparr>sp_repo_slug = [], sp_asset_base = b\<rparr>) \<notin> set (pol_artifacts q)
     \<and> (m, \<lparr>sp_repo_slug = r, sp_asset_base = []\<rparr>) \<notin> set (pol_artifacts q)"
proof -
  have ne: "pol_modules (normalizePolicyCore p) \<inter> {[]} = {}"
    "pol_hosts (normalizePolicyCore p) \<inter> {[]} = {}"
    by (auto simp: normalizePolicyCore_def Let_def)
  have d: "distinct (map fst (pol_artifacts (normalizePolicyCore p)))"
    by (simp add: normalizePolicyCore_def Let_def fold_update_keys)
  show ?thesis
    using ne d core_artifacts_ok [of _ _ p]
    by (fastforce simp: Let_def normalizePolicy_def fillDefaults_def defaultPolicy_parts
        rawDefaultPolicy_def defaultArtifactSourcePolicies_def)
qed

subsection \<open>Lemmas: accepted requests\<close>

lemma validateArtifactURL_ok_iff:
  "validateArtifactURL raw hosts = Inr () \<longleftrightarrow>
     (\<exists>u. url_parse (trim_space raw) = Some u \<and> equal_fold (u_scheme u) ''https''
        \<and> normalizeArtifactHost (url_hostname u) \<noteq> []
        \<and> normalizeArtifactHost (url_hostname u) \<in> hosts)"
  by (auto simp: validateArtifactURL_def Let_def split: option.splits)

lemma validateInstallPolicy_iff:
  "validateInstallPolicy p req = Inr () \<longleftrightarrow>
     normalizeModuleName (ir_module req) \<in> pol_modules p
     \<and> ''github.com'' \<in> pol_hosts p
     \<and> (\<exists>u source asset.
          url_parse (trim_space (ir_artifact_url req)) = Some u
          \<and> equal_fold (u_scheme u) ''https''
          \<and> normalizeArtifactHost (url_hostname u) = ''github.com''
          \<and> map_of (pol_artifacts p) (normalizeModuleName (ir_module req)) = Some source
          \<and> parseGitHubReleaseAsset (u_path u) = Inr (normalizeRepoSlug (sp_repo_slug source), asset)
          \<and> normalizeRepoSlug (sp_repo_slug source) \<in> pol_repo_slugs p
          \<and> prefix (trim_space (sp_asset_base source) @ ''_linux_'') asset
          \<and> suffix ''_bundle.tar.gz'' asset)"
proof -
  have src: "validateArtifactSourceForModule raw m q = Inr () \<longleftrightarrow>
     (\<exists>u source asset. url_parse (trim_space raw) = Some u
          \<and> normalizeArtifactHost (url_hostname u) = ''github.com''
          \<and> map_of (pol_artifacts q) m = Some source
          \<and> parseGitHubReleaseAsset (u_path u) = Inr (normalizeRepoSlug (sp_repo_slug source), asset)
          \<and> normalizeRepoSlug (sp_repo_slug source) \<in> pol_repo_slugs q
          \<and> prefix (trim_space (sp_asset_base source) @ ''_linux_'') asset
          \<and> suffix ''_bundle.tar.gz'' asset)" for raw m q
    by (auto simp: validateArtifactSourceForModule_def split: option.splits sum.splits prod.splits)
  show ?thesis
    unfolding validateInstallPolicy_def Let_def
    by (auto simp: clonePolicy_def src validateArtifactURL_ok_iff check_seq_iff)
qed

text \<open>
  C26: a request passes the install policy exactly when its normalised module is allowed and
  its URL parses, uses https, has the host github.com, which is an allowed host, and names a
  release asset of the very repository configured for that module (itself an allowed
  repository) whose file name is the module's bundle for linux.
\<close>

theorem validateInstallPolicy_ok_iff:
  "validateInstallPolicy p req = Inr () \<longleftrightarrow>
     normalizeModuleName (ir_module req) \<in> pol_modules p
     \<and> ''github.com'' \<in> pol_hosts p
     \<and> (\<exists>u source asset.
          url_parse (trim_space (ir_artifact_url req)) = Some u
          \<and> equal_fold (u_scheme u) ''https''
          \<and> normalizeArtifactHost (url_hostname u) = ''github.com''
          \<and> map_of (pol_artifacts p) (normalizeModuleName (ir_module req)) = Some source
          \<and> parseGitHubReleaseAsset (u_path u) = Inr (normalizeRepoSlug (sp_repo_slug source), asset)
          \<and> normalizeRepoSlug (sp_repo_slug source) \<in> pol_repo_slugs p
          \<and> prefix (trim_space (sp_asset_base source) @ ''_linux_'') asset
          \<and> suffix ''_bundle.tar.gz'' asset)"
  by (rule validateInstallPolicy_iff)

text \<open>
  the asset an accepted path designates is the last of at least five segments of the
  cleaned path, the first two of which are the repository and the next two
  \<^verbatim>\<open>releases/download\<close>; it contains no slash.
\<close>

theorem parseGitHubReleaseAsset_shape:
  assumes "parseGitHubReleaseAsset rawPath = Inr (repoSlug, assetName)"
  shows "\<exists>owner repo mid asset.
           split_on (CHR ''/'') (trim_set ''/'' (path_clean (trim_space rawPath)))
             = [owner, repo, ''releases'', ''download''] @ mid @ [asset]
           \<and> repoSlug = normalizeRepoSlug (owner @ ''/'' @ repo)
           \<and> assetName = trim_space asset \<and> assetName \<noteq> [] \<and> CHR ''/'' \<notin> set asset"
proof -
  let ?ps = "split_on (CHR ''/'') (trim_set ''/'' (path_clean (trim_space rawPath)))"
  have h: "5 \<le> length ?ps" "?ps ! 2 = ''releases''" "?ps ! 3 = ''download''"
    "repoSlug = normalizeRepoSlug (?ps ! 0 @ ''/'' @ ?ps ! 1)"
    "assetName = trim_space (last ?ps)" "assetName \<noteq> []"
    using assms by (auto simp: parseGitHubReleaseAsset_def Let_def not_less split: if_splits)
  have t: "take 4 ?ps = [?ps ! 0, ?ps ! 1, ''releases'', ''download'']"
    using h(1-3) by (simp add: numeral_eq_Suc take_Suc_conv_app_nth)
  have ne: "drop 4 ?ps \<noteq> []" using h(1) by simp
  have "?ps = take 4 ?ps @ butlast (drop 4 ?ps) @ [last ?ps]"
    using append_butlast_last_id [OF ne] h(1) append_take_drop_id [of 4 ?ps]
    by (simp add: last_drop)
  moreover have "CHR ''/'' \<notin> set (last ?ps)"
    by (rule split_on_free [OF last_in_set [OF split_on_ne]])
  ultimately show ?thesis using h(4-6) t by metis
qed

theorem parseGitHubReleaseAsset_shape_witness:
  "\<exists>owner repo mid asset.
     split_on (CHR ''/'') (trim_set ''/'' (path_clean (trim_space ''/o/R/x/../releases/download/v/f'')))
       = [owner, repo, ''releases'', ''download''] @ mid @ [asset]
     \<and> ''o/r'' = normalizeRepoSlug (owner @ ''/'' @ repo)
     \<and> ''f'' = trim_space asset \<and> ''f'' \<noteq> [] \<and> CHR ''/'' \<notin> set asset"
proof (rule parseGitHubReleaseAsset_shape)
  show "parseGitHubReleaseAsset ''/o/R/x/../releases/download/v/f'' = Inr (''o/r'', ''f'')"
    by code_simp
qed

text \<open>
  C39: with the policy the agent configures at start-up (\<^verbatim>\<open>agent.New\<close> passes modules, hosts and
  the audit path, never artifact sources or repositories), only the four built-in modules
  can be installed, each from its own built-in repository, whatever modules and hosts the
  operator lists.
\<close>

theorem agent_policy_builtin_only:
  assumes "validateInstallPolicy
             (normalizePolicy \<lparr>pol_modules = ms, pol_hosts = hs, pol_repo_slugs = {},
                pol_artifacts = [], pol_audit_log_path = path\<rparr>) req = Inr ()"
  shows "\<exists>source u asset.
           (normalizeModuleName (ir_module req), source) \<in> set defaultArtifactSourcePolicies
           \<and> url_parse (trim_space (ir_artifact_url req)) = Some u
           \<and> parseGitHubReleaseAsset (u_path u) = Inr (normalizeRepoSlug (sp_repo_slug source), asset)"
proof -
  let ?p = "normalizePolicy \<lparr>pol_modules = ms, pol_hosts = hs, pol_repo_slugs = {},
                pol_artifacts = [], pol_audit_log_path = path\<rparr>"
  have "pol_artifacts ?p = defaultArtifactSourcePolicies"
    by (simp add: normalizePolicy_def fillDefaults_def normalizePolicyCore_def
        List.map_filter_def defaultPolicy_artifacts)
  with assms [unfolded validateInstallPolicy_iff] show ?thesis
    by (metis map_of_SomeD)
qed

definition sample_install :: install_request where
  "sample_install =
     \<lparr>ir_api_version = [], ir_request_id = ''r1'', ir_module = ''ums'', ir_version = ''v1'',
      ir_artifact_url = ''https://github.com/phucle996/aurora-ums/releases/download/v1/aurora-ums_linux_amd64_bundle.tar.gz'',
      ir_artifact_checksum = ''00'', ir_app_host = ''h'', ir_app_port = 443, ir_env = [], ir_files = []\<rparr>"

theorem agent_policy_builtin_only_witness:
  "\<exists>source u asset.
     (normalizeModuleName ''ums'', source) \<in> set defaultArtifactSourcePolicies
     \<and> url_parse (trim_space (ir_artifact_url sample_install)) = Some u
     \<and> parseGitHubReleaseAsset (u_path u) = Inr (normalizeRepoSlug (sp_repo_slug source), asset)"
proof -
  have "validateInstallPolicy
      (normalizePolicy \<lparr>pol_modules = {}, pol_hosts = {}, pol_repo_slugs = {}, pol_artifacts = [],
         pol_audit_log_path = []\<rparr>) sample_install = Inr ()"
    by code_simp
  from agent_policy_builtin_only [OF this] show ?thesis by (simp add: sample_install_def)
qed

end
