(* ===== verification/Artifact.thy ===== *)
theory Artifact
  imports Rollback Policy
begin

text \<open>
  Release bundles (\<^verbatim>\<open>artifact.go\<close>, \<^verbatim>\<open>artifact_cache.go\<close> in \<^verbatim>\<open>internal/agent/install\<close>): the
  download over HTTP with its redirects, the checksum, the cache and the unpacking.  SHA-256,
  the network and the decoding of gzip and tar are parameters: a function on byte strings, the
  answer to each request, and the entries an archive holds.
\<close>

subsection \<open>Checksums\<close>

definition hex_digit :: "nat \<Rightarrow> char" where
  "hex_digit n = (if n < 10 then char_of (48 + n) else char_of (87 + n))"

definition hex_encode :: "string \<Rightarrow> string" where
  "hex_encode s = concat (map (\<lambda>c. let n = of_char c in [hex_digit (n div 16), hex_digit (n mod 16)]) s)"

definition normalizedChecksumValue :: "string \<Rightarrow> string" where
  "normalizedChecksumValue raw =
     (let v = trim_space raw in
      to_lower (if prefix ''sha256:'' (to_lower v) then trim_space (drop 7 v) else v))"

definition expectedChecksum :: "string \<Rightarrow> string" where
  "expectedChecksum raw =
     (let e = trim_space raw in if prefix ''sha256:'' (to_lower e) then trim_space (drop 7 e) else e)"

definition verifyArtifactChecksum :: "(string \<Rightarrow> string) \<Rightarrow> string \<Rightarrow> string \<Rightarrow> (string, unit) job" where
  "verifyArtifactChecksum sha artifactPath rawExpected =
     (if trim_space rawExpected = [] then act_fail ''artifact checksum is required''
      else let p = segs (trim_space artifactPath) in
           act_bind (wrap ''open artifact failed: '' (os_open p)) (\<lambda>_.
           act_bind (wrap ''hash artifact failed: '' (os_read_file p)) (\<lambda>content.
           if equal_fold (hex_encode (sha content)) (expectedChecksum rawExpected) then act_ret ()
           else act_fail ''artifact checksum mismatch'')))"

subsection \<open>Download\<close>

text \<open>
  What the network makes of a request: no answer, a redirect to another address, or a response
  with its status, its announced length (negative when unknown), its body, and the error that
  ends the body, if any.
\<close>

datatype reply = NetError string | Redirect string | Response int int string "string option"

type_synonym net = "nat \<Rightarrow> string \<Rightarrow> reply"

definition sendRequest :: "net \<Rightarrow> string \<Rightarrow> ('e, reply) job" where
  "sendRequest net u os h =
     (Inr (net (h_tick h) u), h\<lparr>h_urls := h_urls h @ [u], h_tick := Suc (h_tick h)\<rparr>)"

definition urlError :: "string \<Rightarrow> string \<Rightarrow> string" where
  "urlError u e = ''download artifact failed: Get \"'' @ u @ ''\": '' @ e"

text \<open>
  \<^verbatim>\<open>cloned.Do(req)\<close> with the redirect check of \<^verbatim>\<open>downloadArtifact\<close>; \<open>via\<close> counts the
  requests made before this one.
\<close>

function followRedirects ::
    "string set \<Rightarrow> net \<Rightarrow> nat \<Rightarrow> string \<Rightarrow> (string, int \<times> int \<times> string \<times> string option) job" where
  "followRedirects hosts net via u =
     act_bind (sendRequest net u) (\<lambda>r.
       case r of
         NetError e \<Rightarrow> act_fail (urlError u e)
       | Response status len body err \<Rightarrow> act_ret (status, len, body, err)
       | Redirect v \<Rightarrow>
           (case validateArtifactURL v hosts of
              Inl e \<Rightarrow> act_fail (urlError u (policy_error_text e))
            | Inr _ \<Rightarrow>
                if 10 \<le> Suc via then act_fail (urlError u ''stopped after too many redirects'')
                else followRedirects hosts net (Suc via) v))"
  by pat_completeness auto
termination by (relation "measure (\<lambda>(_, _, via, _). 10 - via)") auto

declare followRedirects.simps [simp del]

definition show_int :: "int \<Rightarrow> string" where
  "show_int i = (if i < 0 then CHR ''-'' # show_nat (nat (- i)) else show_nat (nat i))"

definition downloadArtifact ::
    "string set \<Rightarrow> int \<Rightarrow> net \<Rightarrow> string \<Rightarrow> path \<Rightarrow> (string, unit) job" where
  "downloadArtifact hosts maxBytes net artifactURL dstPath =
     (case validateArtifactURL artifactURL hosts of
        Inl e \<Rightarrow> act_fail (policy_error_text e)
      | Inr _ \<Rightarrow>
          act_bind (followRedirects hosts net 0 (trim_space artifactURL)) (\<lambda>(status, len, body, err).
          if status < 200 \<or> 300 \<le> status
          then act_fail (''download artifact failed: unexpected status '' @ show_int status)
          else if 0 < maxBytes \<and> maxBytes < len then act_fail ''artifact is too large''
          else act_bind (wrap ''create artifact file failed: '' (os_create dstPath 0x1B6)) (\<lambda>_.
               let limited = 0 < maxBytes \<and> maxBytes < int (length body);
                   written = (if limited then take (nat maxBytes + 1) body else body)
               in act_bind (wrap ''write artifact file failed: '' (os_fill dstPath written)) (\<lambda>_.
                  if limited then act_fail ''artifact is too large''
                  else case err of
                         Some e \<Rightarrow> act_fail (''write artifact file failed: '' @ e)
                       | None \<Rightarrow> act_ret ()))))"

subsection \<open>The cache\<close>

definition installedArtifactCacheDir :: string where
  "installedArtifactCacheDir = ''/var/lib/aurora-agent/artifact-cache''"

definition artifactCacheMaxBytes :: int where
  "artifactCacheMaxBytes = 2 * 1024 * 1024 * 1024"

definition artifactDownloadMaxBytes :: int where
  "artifactDownloadMaxBytes = 512 * 1024 * 1024"

definition artifactCachePath :: "(string \<Rightarrow> string) \<Rightarrow> string \<Rightarrow> string \<Rightarrow> string + string" where
  "artifactCachePath sha artifactURL checksum =
     (let expected = normalizedChecksumValue checksum;
          base = path_base (trim_space artifactURL);
          baseName = (if base = ''.'' \<or> trim_space base = [] \<or> CHR ''/'' \<in> set base then ''bundle.tar.gz'' else base);
          keyHash = sha (trim_space artifactURL @ ''|'' @ expected)
      in if expected = [] then Inl ''artifact checksum is required''
         else Inr (path_join [installedArtifactCacheDir, hex_encode (take 8 keyHash) @ ''-'' @ baseName]))"

record cached_file =
  cf_path :: path
  cf_size :: int

text \<open>
  \<^verbatim>\<open>sort.Slice\<close> orders the files by their times, which the model of the tree leaves out:
  \<open>order\<close> is any rearrangement.
\<close>

fun removeOldest :: "int \<Rightarrow> int \<Rightarrow> cached_file list \<Rightarrow> (string, unit) job" where
  "removeOldest maxBytes totalSize [] = act_ret ()"
| "removeOldest maxBytes totalSize (f # fs) =
     (if totalSize \<le> maxBytes then act_ret ()
      else act_bind (act_try (os_remove (cf_path f))) (\<lambda>r.
             removeOldest maxBytes
               (case r of
                  Inl e \<Rightarrow> if e \<noteq> Not_exist then totalSize else totalSize - cf_size f
                | Inr _ \<Rightarrow> totalSize - cf_size f) fs))"

fun node_size :: "node \<Rightarrow> int" where
  "node_size (Reg c _) = int (length c)"
| "node_size (Dir _) = 4096"
| "node_size Special = 0"

definition cacheFiles :: "(path \<times> node) list \<Rightarrow> cached_file list" where
  "cacheFiles entries =
     map (\<lambda>(q, n). \<lparr>cf_path = q, cf_size = node_size n\<rparr>) (filter (\<lambda>(q, n). \<not> is_dir (Some n)) entries)"

definition pruneArtifactCache ::
    "(cached_file list \<Rightarrow> cached_file list) \<Rightarrow> int \<Rightarrow> string \<Rightarrow> (string, unit) job" where
  "pruneArtifactCache order maxBytes dir =
     (if maxBytes \<le> 0 then act_ret ()
      else act_bind (act_try (os_read_dir (segs dir))) (\<lambda>r.
        case r of
          Inl e \<Rightarrow> if e = Not_exist then act_ret () else act_fail (''read artifact cache dir failed: '' @ os_text e)
        | Inr entries \<Rightarrow>
            (let files = cacheFiles entries; totalSize = sum_list (map cf_size files)
             in if totalSize \<le> maxBytes then act_ret ()
                else removeOldest maxBytes totalSize (order files))))"

text \<open>What the engine is built with: its digest, network and allowed hosts, and the sort.\<close>

record engine =
  en_sha :: "string \<Rightarrow> string"
  en_net :: net
  en_order :: "cached_file list \<Rightarrow> cached_file list"

definition storeArtifact ::
    "engine \<Rightarrow> string set \<Rightarrow> string \<Rightarrow> string \<Rightarrow> string \<Rightarrow> path \<Rightarrow> (string, string \<times> bool) job" where
  "storeArtifact e hosts artifactURL checksum cachePath tmpPath =
     act_finally
       (act_bind (downloadArtifact hosts artifactDownloadMaxBytes (en_net e) artifactURL tmpPath) (\<lambda>_.
        act_bind (verifyArtifactChecksum (en_sha e) (path_text tmpPath) checksum) (\<lambda>_.
        act_bind (wrap ''persist artifact cache failed: '' (os_rename tmpPath (segs cachePath))) (\<lambda>_.
        act_bind (pruneArtifactCache (en_order e) artifactCacheMaxBytes installedArtifactCacheDir) (\<lambda>_.
        act_ret (cachePath, False))))))
       (os_remove tmpPath)"

definition fetchArtifact ::
    "engine \<Rightarrow> string set \<Rightarrow> string \<Rightarrow> string \<Rightarrow> string \<Rightarrow> (string, string \<times> bool) job" where
  "fetchArtifact e hosts artifactURL checksum cachePath os =
     act_bind
       (wrap ''create artifact cache temp file failed: ''
         (os_temp (Reg [] (masked os 0x180)) (segs installedArtifactCacheDir) ''download-'' ''.tmp''))
       (storeArtifact e hosts artifactURL checksum cachePath) os"

definition ensureArtifactAvailable ::
    "engine \<Rightarrow> string set \<Rightarrow> string \<Rightarrow> string \<Rightarrow> (string, string \<times> bool) job" where
  "ensureArtifactAvailable e hosts artifactURL checksum =
     (case artifactCachePath (en_sha e) artifactURL checksum of
        Inl err \<Rightarrow> act_fail err
      | Inr cachePath \<Rightarrow>
          act_bind (wrap ''create artifact cache dir failed: '' (os_mkdir_all (segs installedArtifactCacheDir) 0x1ED)) (\<lambda>_.
          act_bind (act_try (os_stat (segs cachePath))) (\<lambda>st.
          case st of
            Inl _ \<Rightarrow> fetchArtifact e hosts artifactURL checksum cachePath
          | Inr _ \<Rightarrow>
              act_bind (act_try (verifyArtifactChecksum (en_sha e) cachePath checksum)) (\<lambda>ok.
              case ok of
                Inr _ \<Rightarrow> act_ret (cachePath, True)
              | Inl _ \<Rightarrow>
                  act_bind (act_try (os_remove (segs cachePath))) (\<lambda>_.
                  fetchArtifact e hosts artifactURL checksum cachePath)))))"

subsection \<open>Unpacking\<close>

datatype tar_type = TypeDir | TypeReg | TypeOther

record tar_entry =
  te_name :: string
  te_type :: tar_type
  te_mode :: int
  te_data :: string
  te_error :: "string option"

text \<open>
  What the decoders make of a file: not a gzip stream, or the entries up to the end of the
  archive or to the error that stops the reading.
\<close>

type_synonym untar = "string \<Rightarrow> string + tar_entry list \<times> string option"

definition escapes :: "string \<Rightarrow> string \<Rightarrow> bool" where
  "escapes dstDir targetPath \<longleftrightarrow>
     \<not> prefix (path_clean dstDir @ ''/'') targetPath \<and> path_clean targetPath \<noteq> path_clean dstDir"

definition unpackFile :: "path \<Rightarrow> tar_entry \<Rightarrow> (string, unit) job" where
  "unpackFile target t =
     act_bind (wrap ''create parent dir failed: '' (os_mkdir_all (butlast target) 0x1ED)) (\<lambda>_.
     act_bind (wrap ''create archive file failed: '' (os_create target (word_of_int (te_mode t)))) (\<lambda>_.
     act_bind (wrap ''write archive file failed: '' (os_fill target (te_data t))) (\<lambda>_.
     case te_error t of
       Some e \<Rightarrow> act_fail (''write archive file failed: '' @ e)
     | None \<Rightarrow> act_ret ())))"

definition unpackEntry :: "string \<Rightarrow> tar_entry \<Rightarrow> (string, unit) job" where
  "unpackEntry dstDir t =
     (let name = path_clean (trim_space (te_name t)); targetPath = path_join [dstDir, name]
      in if name = ''.'' \<or> name = [] then act_ret ()
         else if escapes dstDir targetPath
         then act_fail (''archive entry escapes destination: '' @ te_name t)
         else case te_type t of
                TypeDir \<Rightarrow> wrap ''create dir from archive failed: ''
                             (os_mkdir_all (segs targetPath) (word_of_int (te_mode t)))
              | TypeReg \<Rightarrow> unpackFile (segs targetPath) t
              | TypeOther \<Rightarrow> act_ret ())"

definition unpackTarGz :: "untar \<Rightarrow> string \<Rightarrow> string \<Rightarrow> (string, unit) job" where
  "unpackTarGz untar archivePath dstDir =
     act_bind (wrap ''open artifact archive failed: '' (os_read_file (segs (trim_space archivePath)))) (\<lambda>content.
     case untar content of
       Inl e \<Rightarrow> act_fail (''open gzip archive failed: '' @ e)
     | Inr (entries, end_error) \<Rightarrow>
         act_bind (act_each (unpackEntry dstDir) entries) (\<lambda>_.
         case end_error of
           Some e \<Rightarrow> act_fail (''read tar archive failed: '' @ e)
         | None \<Rightarrow> act_ret ()))"

subsection \<open>Jobs that leave a record of the host alone\<close>

context fs_blind
begin

lemma moves_verify: "moves R os (verifyArtifactChecksum sha p e)"
  unfolding verifyArtifactChecksum_def Let_def by (auto intro!: job_rules)

lemma moves_prune: "moves R os (pruneArtifactCache order mx dir)"
proof -
  have r: "moves R os (removeOldest mx t fs)" for t fs
    by (induction mx t fs rule: removeOldest.induct) (auto intro!: job_rules)
  show ?thesis unfolding pruneArtifactCache_def Let_def
    by (auto intro!: job_rules r split: sum.splits)
qed

lemma moves_unpack: "moves R os (unpackTarGz untar a d)"
proof -
  have "moves R os (unpackFile p t)" for p t
    unfolding unpackFile_def by (auto intro!: job_rules split: option.splits)
  then have "moves R os (unpackEntry d t)" for t
    unfolding unpackEntry_def Let_def by (auto intro!: job_rules split: tar_type.splits)
  then show ?thesis
    unfolding unpackTarGz_def by (auto intro!: job_rules split: sum.splits option.splits)
qed

end

subsection \<open>Only allowed hosts are asked\<close>

text \<open>A relation that also allows the requests to allowed hosts holds over a whole download.\<close>

lemma validateArtifactURL_trim [simp]: "validateArtifactURL (trim_space u) hosts = validateArtifactURL u hosts"
  by (simp add: validateArtifactURL_def)

locale download_order = fs_blind R for R :: "host \<Rightarrow> host \<Rightarrow> bool" +
  fixes hosts :: "string set"
  assumes R_ask: "validateArtifactURL u hosts = Inr () \<Longrightarrow> R h (h\<lparr>h_urls := h_urls h @ [u], h_tick := k\<rparr>)"
begin

lemma moves_request: "validateArtifactURL u hosts = Inr () \<Longrightarrow> moves R os (sendRequest net u)"
  by (simp add: moves_def sendRequest_def R_ask)

lemma moves_follow:
  "validateArtifactURL u hosts = Inr () \<Longrightarrow> moves R os (followRedirects hosts net via u)"
proof (induction via arbitrary: u rule: measure_induct_rule [where f = "\<lambda>via. 10 - via"])
  case (less via)
  show ?case
    by (subst followRedirects.simps, rule moves_bind [OF moves_request [OF less(2)]])
      (auto split: reply.splits sum.splits intro!: moves_fail moves_ret less(1))
qed

lemma moves_download: "moves R os (downloadArtifact hosts mx net u dst)"
proof (cases "validateArtifactURL u hosts")
  case (Inl e)
  then show ?thesis by (simp add: downloadArtifact_def moves_fail)
next
  case (Inr x)
  then have "moves R os (followRedirects hosts net 0 (trim_space u))"
    by (intro moves_follow) simp
  then show ?thesis
    unfolding downloadArtifact_def Inr Let_def
    by (auto intro!: moves_bind job_rules split: option.splits)
qed

lemma moves_fetch: "moves R os (fetchArtifact e hosts u c p)"
proof -
  have "moves R os (storeArtifact e hosts u c p t)" for t
    unfolding storeArtifact_def by (intro job_rules moves_download moves_verify moves_prune)
  then have "moves R os (act_bind
      (wrap m (os_temp n d x y)) (storeArtifact e hosts u c p))" for m n d x y
    by (intro job_rules)
  then show ?thesis by (simp add: moves_def fetchArtifact_def)
qed

lemma moves_ensure: "moves R os (ensureArtifactAvailable e hosts u c)"
  unfolding ensureArtifactAvailable_def
  by (auto intro!: job_rules moves_verify moves_fetch split: sum.splits)

end

definition asks_only :: "string set \<Rightarrow> host \<Rightarrow> host \<Rightarrow> bool" where
  "asks_only hosts h h' \<longleftrightarrow>
     (\<exists>us. h_urls h' = h_urls h @ us \<and> (\<forall>u \<in> set us. validateArtifactURL u hosts = Inr ()))"

interpretation asks: download_order "asks_only hosts" hosts for hosts
proof
  show "asks_only hosts h h" for h by (simp add: asks_only_def)
  show "asks_only hosts h h1 \<Longrightarrow> asks_only hosts h1 h2 \<Longrightarrow> asks_only hosts h h2" for h h1 h2
    unfolding asks_only_def by (metis Un_iff append.assoc set_append)
qed (auto simp: asks_only_def)

subsection \<open>The cache holds what was asked for\<close>

definition only_deletes :: "host \<Rightarrow> host \<Rightarrow> bool" where
  "only_deletes h h' \<longleftrightarrow> (\<forall>q. fs_get (h_fs h') q = None \<or> fs_get (h_fs h') q = fs_get (h_fs h) q)"

interpretation dels: host_order only_deletes
proof
  show "only_deletes h h" for h by (simp add: only_deletes_def)
  show "only_deletes h h1 \<Longrightarrow> only_deletes h1 h2 \<Longrightarrow> only_deletes h h2" for h h1 h2
    unfolding only_deletes_def by metis
qed

lemma dels_os:
  "moves only_deletes os (os_remove p)" "moves only_deletes os (os_read_dir p)"
  "moves only_deletes os (os_stat p)" "moves only_deletes os (os_read_file p)"
proof -
  show "moves only_deletes os (os_remove p)"
    unfolding os_remove_def
    by (rule moves_call)
      (auto simp: only_deletes_def fs_get_def fs_del_def map_of_filter_keys [of "\<lambda>k. \<not> prefix p k"] split: sum.splits)
qed (auto simp: os_read_dir_def os_stat_def os_read_file_def intro!: moves_call
    simp: only_deletes_def split: sum.splits node.splits)

lemma dels_prune: "moves only_deletes os (pruneArtifactCache order mx dir)"
proof -
  have r: "moves only_deletes os (removeOldest mx t fs)" for t fs
    by (induction mx t fs rule: removeOldest.induct) (auto intro!: dels.moves_rules dels_os)
  show ?thesis unfolding pruneArtifactCache_def Let_def
    by (auto intro!: dels.moves_rules dels_os r split: sum.splits)
qed

lemma verify_ok:
  assumes "verifyArtifactChecksum sha p e os h = (Inr u, h')"
  shows "\<exists>c m. fs_get (h_fs h) (segs (trim_space p)) = Some (Reg c m) \<and>
      equal_fold (hex_encode (sha c)) (expectedChecksum e)" "h_fs h' = h_fs h"
  using assms
  by (auto simp: verifyArtifactChecksum_def Let_def job dest!: os_open_ok os_read_file_ok split: if_splits)

definition verified :: "(string \<Rightarrow> string) \<Rightarrow> string \<Rightarrow> node option \<Rightarrow> bool" where
  "verified sha checksum n \<longleftrightarrow>
     (case n of
        Some (Reg c m) \<Rightarrow> equal_fold (hex_encode (sha c)) (expectedChecksum checksum)
      | Some _ \<Rightarrow> False
      | None \<Rightarrow> True)"

lemma verified_deletes: "verified sha e (fs_get (h_fs h) p) \<Longrightarrow> only_deletes h h' \<Longrightarrow> verified sha e (fs_get (h_fs h') p)"
  by (auto simp: verified_def only_deletes_def split: option.splits) (metis option.distinct(1) option.inject)+

definition cacheDir :: path where
  "cacheDir = [''var'', ''lib'', ''aurora-agent'', ''artifact-cache'']"

lemma segs_cacheDir: "segs installedArtifactCacheDir = cacheDir"
  by code_simp

lemma temp_path:
  assumes "p = cacheDir @ [''download-'' @ show_nat k @ ''.tmp'']"
  shows "segs (trim_space (path_text p)) = p"
proof -
  have d: "\<forall>c \<in> set (show_nat k). 48 \<le> (of_char c :: nat) \<and> of_char c \<le> (57 :: nat)" by (rule digits_show_nat)
  have pr: "printable (path_text p)"
    using d by (force simp: assms cacheDir_def path_text_def printable_def)
  have "hd (path_text p) \<noteq> CHR 0x20" "last (path_text p) \<noteq> CHR 0x20"
    by (simp_all add: assms cacheDir_def path_text_def)
  then have "trim_space (path_text p) = path_text p" using trimmed_printable [OF pr] by blast
  moreover have "\<forall>s \<in> set p. proper_seg s \<and> CHR ''/'' \<notin> set s"
    using d by (auto simp: assms cacheDir_def proper_seg_def)
  ultimately show ?thesis using segs_path_text by simp
qed

lemma store_verified:
  assumes "storeArtifact e hosts u checksum p t os h = (Inr (q, cached), h')"
    and "segs (trim_space (path_text t)) = t"
  shows "q = p \<and> verified (en_sha e) checksum (fs_get (h_fs h') (segs p))"
proof -
  obtain h1 h2 h3 h4 where s:
    "downloadArtifact hosts artifactDownloadMaxBytes (en_net e) u t os h = (Inr (), h1)"
    "verifyArtifactChecksum (en_sha e) (path_text t) checksum os h1 = (Inr (), h2)"
    "os_rename t (segs p) os h2 = (Inr (), h3)"
    "pruneArtifactCache (en_order e) artifactCacheMaxBytes installedArtifactCacheDir os h3 = (Inr (), h4)"
    "q = p" "h' = snd (os_remove t os h4)"
    using assms(1) by (auto simp: storeArtifact_def job)
  obtain c m where c: "fs_get (h_fs h1) t = Some (Reg c m)" "equal_fold (hex_encode (en_sha e c)) (expectedChecksum checksum)"
    and h2: "h_fs h2 = h_fs h1"
    using verify_ok [OF s(2)] assms(2) by auto
  have "fs_get (h_fs h3) (segs p) = Some (Reg c m)"
    using os_rename_ok [OF s(3)] c(1) h2 by simp
  then have v: "verified (en_sha e) checksum (fs_get (h_fs h3) (segs p))" using c(2) by (simp add: verified_def)
  have "only_deletes h3 h4" using dels.movesD [OF dels_prune s(4)] .
  moreover have "only_deletes h4 h'" using dels_os(1) [of os t] s(6) by (simp add: moves_def)
  ultimately show ?thesis using verified_deletes v s(5) by blast
qed

lemma fetch_verified:
  assumes "fetchArtifact e hosts u checksum p os h = (Inr (q, cached), h')"
  shows "q = p \<and> verified (en_sha e) checksum (fs_get (h_fs h') (segs p))"
proof -
  obtain t h1 where t: "os_temp (Reg [] (masked os 0x180)) cacheDir ''download-'' ''.tmp'' os h = (Inr t, h1)"
    "storeArtifact e hosts u checksum p t os h1 = (Inr (q, cached), h')"
    using assms by (auto simp: fetchArtifact_def segs_cacheDir job)
  then show ?thesis using store_verified [OF t(2)] temp_path os_temp_ok [OF t(1)] by blast
qed

lemma ensure_verified:
  assumes "ensureArtifactAvailable e hosts u checksum os h = (Inr (p, cached), h')" "trim_space p = p"
  shows "verified (en_sha e) checksum (fs_get (h_fs h') (segs p))"
proof -
  obtain c where "artifactCachePath (en_sha e) u checksum = Inr c"
    using assms(1) by (auto simp: ensureArtifactAvailable_def job split: sum.splits)
  then consider h1 where "fetchArtifact e hosts u checksum c os h1 = (Inr (p, cached), h')"
    | h1 where "verifyArtifactChecksum (en_sha e) p checksum os h1 = (Inr (), h')"
    using assms(1)
    by (auto simp: ensureArtifactAvailable_def job split: sum.splits) (metis sumE old.unit.exhaust)+
  then show ?thesis
  proof cases
    case 1
    then show ?thesis using fetch_verified by blast
  next
    case 2
    then show ?thesis using verify_ok [OF 2] assms(2) by (auto simp: verified_def)
  qed
qed

text \<open>
  C9: Whatever the network answers, redirects included, every request made for a bundle goes to
  an https address whose host is on the list of allowed hosts.
\<close>

theorem artifact_requests_allowed:
  "\<exists>us. h_urls (snd (ensureArtifactAvailable e hosts artifactURL checksum os h)) = h_urls h @ us \<and>
     list_all (\<lambda>u. \<exists>parsed. url_parse (trim_space u) = Some parsed \<and> equal_fold (u_scheme parsed) ''https'' \<and>
       normalizeArtifactHost (url_hostname parsed) \<in> hosts) us"
proof -
  have v: "\<exists>parsed. url_parse (trim_space u) = Some parsed \<and> equal_fold (u_scheme parsed) ''https'' \<and>
       normalizeArtifactHost (url_hostname parsed) \<in> hosts"
    if "validateArtifactURL u hosts = Inr ()" for u
    using that by (auto simp: validateArtifactURL_def Let_def split: option.splits if_splits)
  show ?thesis
    using asks.moves_ensure [of hosts os e artifactURL checksum] v
    unfolding moves_def asks_only_def list_all_iff by blast
qed

text \<open>
  C8: When the bundle is available, from the cache or after a download, the file at the path
  that is returned, if it is still there, is a regular file whose SHA-256 is the expected
  checksum, whatever the network, the clock and the failing calls did on the way.
\<close>

theorem ensureArtifactAvailable_verified:
  assumes "ensureArtifactAvailable e hosts artifactURL checksum os h = (Inr (p, cached), h')"
    and "trim_space p = p"
  shows "verified (en_sha e) checksum (fs_get (h_fs h') (segs p))"
  using ensure_verified assms .

definition sample_engine :: engine where
  "sample_engine =
     \<lparr>en_sha = \<lambda>s. s, en_net = \<lambda>n u. Response 200 2 ''ab'' None, en_order = \<lambda>fs. fs\<rparr>"

definition sample_cached :: string where
  "sample_cached = ''/var/lib/aurora-agent/artifact-cache/68747470733a2f2f-b.tar.gz''"

lemma sample_fetch:
  "fst (ensureArtifactAvailable sample_engine {''h''} ''https://h/b.tar.gz'' ''sha256:6162'' sample_os (host_with []))
     = Inr (sample_cached, False)"
  "fs_get (h_fs (snd (ensureArtifactAvailable sample_engine {''h''} ''https://h/b.tar.gz'' ''sha256:6162'' sample_os (host_with []))))
     (segs sample_cached) = Some (Reg ''ab'' 0x180)"
  "trim_space sample_cached = sample_cached"
  by code_simp+

theorem ensureArtifactAvailable_verified_witness:
  "\<exists>h'. ensureArtifactAvailable sample_engine {''h''} ''https://h/b.tar.gz'' ''sha256:6162'' sample_os (host_with [])
       = (Inr (sample_cached, False), h') \<and>
     fs_get (h_fs h') (segs sample_cached) = Some (Reg ''ab'' 0x180) \<and>
     verified (\<lambda>s. s) ''sha256:6162'' (fs_get (h_fs h') (segs sample_cached))"
proof -
  obtain h' where h': "ensureArtifactAvailable sample_engine {''h''} ''https://h/b.tar.gz'' ''sha256:6162'' sample_os (host_with [])
       = (Inr (sample_cached, False), h')"
    using sample_fetch(1) by (metis prod.collapse)
  then show ?thesis
    using sample_fetch(2) ensureArtifactAvailable_verified [OF h' sample_fetch(3)] by (auto simp: sample_engine_def)
qed

subsection \<open>Unpacking stays below its directory\<close>

definition dirs_to :: "fs \<Rightarrow> path \<Rightarrow> bool" where
  "dirs_to fs d \<longleftrightarrow> (\<forall>q. prefix q d \<longrightarrow> is_dir (fs_get fs q))"

text \<open>The tree changes below \<open>d\<close> only, and \<open>d\<close> stays a directory.\<close>

definition inside :: "path \<Rightarrow> fs \<Rightarrow> fs \<Rightarrow> bool" where
  "inside d fs fs' \<longleftrightarrow> (dirs_to fs d \<longrightarrow>
     is_dir (fs_get fs' d) \<and> (\<forall>q. \<not> prefix d q \<longrightarrow> fs_get fs' q = fs_get fs q))"

definition confined :: "path \<Rightarrow> host \<Rightarrow> host \<Rightarrow> bool" where
  "confined d h h' \<longleftrightarrow> h_cmds h' = h_cmds h \<and> inside d (h_fs h) (h_fs h')"

lemma inside_refl [simp]: "inside d fs fs"
  by (simp add: inside_def dirs_to_def)

lemma inside_dirs: "inside d fs fs' \<Longrightarrow> dirs_to fs d \<Longrightarrow> dirs_to fs' d"
  unfolding inside_def dirs_to_def by (metis prefix_order.antisym)

lemma inside_trans: "inside d fs fs1 \<Longrightarrow> inside d fs1 fs2 \<Longrightarrow> inside d fs fs2"
  using inside_dirs [of d fs fs1] by (simp add: inside_def)

interpretation conf: host_order "confined d" for d
  by unfold_locales (auto simp: confined_def intro: inside_trans)

lemma mkdirs_adds:
  "fs_get (snd (mkdirs m acc ss fs)) q = fs_get fs q \<or>
   fs_get fs q = None \<and> prefix q (acc @ ss) \<and> is_dir (fs_get (snd (mkdirs m acc ss fs)) q)"
proof (induction m acc ss fs rule: mkdirs.induct)
  case (2 m acc s ss fs)
  show ?case
  proof (cases "fs_get fs (acc @ [s])")
    case None
    then show ?thesis using 2(1) [OF refl None] by (auto simp: Let_def fs_get_put split: if_splits)
  next
    case (Some n)
    then show ?thesis using 2(2) [OF refl Some] by (cases n) (auto simp: Let_def)
  qed
qed simp

lemma inside_mkdirs: "prefix d p \<Longrightarrow> prefix p' p \<Longrightarrow> inside d fs (snd (mkdirs m [] p' fs))"
proof -
  assume p: "prefix d p" "prefix p' p"
  have same: "fs_get (snd (mkdirs m [] p' fs)) q = fs_get fs q"
    if dirs: "dirs_to fs d" and q: "prefix q d \<or> \<not> prefix d q" for q
  proof -
    have "fs_get fs q \<noteq> None" if "prefix q p'"
      using that p dirs q unfolding dirs_to_def
      by (metis is_dir_simps(1) prefix_order.trans prefix_same_cases)
    then show ?thesis using mkdirs_adds [of m "[]" p' fs q] by auto
  qed
  show ?thesis unfolding inside_def using same by (auto simp: dirs_to_def)
qed

lemma inside_put: "prefix d p \<Longrightarrow> inside d fs (snd (put_file p c m fs))"
  unfolding put_file_def inside_def
  by (auto split: sum.splits node.splits option.splits simp: fs_get_put dirs_to_def)

lemma inside_fill: "prefix d p \<Longrightarrow> inside d fs (fill_file p c fs)"
  unfolding fill_file_def inside_def
  by (cases "p = []") (auto split: node.splits option.splits simp: fs_get_put dirs_to_def)

lemma conf_call:
  "(\<And>fs. inside d fs (snd (w fs))) \<Longrightarrow> (\<And>n fs. inside d fs (p n fs)) \<Longrightarrow> moves (confined d) os (os_call w p)"
  by (rule moves_call) (simp_all add: confined_def)

lemma conf_os:
  "prefix d p \<Longrightarrow> prefix p' p \<Longrightarrow> moves (confined d) os (os_mkdir_all p' m)"
  "prefix d p \<Longrightarrow> moves (confined d) os (os_create p m)"
  "prefix d p \<Longrightarrow> moves (confined d) os (os_fill p c)"
  "moves (confined d) os (os_read_file p)"
proof -
  show "moves (confined d) os (os_mkdir_all p' m)" if p: "prefix d p" "prefix p' p"
  proof -
    have "prefix (take n p') p" for n using take_is_prefix p(2) by (metis prefix_order.trans)
    then show ?thesis
      using conf_call [of d "mkdirs (dir_masked os m) [] p'" "\<lambda>n fs. snd (mkdirs (dir_masked os m) [] (take n p') fs)"]
        inside_mkdirs [OF p(1)] p(2) by (simp add: moves_def os_mkdir_all_def)
  qed
  show "moves (confined d) os (os_create p m)" if p: "prefix d p"
    using conf_call [of d "put_file p [] (masked os m)" "\<lambda>_ fs. fs"] inside_put [OF p]
    by (simp add: moves_def os_create_def)
  show "moves (confined d) os (os_fill p c)" if p: "prefix d p"
    unfolding os_fill_def by (rule conf_call) (simp_all add: inside_fill p)
  show "moves (confined d) os (os_read_file p)"
    unfolding os_read_file_def by (rule conf_call) simp_all
qed

text \<open>The textual check of the target is a check of its path.\<close>

lemma path_clean_rooted: "prefix ''/'' p \<Longrightarrow> path_clean p = CHR ''/'' # join ''/'' (segs p)"
  by (simp add: path_clean_def segs_def Let_def)

lemma set_clean_segs: "set (clean_segs r acc ss) \<subseteq> set acc \<union> set ss"
proof (induction ss arbitrary: acc)
  case (Cons seg ss)
  have "set (tl acc) \<subseteq> set acc" by (rule set_tl_subset)
  then show ?case using Cons.IH [of acc] Cons.IH [of "tl acc"] Cons.IH [of "seg # acc"] by auto
qed simp

lemma segs_ok: "\<forall>s \<in> set (segs p). proper_seg s \<and> CHR ''/'' \<notin> set s"
  using clean_segs_rooted [of "[]" "split_on (CHR ''/'') p"]
    set_clean_segs [of True "[]" "split_on (CHR ''/'') p"] split_on_free
  by (fastforce simp: segs_def)

lemma segs_clean: "prefix ''/'' p \<Longrightarrow> segs (path_clean p) = segs p"
proof (cases "segs p = []")
  case False
  assume "prefix ''/'' p"
  then have "split_on (CHR ''/'') (path_clean p) = [] # segs p"
    using split_on_join [OF False, of "CHR ''/''"] segs_ok [of p] by (simp add: path_clean_rooted)
  then show ?thesis using clean_segs_proper [of "segs p" True "[]"] segs_ok [of p]
    by (simp add: segs_def [of "path_clean p"])
qed (simp add: path_clean_rooted segs_def)

lemma prefix_join:
  "\<forall>s \<in> set d. CHR ''/'' \<notin> set s \<Longrightarrow> \<forall>s \<in> set p. CHR ''/'' \<notin> set s \<Longrightarrow> d \<noteq> [] \<Longrightarrow>
   prefix (join ''/'' d @ ''/'') (join ''/'' p) \<Longrightarrow> prefix d p"
proof -
  assume d: "\<forall>s \<in> set d. CHR ''/'' \<notin> set s" and p: "\<forall>s \<in> set p. CHR ''/'' \<notin> set s" and ne: "d \<noteq> []"
    and pre: "prefix (join ''/'' d @ ''/'') (join ''/'' p)"
  obtain r where r: "join ''/'' p = join ''/'' d @ CHR ''/'' # r" using pre by (auto simp: prefix_def)
  have s: "split_on (CHR ''/'') (join ''/'' d @ CHR ''/'' # r) = d @ split_on (CHR ''/'') r"
    using d ne by (induction "''/''" d rule: join.induct) (auto simp: split_on_append)
  have "p \<noteq> []" using r by auto
  then have "p = d @ split_on (CHR ''/'') r" using split_on_join [of p "CHR ''/''"] p s r by simp
  then show ?thesis by simp
qed

lemma not_escapes:
  assumes "prefix ''/'' dstDir" "prefix ''/'' t" "path_clean t = t" "\<not> escapes dstDir t"
  shows "prefix (segs dstDir) (segs t)"
proof (cases "path_clean t = path_clean dstDir \<or> segs dstDir = []")
  case True
  then show ?thesis using segs_clean assms(1,2) by (metis Nil_prefix prefix_order.refl)
next
  case False
  then have "prefix (CHR ''/'' # join ''/'' (segs dstDir) @ ''/'') (CHR ''/'' # join ''/'' (segs t))"
    using assms by (simp add: escapes_def path_clean_rooted)
  then show ?thesis using prefix_join [of "segs dstDir" "segs t"] segs_ok False by simp
qed

lemma target_path:
  assumes "prefix ''/'' dstDir"
  shows "prefix ''/'' (path_join [dstDir, name])" "path_clean (path_join [dstDir, name]) = path_join [dstDir, name]"
proof -
  let ?p = "dstDir @ ''/'' @ name"
  have r: "prefix ''/'' ?p" using assms by (auto simp: prefix_def)
  have j: "path_join [dstDir, name] = path_clean ?p" using assms by (auto simp: path_join_def)
  show "prefix ''/'' (path_join [dstDir, name])" using r by (simp add: j path_clean_rooted)
  then show "path_clean (path_join [dstDir, name]) = path_join [dstDir, name]"
    using segs_clean [OF r] path_clean_rooted [of "path_clean ?p"] path_clean_rooted [OF r] by (simp only: j)
qed

lemma conf_unpackEntry:
  assumes "prefix ''/'' dstDir"
  shows "moves (confined (segs dstDir)) os (unpackEntry dstDir t)"
proof -
  let ?t = "path_join [dstDir, path_clean (trim_space (te_name t))]"
  show ?thesis
  proof (cases "escapes dstDir ?t")
    case True
    then show ?thesis by (simp add: unpackEntry_def Let_def conf.moves_ret conf.moves_fail)
  next
    case False
    then have d: "prefix (segs dstDir) (segs ?t)" using not_escapes target_path assms by blast
    then have "moves (confined (segs dstDir)) os (unpackFile (segs ?t) t)"
      unfolding unpackFile_def
      by (auto intro!: conf.moves_rules conf_os(2,3) conf_os(1) [OF _ prefixeq_butlast] split: option.splits)
    then show ?thesis
      using False d by (auto simp: unpackEntry_def Let_def intro!: conf.moves_rules conf_os(1) [OF d] split: tar_type.splits)
  qed
qed

lemma conf_unpack:
  assumes "prefix ''/'' dstDir"
  shows "moves (confined (segs dstDir)) os (unpackTarGz untar archivePath dstDir)"
  unfolding unpackTarGz_def
  by (auto intro!: conf.moves_rules conf_os(4) conf_unpackEntry assms split: sum.splits option.splits prod.splits)

text \<open>
  C7: Whatever entries an archive holds, with dot-dot names, absolute names or none, and however
  the unpacking ends, nothing outside the destination directory is created, changed or removed.
\<close>

theorem unpackTarGz_confined:
  assumes "prefix ''/'' dstDir" and "dirs_to (h_fs h) (segs dstDir)"
    and "unpackTarGz untar archivePath dstDir os h = (r, h')"
  shows "dirs_to (h_fs h') (segs dstDir) \<and>
    (\<forall>q. \<not> prefix (segs dstDir) q \<longrightarrow> fs_get (h_fs h') q = fs_get (h_fs h) q)"
proof -
  have c: "confined (segs dstDir) h h'" using conf.movesD [OF conf_unpack [OF assms(1)] assms(3)] .
  show ?thesis using c assms(2) inside_dirs by (auto simp: confined_def inside_def)
qed

definition sample_archive :: "tar_entry list" where
  "sample_archive =
     [\<lparr>te_name = ''bin/x'', te_type = TypeReg, te_mode = 0x1ED, te_data = ''y'', te_error = None\<rparr>,
      \<lparr>te_name = ''../../etc/a'', te_type = TypeReg, te_mode = 0x1ED, te_data = ''z'', te_error = None\<rparr>]"

definition sample_host :: host where
  "sample_host = host_with
     [([''w''], Dir 0x1C0), ([''w'', ''bundle''], Dir 0x1ED), ([''a.tgz''], Reg ''gz'' 0x180),
      ([''etc''], Dir 0x1ED), ([''etc'', ''a''], Reg ''old'' 0x1A4)]"

definition sample_unpacked :: "(string + unit) \<times> host" where
  "sample_unpacked = unpackTarGz (\<lambda>s. Inr (sample_archive, None)) ''/a.tgz'' ''/w/bundle'' sample_os sample_host"

lemma sample_unpack:
  "fst sample_unpacked = Inl ''archive entry escapes destination: ../../etc/a''"
  "fs_get (h_fs (snd sample_unpacked)) [''w'', ''bundle'', ''bin'', ''x''] = Some (Reg ''y'' 0x1ED)"
  "segs ''/w/bundle'' = [''w'', ''bundle'']"
  by code_simp+

theorem unpackTarGz_confined_witness:
  "fst sample_unpacked = Inl ''archive entry escapes destination: ../../etc/a'' \<and>
   fs_get (h_fs (snd sample_unpacked)) [''w'', ''bundle'', ''bin'', ''x''] = Some (Reg ''y'' 0x1ED) \<and>
   fs_get (h_fs (snd sample_unpacked)) [''etc'', ''a''] = Some (Reg ''old'' 0x1A4)"
proof -
  have d: "dirs_to (h_fs sample_host) (segs ''/w/bundle'')"
    by (auto simp: dirs_to_def sample_unpack sample_host_def host_with_def fs_get_def prefix_Cons)
  have "unpackTarGz (\<lambda>s. Inr (sample_archive, None)) ''/a.tgz'' ''/w/bundle'' sample_os sample_host
      = (fst sample_unpacked, snd sample_unpacked)" by (simp add: sample_unpacked_def)
  from unpackTarGz_confined [OF _ d this] have
    "fs_get (h_fs (snd sample_unpacked)) [''etc'', ''a''] = fs_get (h_fs sample_host) [''etc'', ''a'']"
    by (auto simp: sample_unpack)
  then show ?thesis using sample_unpack by (simp add: sample_host_def host_with_def fs_get_def)
qed

end
