(* ===== verification/State_File.thy ===== *)
theory State_File
  imports Prelude Go_Strings
begin

text \<open>
  The two JSON state files of the installer (operation journal, inventory) and the list
  algorithms over keyed records that both components share.  A file is modelled by what
  the code's decoder makes of its bytes: \<^verbatim>\<open>os.Stat\<close> says it is missing, \<^verbatim>\<open>os.ReadFile\<close>
  fails, the content is blank, \<^verbatim>\<open>json.Unmarshal\<close> fails, or it decodes to a list of
  records.  \<^verbatim>\<open>json.Unmarshal\<close> of what \<^verbatim>\<open>json.MarshalIndent\<close> wrote gives the records back
  (the documented behaviour for structs of strings, booleans and slices of valid UTF-8).
\<close>

subsection \<open>Files\<close>

datatype 'a state_file =
    Missing
  | Unreadable string
  | Blank
  | Malformed string
  | Items "'a list"

text \<open>
  What happens when the code writes a file.  \<^verbatim>\<open>os.WriteFile\<close> truncates first and is not
  atomic, so a failed write may leave the old content (the file could not be opened),
  nothing, an initial part that does not decode, or all but the trailing newline.  The
  strings are the texts of the operating system's and of the decoder's errors.
\<close>

datatype write_outcome =
    Write_ok
  | Mkdir_fails string
  | Open_fails string
  | Torn_blank string
  | Torn_garbled string string
  | Torn_whole string

text \<open>One call of an operation reads the clock and writes its file at most once.\<close>

record io =
  io_now :: string
  io_write :: write_outcome

datatype file_error =
    Read_failed string
  | Decode_failed string
  | Mkdir_failed string
  | Write_failed string

fun file_error_text :: "string \<Rightarrow> file_error \<Rightarrow> string" where
  "file_error_text what (Read_failed e) = ''read '' @ what @ '' failed: '' @ e"
| "file_error_text what (Decode_failed e) = ''decode '' @ what @ '' failed: '' @ e"
| "file_error_text what (Mkdir_failed e) = ''create '' @ what @ '' dir failed: '' @ e"
| "file_error_text what (Write_failed e) = ''write '' @ what @ '' failed: '' @ e"

fun read_items :: "'a state_file \<Rightarrow> file_error + 'a list" where
  "read_items Missing = Inr []"
| "read_items (Unreadable e) = Inl (Read_failed e)"
| "read_items Blank = Inr []"
| "read_items (Malformed e) = Inl (Decode_failed e)"
| "read_items (Items xs) = Inr xs"

fun write_items :: "write_outcome \<Rightarrow> 'a list \<Rightarrow> 'a state_file \<Rightarrow> (file_error + unit) \<times> 'a state_file" where
  "write_items Write_ok xs f = (Inr (), Items xs)"
| "write_items (Mkdir_fails e) xs f = (Inl (Mkdir_failed e), f)"
| "write_items (Open_fails e) xs f = (Inl (Write_failed e), f)"
| "write_items (Torn_blank e) xs f = (Inl (Write_failed e), Blank)"
| "write_items (Torn_garbled e d) xs f = (Inl (Write_failed e), Malformed d)"
| "write_items (Torn_whole e) xs f = (Inl (Write_failed e), Items xs)"

text \<open>An outcome that leaves either the old records or the new ones.\<close>

fun durable :: "write_outcome \<Rightarrow> bool" where
  "durable Write_ok = True"
| "durable (Mkdir_fails _) = True"
| "durable (Open_fails _) = True"
| "durable (Torn_blank _) = False"
| "durable (Torn_garbled _ _) = False"
| "durable (Torn_whole _) = True"

lemma write_items_ok_iff: "fst (write_items w xs f) = Inr () \<longleftrightarrow> w = Write_ok"
  by (cases w) auto

lemma write_items_Inr_iff [simp]: "write_items w xs f = (Inr u, f') \<longleftrightarrow> w = Write_ok \<and> f' = Items xs"
  by (cases w) auto

lemma write_items_durable: "durable w \<Longrightarrow> snd (write_items w xs f) \<in> {f, Items xs}"
  by (cases w) auto

lemma write_items_set:
  "read_items (snd (write_items w xs f)) = Inr ys \<Longrightarrow> ys = [] \<or> ys = xs \<or> read_items f = Inr ys"
  by (cases w) auto

lemma read_items_Inr_cases:
  "read_items f = Inr xs \<Longrightarrow> f = Items xs \<or> xs = [] \<and> (f = Missing \<or> f = Blank)"
  by (cases f) auto

subsection \<open>Keyed records\<close>

text \<open>
  \<^verbatim>\<open>for i := range items { if key(items[i]) == k { items[i] = x; replaced = true; break } };
       if !replaced { items = append(items, x) }\<close>
\<close>

fun upsert_items :: "('a \<Rightarrow> 'k) \<Rightarrow> 'k \<Rightarrow> 'a \<Rightarrow> 'a list \<Rightarrow> 'a list" where
  "upsert_items key k x [] = [x]"
| "upsert_items key k x (y # ys) =
     (if key y = k then x # ys else y # upsert_items key k x ys)"

definition lookup_items :: "('a \<Rightarrow> 'k) \<Rightarrow> 'k \<Rightarrow> 'a list \<Rightarrow> 'a option" where
  "lookup_items key k xs = find (\<lambda>x. key x = k) xs"

definition remove_items :: "('a \<Rightarrow> 'k) \<Rightarrow> 'k \<Rightarrow> 'a list \<Rightarrow> 'a list" where
  "remove_items key k xs = filter (\<lambda>x. key x \<noteq> k) xs"

lemma lookup_items_None: "lookup_items key k xs = None \<longleftrightarrow> k \<notin> key ` set xs"
  by (auto simp: lookup_items_def find_None_iff)

lemma lookup_items_Some: "lookup_items key k xs = Some x \<Longrightarrow> x \<in> set xs \<and> key x = k"
  by (auto simp: lookup_items_def find_Some_iff)

text \<open>The abstract contract of a keyed record list: a finite map from keys to records.\<close>

definition items_map :: "('a \<Rightarrow> 'k) \<Rightarrow> 'a list \<Rightarrow> 'k \<Rightarrow> 'a option" where
  "items_map key xs = (\<lambda>k. lookup_items key k xs)"

text \<open>
  Records are normalised at every load and at every save; looking one up needs that this
  keeps the key, and reading back what was saved that it does nothing the second time.
\<close>

locale keyed_list =
  fixes norm :: "'a \<Rightarrow> 'a"
    and key :: "'a \<Rightarrow> 'k"
  assumes key_norm: "key (norm x) = key x"
begin

lemma lookup_map_norm:
  "lookup_items key k (map norm xs) = map_option norm (lookup_items key k xs)"
  by (induction xs) (auto simp: lookup_items_def key_norm)

lemma items_map_norm: "items_map key (map norm xs) = map_option norm \<circ> items_map key xs"
  by (rule ext) (simp add: items_map_def lookup_map_norm)

lemma items_map_upsert:
  "key x = k \<Longrightarrow> items_map key (upsert_items key k x xs) = (items_map key xs)(k \<mapsto> x)"
  by (rule ext, induction xs) (auto simp: items_map_def lookup_items_def)

lemma items_map_remove: "items_map key (remove_items key k xs) = (items_map key xs)(k := None)"
  by (rule ext, induction xs) (auto simp: items_map_def lookup_items_def remove_items_def)

lemma keys_upsert:
  "key x = k \<Longrightarrow>
     map key (upsert_items key k x xs) =
       (if k \<in> key ` set xs then map key xs else map key xs @ [k])"
  by (induction xs) auto

lemma distinct_upsert:
  "key x = k \<Longrightarrow> distinct (map key xs) \<Longrightarrow> distinct (map key (upsert_items key k x xs))"
  by (simp add: keys_upsert)

lemma distinct_remove: "distinct (map key xs) \<Longrightarrow> distinct (map key (remove_items key k xs))"
  by (simp add: remove_items_def distinct_map_filter)

lemma distinct_map_norm: "distinct (map key (map norm xs)) = distinct (map key xs)"
  by (simp add: key_norm comp_def)

lemma set_upsert: "set (upsert_items key k x xs) \<subseteq> insert x (set xs)"
  by (induction xs) auto

lemma lookup_distinct:
  "distinct (map key xs) \<Longrightarrow> x \<in> set xs \<Longrightarrow> lookup_items key (key x) xs = Some x"
  by (induction xs) (auto simp: lookup_items_def)

end

locale keyed_store = keyed_list norm key + normaliser norm
  for norm :: "'a \<Rightarrow> 'a" and key :: "'a \<Rightarrow> 'k"
begin

lemma items_map_reload: "items_map key (map norm (map norm xs)) = items_map key (map norm xs)"
  by (simp only: map_norm_idem)

lemma lookup_reload:
  "lookup_items key k (map norm (map norm xs)) = map_option norm (lookup_items key k xs)"
  by (simp only: map_norm_idem lookup_map_norm)

end

end
