(* ===== verification/State_Store.thy ===== *)
theory State_Store
  imports State_File Manifest "HOL-Library.Char_ord" "HOL-Library.List_Lexorder"
    "HOL-Library.Product_Lexorder" "HOL-Library.Multiset"
begin

text \<open>
  The inventory of installed modules (\<^verbatim>\<open>internal/agent/install/state_store.go\<close>): one record
  per module and runtime in \<^verbatim>\<open>/var/lib/aurora-agent/installed_modules.json\<close>, normalised at
  every load and save.  The contract is a finite map from keys to records; the operations
  are shown to implement its lookup, update and delete, and failed writes to leave the old
  map or the new one.
\<close>

subsection \<open>Normal forms of the fields\<close>

text \<open>\<^verbatim>\<open>normalizeInstallerAPIVersion\<close> is declared in \<^verbatim>\<open>engine.go\<close>.\<close>

definition normalizeInstallerAPIVersion :: "string \<Rightarrow> string" where
  "normalizeInstallerAPIVersion raw =
     (if trim_space raw = [] \<or> trim_space raw = InstallerRPCVersionV1
      then InstallerRPCVersionV1 else [])"

definition validateInstallerAPIVersion :: "string \<Rightarrow> string result" where
  "validateInstallerAPIVersion raw =
     (let normalized = normalizeInstallerAPIVersion raw in
      if normalized = [] then Inl ''api_version is unsupported'' else Inr normalized)"

definition installedModuleKey :: "string \<Rightarrow> string \<Rightarrow> string" where
  "installedModuleKey moduleName runtime = trim_space moduleName @ ''|'' @ trim_space runtime"

definition normalizeInstalledModuleStatus :: "string \<Rightarrow> string" where
  "normalizeInstalledModuleStatus raw =
     (let s = to_lower (trim_space raw) in
      if s = [] \<or> s = InstallStatusUnknown then InstallStatusUnknown
      else if s \<in> {''running'', ''restarted'', ''applied'', InstallStatusInstalled} then InstallStatusInstalled
      else if s = InstallStatusInstalling then InstallStatusInstalling
      else if s = InstallStatusFailed then InstallStatusFailed
      else trim_space raw)"

definition normalizeInstalledModuleHealth :: "string \<Rightarrow> string" where
  "normalizeInstalledModuleHealth raw =
     (let s = to_lower (trim_space raw) in
      if s = [] \<or> s = ModuleHealthUnknown then ModuleHealthUnknown
      else if s \<in> {ModuleHealthStarting, ModuleHealthHealthy, ModuleHealthUnhealthy, ModuleHealthDegraded} then s
      else trim_space raw)"

definition normalizeInstallAssetPaths :: "string list \<Rightarrow> string list" where
  "normalizeInstallAssetPaths paths = collect_unique trim_space [] paths"

definition normalizeInstalledModuleRecord :: "string \<Rightarrow> installed_record \<Rightarrow> installed_record" where
  "normalizeInstalledModuleRecord now r =
     \<lparr>in_api_version = normalizeInstallerAPIVersion (in_api_version r),
      in_module = trim_space (in_module r),
      in_version = trim_space (in_version r),
      in_runtime = trim_space (in_runtime r),
      in_service_name = trim_space (in_service_name r),
      in_unit_path = trim_space (in_unit_path r),
      in_binary_path = trim_space (in_binary_path r),
      in_env_file_path = trim_space (in_env_file_path r),
      in_nginx_site_path = trim_space (in_nginx_site_path r),
      in_asset_paths = normalizeInstallAssetPaths (in_asset_paths r),
      in_endpoint = trim_space (in_endpoint r),
      in_status = normalizeInstalledModuleStatus (in_status r),
      in_health = normalizeInstalledModuleHealth (in_health r),
      in_observed_at =
        (if trim_space (in_observed_at r) = [] then now else trim_space (in_observed_at r)),
      in_manifest_schema_version = normalizeManifestSchemaVersion (in_manifest_schema_version r),
      in_capabilities = normalizeArtifactCapabilities (in_capabilities r) None\<rparr>"

definition record_key :: "installed_record \<Rightarrow> string" where
  "record_key r = installedModuleKey (in_module r) (in_runtime r)"

subsection \<open>Operations\<close>

type_synonym inventory = "installed_record state_file"

definition loadInstalledModules :: "io \<Rightarrow> inventory \<Rightarrow> file_error + installed_record list" where
  "loadInstalledModules io store =
     (case read_items store of
        Inl e \<Rightarrow> Inl e
      | Inr items \<Rightarrow> Inr (map (normalizeInstalledModuleRecord (io_now io)) items))"

definition saveInstalledModules ::
    "io \<Rightarrow> installed_record list \<Rightarrow> inventory \<Rightarrow> (file_error + unit) \<times> inventory" where
  "saveInstalledModules io items store =
     write_items (io_write io) (map (normalizeInstalledModuleRecord (io_now io)) items) store"

definition listInstalledModules :: "io \<Rightarrow> inventory \<Rightarrow> file_error + installed_record list" where
  "listInstalledModules io store =
     (case loadInstalledModules io store of
        Inl e \<Rightarrow> Inl e
      | Inr items \<Rightarrow> Inr (sort_key (\<lambda>r. (in_module r, in_runtime r)) items))"

definition getInstalledModule ::
    "io \<Rightarrow> string \<Rightarrow> string \<Rightarrow> inventory \<Rightarrow> file_error + installed_record option" where
  "getInstalledModule io moduleName runtime store =
     (case loadInstalledModules io store of
        Inl e \<Rightarrow> Inl e
      | Inr items \<Rightarrow>
          Inr (map_option (normalizeInstalledModuleRecord (io_now io))
                 (lookup_items record_key (installedModuleKey moduleName runtime) items)))"

definition upsertInstalledModule ::
    "io \<Rightarrow> installed_record \<Rightarrow> inventory \<Rightarrow> (file_error + unit) \<times> inventory" where
  "upsertInstalledModule io r store =
     (case loadInstalledModules io store of
        Inl e \<Rightarrow> (Inl e, store)
      | Inr items \<Rightarrow>
          saveInstalledModules io
            (upsert_items record_key (record_key r)
               (normalizeInstalledModuleRecord (io_now io) r) items) store)"

definition removeInstalledModule ::
    "io \<Rightarrow> string \<Rightarrow> string \<Rightarrow> inventory \<Rightarrow> (file_error + unit) \<times> inventory" where
  "removeInstalledModule io moduleName runtime store =
     (case loadInstalledModules io store of
        Inl e \<Rightarrow> (Inl e, store)
      | Inr items \<Rightarrow>
          saveInstalledModules io
            (remove_items record_key (installedModuleKey moduleName runtime) items) store)"

subsection \<open>Normalisation reaches its normal form in two steps and keeps the key\<close>

text \<open>
  An unsupported API version is first mapped to the empty string and the empty string, at
  the next normalisation, to the current version: one application is not idempotent, two are.
\<close>

lemma api_version_fixed: "trim_space InstallerRPCVersionV1 = InstallerRPCVersionV1" "trim_space [] = []"
  by code_simp+

lemma normalizeInstallerAPIVersion_twice [idem]:
  "normalizeInstallerAPIVersion (normalizeInstallerAPIVersion raw) = InstallerRPCVersionV1"
  by (simp add: normalizeInstallerAPIVersion_def api_version_fixed)

lemma normalizeInstallerAPIVersion_V1 [simp]:
  "normalizeInstallerAPIVersion InstallerRPCVersionV1 = InstallerRPCVersionV1"
  by (simp add: normalizeInstallerAPIVersion_def api_version_fixed)

lemma normalizeInstalledModuleStatus_idem [idem]:
  "normalizeInstalledModuleStatus (normalizeInstalledModuleStatus raw)
     = normalizeInstalledModuleStatus raw"
proof -
  let ?K = "[InstallStatusUnknown, InstallStatusInstalled, InstallStatusInstalling, InstallStatusFailed]"
  have "list_all (\<lambda>s. normalizeInstalledModuleStatus s = s) ?K" by code_simp
  then have f: "s \<in> set ?K \<Longrightarrow> normalizeInstalledModuleStatus s = s" for s by auto
  have "normalizeInstalledModuleStatus raw \<in> set ?K \<or> normalizeInstalledModuleStatus raw = trim_space raw"
    by (simp add: normalizeInstalledModuleStatus_def Let_def)
  then show ?thesis
  proof (elim disjE)
    assume "normalizeInstalledModuleStatus raw = trim_space raw"
    moreover have "normalizeInstalledModuleStatus (trim_space raw) = normalizeInstalledModuleStatus raw"
      by (simp add: normalizeInstalledModuleStatus_def Let_def)
    ultimately show ?thesis by simp
  qed (rule f)
qed

lemma normalizeInstalledModuleHealth_idem [simp, idem]:
  "normalizeInstalledModuleHealth (normalizeInstalledModuleHealth raw)
     = normalizeInstalledModuleHealth raw"
proof -
  let ?K = "[ModuleHealthUnknown, ModuleHealthStarting, ModuleHealthHealthy, ModuleHealthUnhealthy,
      ModuleHealthDegraded]"
  have "list_all (\<lambda>s. normalizeInstalledModuleHealth s = s) ?K" by code_simp
  then have f: "s \<in> set ?K \<Longrightarrow> normalizeInstalledModuleHealth s = s" for s by auto
  have "normalizeInstalledModuleHealth raw \<in> set ?K \<or> normalizeInstalledModuleHealth raw = trim_space raw"
    by (simp add: normalizeInstalledModuleHealth_def Let_def)
  then show ?thesis
  proof (elim disjE)
    assume "normalizeInstalledModuleHealth raw = trim_space raw"
    moreover have "normalizeInstalledModuleHealth (trim_space raw) = normalizeInstalledModuleHealth raw"
      by (simp add: normalizeInstalledModuleHealth_def Let_def)
    ultimately show ?thesis by simp
  qed (rule f)
qed

lemma normalizeInstallAssetPaths_idem [simp, idem]:
  "normalizeInstallAssetPaths (normalizeInstallAssetPaths paths) = normalizeInstallAssetPaths paths"
  by (simp add: normalizeInstallAssetPaths_def collect_unique_idem)

definition canonicalRecord :: "string \<Rightarrow> installed_record \<Rightarrow> installed_record" where
  "canonicalRecord now r =
     normalizeInstalledModuleRecord now (normalizeInstalledModuleRecord now r)"

lemma normalizeInstalledModuleRecord_canonical [idem]:
  "normalizeInstalledModuleRecord t (canonicalRecord now r) = canonicalRecord now r"
  if "trim_space now \<noteq> []" "trimmed now"
  using that
  by (simp add: canonicalRecord_def normalizeInstalledModuleRecord_def
      normalizeInstallerAPIVersion_twice normalizeInstallerAPIVersion_V1
      normalizeInstalledModuleStatus_idem trim_space_trimmed)

lemma record_key_normalize [simp]:
  "record_key (normalizeInstalledModuleRecord now r) = record_key r"
  by (simp add: record_key_def normalizeInstalledModuleRecord_def installedModuleKey_def)

lemma canonicalRecord_fun:
  "canonicalRecord now = (\<lambda>r. normalizeInstalledModuleRecord now (normalizeInstalledModuleRecord now r))"
  by (rule ext) (simp add: canonicalRecord_def)

lemma canonicalRecord_idem: "canonicalRecord now (canonicalRecord now r) = canonicalRecord now r"
  by (simp add: canonicalRecord_def normalizeInstalledModuleRecord_def
      normalizeInstallerAPIVersion_twice normalizeInstalledModuleStatus_idem)

lemma record_key_canonical [simp]: "record_key (canonicalRecord now r) = record_key r"
  by (simp add: canonicalRecord_def)

interpretation inventory: keyed_store "canonicalRecord now" record_key for now
  by unfold_locales (simp_all add: canonicalRecord_idem)

subsection \<open>The contract: a finite map from keys to records\<close>

text \<open>
  What the inventory file means: \<^const>\<open>None\<close> when it cannot be read, else the map from keys to
  canonical records.  A reading at a later time agrees with an earlier one once the records
  have been saved.
\<close>

definition inventory_abs :: "string \<Rightarrow> inventory \<Rightarrow> (string \<Rightarrow> installed_record option) option" where
  "inventory_abs now store =
     (case read_items store of
        Inl _ \<Rightarrow> None
      | Inr items \<Rightarrow> Some (items_map record_key (map (canonicalRecord now) items)))"

definition clock_reading :: "string \<Rightarrow> bool" where
  "clock_reading now \<longleftrightarrow> trim_space now \<noteq> [] \<and> trimmed now"

lemma canonicalRecord_later:
  "clock_reading now \<Longrightarrow> canonicalRecord t (canonicalRecord now r) = canonicalRecord now r"
  using normalizeInstalledModuleRecord_canonical [of now]
  by (simp add: clock_reading_def canonicalRecord_def [of t])

lemma map_upsert_items:
  "map f (upsert_items record_key k x xs) = upsert_items record_key k (f x) (map f xs)"
  if "\<And>y. record_key (f y) = record_key y"
  using that by (induction xs) auto

lemma map_remove_items:
  "map f (remove_items record_key k xs) = remove_items record_key k (map f xs)"
  if "\<And>y. record_key (f y) = record_key y"
  using that by (simp add: remove_items_def filter_map comp_def)

lemma upsertInstalledModule_alt:
  "upsertInstalledModule io r store =
     (case read_items store of
        Inl e \<Rightarrow> (Inl e, store)
      | Inr items \<Rightarrow>
          write_items (io_write io)
            (upsert_items record_key (record_key r) (canonicalRecord (io_now io) r)
               (map (canonicalRecord (io_now io)) items)) store)"
  by (simp add: upsertInstalledModule_def loadInstalledModules_def saveInstalledModules_def
      map_upsert_items canonicalRecord_fun comp_def split: sum.splits)

lemma removeInstalledModule_alt:
  "removeInstalledModule io m rt store =
     (case read_items store of
        Inl e \<Rightarrow> (Inl e, store)
      | Inr items \<Rightarrow>
          write_items (io_write io)
            (remove_items record_key (installedModuleKey m rt)
               (map (canonicalRecord (io_now io)) items)) store)"
  by (simp add: removeInstalledModule_def loadInstalledModules_def saveInstalledModules_def
      map_remove_items canonicalRecord_fun comp_def split: sum.splits)

lemma map_canonical_later:
  "clock_reading now \<Longrightarrow>
   map (canonicalRecord t) (map (canonicalRecord now) items) = map (canonicalRecord now) items"
  by (simp add: canonicalRecord_later)

lemma map_canonical_upsert:
  "clock_reading now \<Longrightarrow>
   map (canonicalRecord t) (upsert_items record_key k (canonicalRecord now r) (map (canonicalRecord now) items))
     = upsert_items record_key k (canonicalRecord now r) (map (canonicalRecord now) items)"
  by (simp only: map_upsert_items record_key_canonical map_canonical_later canonicalRecord_later)

lemma map_canonical_remove:
  "clock_reading now \<Longrightarrow>
   map (canonicalRecord t) (remove_items record_key k (map (canonicalRecord now) items))
     = remove_items record_key k (map (canonicalRecord now) items)"
  by (simp only: map_remove_items record_key_canonical map_canonical_later)

lemma get_refines:
  "getInstalledModule io m rt store =
     (case inventory_abs (io_now io) store of
        None \<Rightarrow> Inl (case read_items store of Inl e \<Rightarrow> e)
      | Some M \<Rightarrow> Inr (M (installedModuleKey m rt)))"
  by (auto simp: getInstalledModule_def loadInstalledModules_def inventory_abs_def items_map_def
      lookup_items_def find_map comp_def canonicalRecord_fun option.map_comp split: sum.splits)

lemma upsert_refines:
  assumes "inventory_abs (io_now io) store = Some M"
    and "clock_reading (io_now io)"
    and "fst (upsertInstalledModule io r store) = Inr ()"
  shows "inventory_abs later (snd (upsertInstalledModule io r store))
           = Some (M(record_key r \<mapsto> canonicalRecord (io_now io) r))"
proof -
  from assms(1) obtain items where r: "read_items store = Inr items"
    and M: "M = items_map record_key (map (canonicalRecord (io_now io)) items)"
    by (auto simp: inventory_abs_def split: sum.splits)
  from assms(3) r have "io_write io = Write_ok"
    by (simp add: upsertInstalledModule_alt write_items_ok_iff)
  with r M assms(2) show ?thesis
    by (simp add: upsertInstalledModule_alt inventory_abs_def map_canonical_upsert
        inventory.items_map_upsert del: map_map)
qed

text \<open>
  \<^verbatim>\<open>getInstalledModule\<close> is the lookup of the map the inventory file means, under the key of
  the trimmed module and runtime; it fails only when the file cannot be read.
\<close>

theorem getInstalledModule_refines:
  "getInstalledModule io m rt store =
     (case inventory_abs (io_now io) store of
        None \<Rightarrow> Inl (case read_items store of Inl e \<Rightarrow> e)
      | Some M \<Rightarrow> Inr (M (installedModuleKey m rt)))"
  by (rule get_refines)

text \<open>
  C35: a successful \<^verbatim>\<open>upsertInstalledModule\<close> implements the update of that map at the record's
  key: every other module keeps its record, and a reader at any later time finds the
  canonical form of the new one.
\<close>

theorem upsertInstalledModule_refines:
  assumes "inventory_abs (io_now io) store = Some M"
    and "clock_reading (io_now io)"
    and "fst (upsertInstalledModule io r store) = Inr ()"
  shows "inventory_abs later (snd (upsertInstalledModule io r store))
           = Some (M(record_key r \<mapsto> canonicalRecord (io_now io) r))"
  using upsert_refines [OF assms] .

lemma remove_refines:
  assumes "inventory_abs (io_now io) store = Some M"
    and "clock_reading (io_now io)"
    and "fst (removeInstalledModule io m rt store) = Inr ()"
  shows "inventory_abs later (snd (removeInstalledModule io m rt store))
           = Some (M(installedModuleKey m rt := None))"
proof -
  from assms(1) obtain items where r: "read_items store = Inr items"
    and M: "M = items_map record_key (map (canonicalRecord (io_now io)) items)"
    by (auto simp: inventory_abs_def split: sum.splits)
  from assms(3) r have "io_write io = Write_ok"
    by (simp add: removeInstalledModule_alt write_items_ok_iff)
  with r M assms(2) show ?thesis
    by (simp add: removeInstalledModule_alt inventory_abs_def map_canonical_remove
        inventory.items_map_remove del: map_map)
qed

text \<open>
  a successful \<^verbatim>\<open>removeInstalledModule\<close> deletes exactly the records of the module and
  runtime; a lookup of that module then finds nothing and every other record is kept.
\<close>

theorem removeInstalledModule_refines:
  assumes "inventory_abs (io_now io) store = Some M"
    and "clock_reading (io_now io)"
    and "fst (removeInstalledModule io m rt store) = Inr ()"
  shows "inventory_abs later (snd (removeInstalledModule io m rt store))
           = Some (M(installedModuleKey m rt := None))"
  using remove_refines [OF assms] .

text \<open>
  C36: a write that fails without losing data leaves the map before the operation or the map
  after it, and the operation reports an error; a torn write leaves an empty or unreadable
  inventory, never a mixture.
\<close>

theorem upsertInstalledModule_crash:
  assumes "clock_reading (io_now io)" and "io_write io \<noteq> Write_ok"
  shows "fst (upsertInstalledModule io r store) \<noteq> Inr ()
    \<and> inventory_abs later (snd (upsertInstalledModule io r store))
        \<in> {None, Some Map.empty, inventory_abs later store,
            map_option (\<lambda>M. M(record_key r \<mapsto> canonicalRecord (io_now io) r))
              (inventory_abs (io_now io) store)}
    \<and> (durable (io_write io) \<longrightarrow>
        inventory_abs later (snd (upsertInstalledModule io r store))
          \<in> {inventory_abs later store,
              map_option (\<lambda>M. M(record_key r \<mapsto> canonicalRecord (io_now io) r))
                (inventory_abs (io_now io) store)})"
proof (cases "read_items store")
  case (Inl e)
  then show ?thesis by (simp add: upsertInstalledModule_alt inventory_abs_def)
next
  case (Inr items)
  let ?new = "upsert_items record_key (record_key r) (canonicalRecord (io_now io) r)
                (map (canonicalRecord (io_now io)) items)"
  have new: "items_map record_key (map (canonicalRecord later) ?new)
      = (items_map record_key (map (canonicalRecord (io_now io)) items))
          (record_key r \<mapsto> canonicalRecord (io_now io) r)"
    using assms(1) by (simp add: map_canonical_upsert inventory.items_map_upsert del: map_map)
  have upd: "upsertInstalledModule io r store = write_items (io_write io) ?new store"
    using Inr by (simp add: upsertInstalledModule_alt)
  have empty: "items_map record_key [] = (Map.empty :: string \<Rightarrow> installed_record option)"
    by (rule ext) (simp add: items_map_def lookup_items_def)
  show ?thesis
    using assms(2) Inr new unfolding upd
    by (cases "io_write io") (simp_all add: inventory_abs_def empty del: map_map)
qed

text \<open>
  What one write of the inventory, whose error the handlers drop, can leave: the updated map
  when it worked; the old or the updated one when it failed without losing data; and nothing,
  or a file that does not decode, when it was cut short.
\<close>

definition inventory_outcome ::
    "write_outcome \<Rightarrow> ((string \<Rightarrow> installed_record option) \<Rightarrow> string \<Rightarrow> installed_record option)
       \<Rightarrow> string \<Rightarrow> string \<Rightarrow> inventory \<Rightarrow> inventory \<Rightarrow> bool" where
  "inventory_outcome w upd now later old new \<longleftrightarrow>
     (let before = inventory_abs later old;
          updated = map_option upd (inventory_abs now old);
          after = inventory_abs later new
      in if w = Write_ok then after = updated
         else if durable w then after \<in> {before, updated}
         else after \<in> {None, Some Map.empty})"

lemma write_outcome:
  assumes "read_items store = Inr items"
    and "inventory_abs later (Items new) = map_option upd (inventory_abs now store)"
  shows "inventory_outcome w upd now later store (snd (write_items w new store))"
proof -
  have empty: "items_map record_key [] = (Map.empty :: string \<Rightarrow> installed_record option)"
    by (rule ext) (simp add: items_map_def lookup_items_def)
  show ?thesis
    using assms(2) by (cases w) (simp_all add: inventory_outcome_def inventory_abs_def empty del: map_map)
qed

lemma no_write_outcome: "read_items store = Inl e \<Longrightarrow> inventory_outcome w upd now later store store"
  by (simp add: inventory_outcome_def inventory_abs_def)

lemma upsert_outcome:
  assumes "clock_reading (io_now io)"
  shows "inventory_outcome (io_write io) (\<lambda>M. M(record_key r \<mapsto> canonicalRecord (io_now io) r))
           (io_now io) later store (snd (upsertInstalledModule io r store))"
proof (cases "read_items store")
  case (Inl e)
  then show ?thesis by (simp add: upsertInstalledModule_alt no_write_outcome)
next
  case (Inr items)
  show ?thesis
    using Inr by (simp add: upsertInstalledModule_alt del: map_map)
      (rule write_outcome [OF Inr], use assms Inr in
        \<open>simp add: inventory_abs_def map_canonical_upsert inventory.items_map_upsert del: map_map\<close>)
qed

lemma remove_outcome:
  assumes "clock_reading (io_now io)"
  shows "inventory_outcome (io_write io) (\<lambda>M. M(installedModuleKey m rt := None))
           (io_now io) later store (snd (removeInstalledModule io m rt store))"
proof (cases "read_items store")
  case (Inl e)
  then show ?thesis by (simp add: removeInstalledModule_alt no_write_outcome)
next
  case (Inr items)
  show ?thesis
    using Inr by (simp add: removeInstalledModule_alt del: map_map)
      (rule write_outcome [OF Inr], use assms Inr in
        \<open>simp add: inventory_abs_def map_canonical_remove inventory.items_map_remove del: map_map\<close>)
qed

text \<open>
  the listing is a permutation of the stored records in the order of module and runtime,
  and the operations keep one record per key, so it names every installed module once.
\<close>

theorem listInstalledModules_sorted:
  assumes "listInstalledModules io store = Inr items"
  shows "sorted (map (\<lambda>r. (in_module r, in_runtime r)) items)
    \<and> (\<exists>stored. loadInstalledModules io store = Inr stored \<and> mset items = mset stored
         \<and> (distinct (map record_key stored) \<longrightarrow> distinct (map record_key items)))"
proof -
  from assms obtain stored where st: "loadInstalledModules io store = Inr stored"
    and it: "items = sort_key (\<lambda>r. (in_module r, in_runtime r)) stored"
    by (auto simp: listInstalledModules_def split: sum.splits)
  have "mset items = mset stored" by (simp add: it)
  moreover from this have "mset (map record_key items) = mset (map record_key stored)" by simp
  ultimately show ?thesis using st it mset_eq_imp_distinct_iff by fastforce
qed

definition unique_keys :: "inventory \<Rightarrow> bool" where
  "unique_keys store = (case read_items store of Inl _ \<Rightarrow> True | Inr items \<Rightarrow> distinct (map record_key items))"

lemma unique_keys_write:
  "unique_keys store \<Longrightarrow> distinct (map record_key items) \<Longrightarrow> unique_keys (snd (write_items w items store))"
  by (cases w) (auto simp: unique_keys_def)

text \<open>C37: whatever the writes do, an inventory never gets two records under one key.\<close>

theorem inventory_unique_keys:
  assumes "unique_keys store"
  shows "unique_keys (snd (upsertInstalledModule io r store))
    \<and> unique_keys (snd (removeInstalledModule io m rt store))"
proof (cases "read_items store")
  case (Inl e)
  with assms show ?thesis by (simp add: upsertInstalledModule_alt removeInstalledModule_alt)
next
  case (Inr items)
  with assms have "distinct (map record_key (map (canonicalRecord (io_now io)) items))"
    by (simp only: unique_keys_def sum.case inventory.distinct_map_norm)
  with assms Inr show ?thesis
    by (simp add: upsertInstalledModule_alt removeInstalledModule_alt unique_keys_write
        inventory.distinct_upsert inventory.distinct_remove del: map_map)
qed

subsection \<open>The hypotheses can hold\<close>

definition sample_io :: "write_outcome \<Rightarrow> io" where
  "sample_io w = \<lparr>io_now = ''2024-05-01T00:00:00Z'', io_write = w\<rparr>"

definition sample_installed :: "string \<Rightarrow> string \<Rightarrow> installed_record" where
  "sample_installed m v =
     \<lparr>in_api_version = [], in_module = m, in_version = v, in_runtime = RuntimeLinuxSystemd,
      in_service_name = ''aurora-ums.service'', in_unit_path = [], in_binary_path = ''/usr/bin/ums'',
      in_env_file_path = [], in_nginx_site_path = [], in_asset_paths = [], in_endpoint = [],
      in_status = ''running'', in_health = [], in_observed_at = [],
      in_manifest_schema_version = ''v1'', in_capabilities = no_capabilities\<rparr>"

lemma sample_clock: "clock_reading (io_now (sample_io w))"
  by (simp add: sample_io_def clock_reading_def) code_simp

theorem upsertInstalledModule_refines_witness:
  "inventory_abs ''later'' (snd (upsertInstalledModule (sample_io Write_ok) (sample_installed ''ums'' ''1.2'') Missing))
     = Some [record_key (sample_installed ''ums'' ''1.2'')
               \<mapsto> canonicalRecord (io_now (sample_io Write_ok)) (sample_installed ''ums'' ''1.2'')]"
proof (rule upsertInstalledModule_refines [OF _ sample_clock])
  show "inventory_abs (io_now (sample_io Write_ok)) Missing = Some Map.empty"
    by (simp add: inventory_abs_def items_map_def lookup_items_def)
  show "fst (upsertInstalledModule (sample_io Write_ok) (sample_installed ''ums'' ''1.2'') Missing) = Inr ()"
    by (simp add: upsertInstalledModule_alt sample_io_def)
qed

theorem removeInstalledModule_refines_witness:
  "\<exists>M. M (installedModuleKey ''ums'' RuntimeLinuxSystemd) \<noteq> None
     \<and> inventory_abs ''later'' (snd (removeInstalledModule (sample_io Write_ok) ''ums'' RuntimeLinuxSystemd
           (Items [sample_installed ''ums'' ''1.2''])))
         = Some (M(installedModuleKey ''ums'' RuntimeLinuxSystemd := None))"
proof -
  let ?st = "Items [sample_installed ''ums'' ''1.2'']"
  let ?M = "items_map record_key (map (canonicalRecord (io_now (sample_io Write_ok))) [sample_installed ''ums'' ''1.2''])"
  have M: "inventory_abs (io_now (sample_io Write_ok)) ?st = Some ?M"
    by (simp add: inventory_abs_def)
  have "fst (removeInstalledModule (sample_io Write_ok) ''ums'' RuntimeLinuxSystemd ?st) = Inr ()"
    by (simp add: removeInstalledModule_alt sample_io_def)
  moreover have "?M (installedModuleKey ''ums'' RuntimeLinuxSystemd) \<noteq> None"
    by (simp add: items_map_def lookup_items_def record_key_def sample_installed_def canonicalRecord_def
        normalizeInstalledModuleRecord_def installedModuleKey_def)
  ultimately show ?thesis
    using removeInstalledModule_refines [OF M sample_clock] by blast
qed

theorem upsertInstalledModule_crash_witness:
  "inventory_abs ''later'' (snd (upsertInstalledModule (sample_io (Torn_whole ''EIO''))
       (sample_installed ''ums'' ''1.2'') Missing))
     \<in> {inventory_abs ''later'' Missing,
         map_option (\<lambda>M. M(record_key (sample_installed ''ums'' ''1.2'')
             \<mapsto> canonicalRecord (io_now (sample_io (Torn_whole ''EIO''))) (sample_installed ''ums'' ''1.2'')))
           (inventory_abs (io_now (sample_io (Torn_whole ''EIO''))) Missing)}"
  using upsertInstalledModule_crash [OF sample_clock, of "Torn_whole ''EIO''" "sample_installed ''ums'' ''1.2''"
      Missing "''later''"]
  by (simp add: sample_io_def)

theorem listInstalledModules_sorted_witness:
  "\<exists>items. listInstalledModules (sample_io Write_ok)
       (Items [sample_installed ''ums'' ''1'', sample_installed ''db'' ''2'']) = Inr items
     \<and> sorted (map (\<lambda>r. (in_module r, in_runtime r)) items)"
proof -
  let ?st = "Items [sample_installed ''ums'' ''1'', sample_installed ''db'' ''2'']"
  obtain items where "listInstalledModules (sample_io Write_ok) ?st = Inr items"
    by (simp add: listInstalledModules_def loadInstalledModules_def)
  then show ?thesis using listInstalledModules_sorted by blast
qed

theorem inventory_unique_keys_witness:
  "unique_keys (snd (upsertInstalledModule (sample_io Write_ok) (sample_installed ''ums'' ''1'') Missing))"
  using inventory_unique_keys [of Missing] by (simp add: unique_keys_def)

end
