(* ===== verification/Engine.thy ===== *)
theory Engine
  imports Artifact State_Store
begin

text \<open>
  The install engine (\<^verbatim>\<open>engine.go\<close>, \<^verbatim>\<open>render.go\<close> in \<^verbatim>\<open>internal/agent/install\<close>): the checks of
  a request and of the manifest, the writers of the runtime files, the healthcheck, and
  \<^verbatim>\<open>InstallModule\<close>, which composes them with the bundle cache and the rollback.  The JSON
  decoder, the template engine and the probes of the healthcheck are parameters.
\<close>

subsection \<open>Checks\<close>

definition validateInstallRequest :: "policy \<Rightarrow> install_request \<Rightarrow> string + unit" where
  "validateInstallRequest installPolicy req =
     (if trim_space (ir_module req) = [] then Inl ''module is required''
      else if trim_space (ir_version req) = [] then Inl ''version is required''
      else if equal_fold (trim_space (ir_version req)) ''latest''
      then Inl ''version must be pinned to an exact release''
      else if trim_space (ir_artifact_url req) = [] then Inl ''artifact_url is required''
      else if trim_space (ir_artifact_checksum req) = [] then Inl ''artifact_checksum is required''
      else if trim_space (ir_app_host req) = [] then Inl ''app_host is required''
      else if ir_app_port req \<le> 0 \<or> 65535 < ir_app_port req then Inl ''app_port is invalid''
      else case validateInstallPolicy installPolicy req of
             Inl e \<Rightarrow> Inl (policy_error_text e)
           | Inr u \<Rightarrow> Inr u)"

definition validateManifestAgainstRequest :: "manifest \<Rightarrow> install_request \<Rightarrow> string + unit" where
  "validateManifestAgainstRequest m req =
     (if trim_space (mf_module m) \<noteq> trim_space (ir_module req) then Inl ''manifest module does not match request''
      else if trim_space (mf_version m) \<noteq> trim_space (ir_version req)
      then Inl ''manifest version does not match request''
      else Inr ())"

definition env_value :: "str_map \<Rightarrow> string \<Rightarrow> string" where
  "env_value m k = (case map_of m k of None \<Rightarrow> [] | Some v \<Rightarrow> v)"

definition validateInstallEnvAgainstManifest :: "manifest \<Rightarrow> str_map \<Rightarrow> string + unit" where
  "validateInstallEnvAgainstManifest m vars =
     (if \<not> cap_admin_rpc_bootstrap (mf_capabilities m) then Inr ()
      else if trim_space (env_value vars ''ADMIN_RPC_ENDPOINT'') = [] then Inl ''manifest requires ADMIN_RPC_ENDPOINT''
      else if trim_space (env_value vars ''ADMIN_RPC_BOOTSTRAP_TOKEN'') = []
      then Inl ''manifest requires ADMIN_RPC_BOOTSTRAP_TOKEN''
      else Inr ())"

definition of_check :: "'e + 'a \<Rightarrow> ('s, 'e, 'a) prog" where
  "of_check r = (case r of Inl e \<Rightarrow> act_fail e | Inr x \<Rightarrow> act_ret x)"

definition parseFileMode :: "string \<Rightarrow> file_mode \<Rightarrow> file_mode" where
  "parseFileMode raw fallback =
     (let v = trim_space raw in
      if v = [] then fallback
      else case parse_uint 8 32 v of None \<Rightarrow> fallback | Some n \<Rightarrow> word_of_nat n)"

definition buildModuleEndpoint :: "install_request \<Rightarrow> string" where
  "buildModuleEndpoint req =
     (let host = trim_space (ir_app_host req) in
      if host = [] \<or> ir_app_port req \<le> 0 then [] else ''https://'' @ host)"

subsection \<open>Runtime files\<close>

definition dir_of :: "string \<Rightarrow> path" where
  "dir_of p = segs (path_dir p)"

definition writeInlineFile :: "string \<times> string \<Rightarrow> (string, unit) job" where
  "writeInlineFile f =
     (let cleanPath = trim_space (fst f) in
      if cleanPath = [] then act_ret ()
      else act_bind (wrap ''create inline file dir failed: '' (os_mkdir_all (dir_of cleanPath) 0x1ED)) (\<lambda>_.
           wrap ''write inline file failed: '' (os_write_file (segs cleanPath) (snd f) 0x180)))"

definition writeInlineFiles :: "str_map \<Rightarrow> (string, unit) job" where
  "writeInlineFiles files = act_each writeInlineFile files"

definition drop_newlines :: "string \<Rightarrow> string" where
  "drop_newlines v = filter (\<lambda>c. c \<noteq> CHR 0x0D) (filter (\<lambda>c. c \<noteq> CHR 0x0A) v)"

definition envKeys :: "str_map \<Rightarrow> string list" where
  "envKeys vars = sort (remdups (filter (\<lambda>k. trim_space k \<noteq> []) (map fst vars)))"

definition envText :: "str_map \<Rightarrow> string" where
  "envText vars =
     concat (map (\<lambda>k. k @ ''='' @ drop_newlines (env_value vars k) @ [CHR 0x0A]) (envKeys vars))"

definition writeEnvFile :: "string \<Rightarrow> str_map \<Rightarrow> (string, unit) job" where
  "writeEnvFile p vars =
     (if trim_space p = [] then act_fail ''env file path is empty''
      else act_bind (wrap ''create env dir failed: '' (os_mkdir_all (dir_of p) 0x1ED)) (\<lambda>_.
           wrap ''write env file failed: '' (os_write_file (segs p) (envText vars) 0x180)))"

record template_data =
  td_module :: string
  td_version :: string
  td_app_host :: string
  td_app_port :: int
  td_binary_path :: string
  td_env_file_path :: string
  td_service_name :: string
  td_nginx_site_path :: string
  td_artifact_url :: string
  td_artifact_sha256 :: string

text \<open>A template does not parse, fails on the data, or gives a text.\<close>

datatype rendering = ParseFailed string | ExecFailed string | Rendered string

type_synonym renderer = "string \<Rightarrow> template_data \<Rightarrow> rendering"

definition renderTemplateFile :: "renderer \<Rightarrow> string \<Rightarrow> string \<Rightarrow> template_data \<Rightarrow> (string, unit) job" where
  "renderTemplateFile rd templatePath destinationPath d =
     act_bind (wrap ''read template failed: '' (os_read_file (segs (trim_space templatePath)))) (\<lambda>raw.
     case rd raw d of
       ParseFailed e \<Rightarrow> act_fail (''parse template failed: '' @ e)
     | ExecFailed e \<Rightarrow> act_fail (''render template failed: '' @ e)
     | Rendered out \<Rightarrow>
         act_bind (wrap ''create template destination dir failed: '' (os_mkdir_all (dir_of destinationPath) 0x1ED)) (\<lambda>_.
         wrap ''write rendered template failed: '' (os_write_file (segs destinationPath) out 0x1A4)))"

text \<open>A step after which, if it failed, the temporary file goes.\<close>

definition or_remove :: "path \<Rightarrow> (string, 'a) job \<Rightarrow> (string, 'a) job" where
  "or_remove tmp m os h =
     (case m os h of
        (Inl e, h1) \<Rightarrow> (Inl e, snd (os_remove tmp os h1))
      | (Inr x, h1) \<Rightarrow> (Inr x, h1))"

definition fillBinary :: "path \<Rightarrow> path \<Rightarrow> path \<Rightarrow> file_mode \<Rightarrow> (string, unit) job" where
  "fillBinary source target tmp mode =
     act_bind (wrap ''chmod installed binary temp file failed: '' (os_chmod tmp mode)) (\<lambda>_.
     act_bind (wrap ''copy installed binary failed: '' (os_read_file source)) (\<lambda>content.
     act_bind (wrap ''copy installed binary failed: '' (os_fill tmp content)) (\<lambda>_.
     act_bind (wrap ''close installed binary failed: '' os_close) (\<lambda>_.
     wrap ''replace installed binary failed: '' (os_rename tmp target)))))"

definition installBinary :: "string \<Rightarrow> string \<Rightarrow> string \<Rightarrow> (string, unit) job" where
  "installBinary sourcePath installPath modeRaw os =
     (let source = trim_space sourcePath; target = trim_space installPath in
      if source = [] \<or> target = [] then act_fail ''binary source/install path is empty''
      else act_bind (wrap ''create binary install dir failed: '' (os_mkdir_all (dir_of target) 0x1ED)) (\<lambda>_.
           act_bind (wrap ''open binary source failed: '' (os_open (segs source))) (\<lambda>_.
           act_bind (wrap ''create installed binary temp file failed: ''
             (os_temp (Reg [] (masked os 0x180)) (dir_of target) (''.'' @ path_base target @ ''.tmp-'') [])) (\<lambda>tmp.
           or_remove tmp (fillBinary (segs source) (segs target) tmp (parseFileMode modeRaw 0x1ED)))))) os"

definition installArtifactPath :: "string \<Rightarrow> string \<Rightarrow> (string, unit) job" where
  "installArtifactPath sourcePath installPath =
     (let source = trim_space sourcePath; target = trim_space installPath in
      if source = [] \<or> target = [] then act_fail ''asset source/install path is empty''
      else act_bind (wrap ''stat asset source failed: '' (os_stat (segs source))) (\<lambda>info.
           case info of
             Dir _ \<Rightarrow>
               act_bind (act_try (os_remove_all (segs target))) (\<lambda>r.
               case r of
                 Inl e \<Rightarrow>
                   if e \<noteq> Not_exist then act_fail (''remove existing asset dir failed: '' @ os_text e)
                   else wrap ''copy asset dir failed: '' (copyDir (segs source) (segs target))
               | Inr _ \<Rightarrow> wrap ''copy asset dir failed: '' (copyDir (segs source) (segs target)))
           | Reg _ m \<Rightarrow> wrap ''copy asset file failed: '' (copyFile (segs source) (segs target) m)
           | Special \<Rightarrow> act_fail (''asset source is unsupported: '' @ source)))"

subsection \<open>Healthcheck\<close>

abbreviation second :: int where "second \<equiv> 1000000000"

definition minDuration :: "int \<Rightarrow> int \<Rightarrow> int" where
  "minDuration a b = (if a \<le> 0 then b else if b \<le> 0 then a else if a < b then a else b)"

text \<open>
  What the installer is given from outside: the JSON decoder, the template engine, the answers
  to a dial and to a request (indexed by the number of calls so far, with the address and the
  timeout), the text of a URL error, the order in which a map is ranged over, and the directory
  for temporary files.
\<close>

record installer =
  ins_engine :: engine
  ins_untar :: untar
  ins_decode :: "string \<Rightarrow> manifest_file"
  ins_render :: renderer
  ins_dial :: "nat \<Rightarrow> string \<Rightarrow> int \<Rightarrow> string option"
  ins_get :: "nat \<Rightarrow> string \<Rightarrow> int \<Rightarrow> string + int"
  ins_url_error :: "string \<Rightarrow> string"
  ins_range :: "nat \<Rightarrow> str_map \<Rightarrow> str_map"
  ins_backups :: "backup list \<Rightarrow> backup list"
  ins_tmp_dir :: string

text \<open>A probe is recorded and takes some time; a sleep takes at least its duration.\<close>

definition probed :: "string \<Rightarrow> os \<Rightarrow> host \<Rightarrow> host" where
  "probed address os h =
     h\<lparr>h_probes := h_probes h @ [address], h_clock := h_clock h + int (os_delay os (h_tick h)),
       h_tick := Suc (h_tick h)\<rparr>"

definition dialContext :: "installer \<Rightarrow> string \<Rightarrow> int \<Rightarrow> (string, unit) job" where
  "dialContext ins address timeout os h =
     ((case ins_dial ins (h_tick h) address timeout of None \<Rightarrow> Inr () | Some e \<Rightarrow> Inl e), probed address os h)"

definition httpGet :: "installer \<Rightarrow> string \<Rightarrow> int \<Rightarrow> (string, int) job" where
  "httpGet ins u timeout os h = (ins_get ins (h_tick h) u timeout, probed u os h)"

definition sleep :: "int \<Rightarrow> os \<Rightarrow> host \<Rightarrow> host" where
  "sleep d os h = h\<lparr>h_clock := h_clock h + d + int (os_delay os (h_tick h)), h_tick := Suc (h_tick h)\<rparr>"

abbreviation poll_pause :: int where "poll_pause \<equiv> 500000000"

definition checkSystemdServiceActive :: "string \<Rightarrow> os \<Rightarrow> host \<Rightarrow> string option \<times> host" where
  "checkSystemdServiceActive rawName os h =
     (let serviceName = trim_space rawName in
      if serviceName = [] then (Some ''service name is required for healthcheck'', h)
      else run_command [''systemctl'', ''is-active'', ''--quiet'', serviceName] os h)"

definition last_error :: "string \<Rightarrow> string option \<Rightarrow> string" where
  "last_error dflt e = (case e of None \<Rightarrow> dflt | Some s \<Rightarrow> s)"

lemma clock_probed: "h_clock h \<le> h_clock (probed a os h)"
  by (simp add: probed_def)

lemma clock_sleep: "h_clock h + d \<le> h_clock (sleep d os h)"
  by (simp add: sleep_def)

lemma clock_command: "h_clock h \<le> h_clock (snd (run_command a os h))"
  by (simp add: run_command_def)

lemma clock_active: "h_clock h \<le> h_clock (snd (checkSystemdServiceActive n os h))"
  using clock_command by (simp add: checkSystemdServiceActive_def Let_def)

function tcpLoop ::
    "installer \<Rightarrow> string \<Rightarrow> int \<Rightarrow> int \<Rightarrow> string option \<Rightarrow> os \<Rightarrow> host \<Rightarrow> (string + unit) \<times> host" where
  "tcpLoop ins address timeout deadline lastErr os h =
     (if h_clock h < deadline
      then (case dialContext ins address (minDuration (2 * second) timeout) os h of
              (Inr _, h1) \<Rightarrow> (Inr (), h1)
            | (Inl e, h1) \<Rightarrow> tcpLoop ins address timeout deadline (Some e) os (sleep poll_pause os h1))
      else (Inl (''module tcp healthcheck failed: '' @ last_error ''dial timeout'' lastErr), h))"
  by pat_completeness auto
termination
proof (relation "measure (\<lambda>(ins, address, timeout, deadline, lastErr, os, h). nat (deadline - h_clock h))", goal_cases)
  case (2 ins address timeout deadline lastErr os h r h1 e)
  then have "h_clock h \<le> h_clock h1" using clock_probed by (auto simp: dialContext_def)
  then show ?case using 2(1) clock_sleep [of h1 poll_pause os] by simp
qed simp

declare tcpLoop.simps [simp del]

fun checkPaths ::
    "installer \<Rightarrow> string \<Rightarrow> int \<Rightarrow> string option \<Rightarrow> string list \<Rightarrow> os \<Rightarrow> host \<Rightarrow> (string option + unit) \<times> host" where
  "checkPaths ins baseURL timeout lastErr [] os h = (Inl lastErr, h)"
| "checkPaths ins baseURL timeout lastErr (path # paths) os h =
     (let target = trim_space path in
      if target = [] then checkPaths ins baseURL timeout lastErr paths os h
      else if url_parse (baseURL @ target) = None
      then checkPaths ins baseURL timeout (Some (ins_url_error ins (baseURL @ target))) paths os h
      else case httpGet ins (baseURL @ target) (minDuration (3 * second) timeout) os h of
             (Inr status, h1) \<Rightarrow>
               if 200 \<le> status \<and> status < 500 then (Inr (), h1)
               else checkPaths ins baseURL timeout
                      (Some (''unexpected status '' @ show_int status @ '' from '' @ target)) paths os h1
           | (Inl e, h1) \<Rightarrow>
               checkPaths ins baseURL timeout (Some (''request '' @ target @ '' failed: '' @ e)) paths os h1)"

lemma clock_paths: "h_clock h \<le> h_clock (snd (checkPaths ins b t le ps os h))"
proof (induction ps arbitrary: le h)
  case (Cons p ps)
  show ?case using Cons clock_probed [of h _ os]
    by (auto simp: Let_def httpGet_def split: sum.splits intro: order_trans)
qed simp

lemma active_step: "checkSystemdServiceActive n os h = (r, h1) \<Longrightarrow> h_clock h \<le> h_clock h1"
  using clock_active [of h n os] by simp

lemma paths_step: "checkPaths ins b t le ps os h = (r, h1) \<Longrightarrow> h_clock h \<le> h_clock h1"
  using clock_paths [of h ins b t le ps os] by simp

text \<open>\<^verbatim>\<open>time.Duration.String\<close> of a whole number of seconds.\<close>

definition show_seconds :: "nat \<Rightarrow> string" where
  "show_seconds n =
     (if n < 60 then show_nat n @ ''s''
      else if n < 3600 then show_nat (n div 60) @ ''m'' @ show_nat (n mod 60) @ ''s''
      else show_nat (n div 3600) @ ''h'' @ show_nat (n mod 3600 div 60) @ ''m'' @ show_nat (n mod 60) @ ''s'')"

function httpLoop ::
    "installer \<Rightarrow> string \<Rightarrow> string \<Rightarrow> string list \<Rightarrow> int \<Rightarrow> int \<Rightarrow> string option \<Rightarrow> os \<Rightarrow> host
       \<Rightarrow> (string + unit) \<times> host" where
  "httpLoop ins serviceName baseURL paths timeout deadline lastErr os h =
     (if h_clock h < deadline
      then (case checkSystemdServiceActive serviceName os h of
              (Some e, h1) \<Rightarrow>
                httpLoop ins serviceName baseURL paths timeout deadline
                  (Some (''service is not active: '' @ e)) os (sleep poll_pause os h1)
            | (None, h1) \<Rightarrow>
                (case checkPaths ins baseURL timeout lastErr paths os h1 of
                   (Inr _, h2) \<Rightarrow> (Inr (), h2)
                 | (Inl le, h2) \<Rightarrow>
                     httpLoop ins serviceName baseURL paths timeout deadline le os (sleep poll_pause os h2)))
      else (Inl (''module healthcheck failed: '' @
                 last_error (''timeout after '' @ show_seconds (nat (timeout div second))) lastErr), h))"
  by pat_completeness auto
termination
  by (relation "measure (\<lambda>(ins, n, b, ps, timeout, deadline, le, os, h). nat (deadline - h_clock h))")
    (auto simp: sleep_def dest!: active_step [OF sym] paths_step [OF sym])

declare httpLoop.simps [simp del]

definition orDefault :: "string \<Rightarrow> string \<Rightarrow> string" where
  "orDefault dflt s = (if s = [] then dflt else s)"

definition healthTimeout :: "manifest \<Rightarrow> int" where
  "healthTimeout m =
     (if 0 < hc_timeout_seconds (mf_healthcheck m) then hc_timeout_seconds (mf_healthcheck m) * second
      else 8 * second)"

definition runManifestHealthcheck :: "installer \<Rightarrow> manifest \<Rightarrow> install_request \<Rightarrow> (string, string) job" where
  "runManifestHealthcheck ins m req os h =
     (let hc = mf_healthcheck m;
          timeout = healthTimeout m;
          host = orDefault ''127.0.0.1'' (trim_space (hc_host hc));
          kind = normalizeHealthcheckType hc
      in if kind = ''systemd''
         then (case checkSystemdServiceActive (svc_name (mf_service m)) os h of
                 (Some e, h1) \<Rightarrow> (Inl e, h1)
               | (None, h1) \<Rightarrow> (Inr ModuleHealthHealthy, h1))
         else case (if kind = ''tcp''
                    then tcpLoop ins (join_host_port host (show_int (ir_app_port req)))
                           timeout (h_clock h + timeout) None os h
                    else httpLoop ins (svc_name (mf_service m))
                           (orDefault ''https'' (trim_space (hc_scheme hc)) @ ''://'' @ host @ '':'' @
                            show_int (ir_app_port req))
                           (hc_paths hc) timeout (h_clock h + timeout) None os h) of
                (Inl e, h1) \<Rightarrow> (Inl e, h1)
              | (Inr _, h1) \<Rightarrow> (Inr ModuleHealthHealthy, h1))"

subsection \<open>Installing a module\<close>

text \<open>Steps that may capture paths run on the rollback beside the host.\<close>

type_synonym 'a step = "(rollback \<times> host, string, 'a) prog"

definition on_host :: "(string, 'a) job \<Rightarrow> 'a step" where
  "on_host m os s = (case m os (snd s) of (r, h) \<Rightarrow> (r, (fst s, h)))"

definition capture :: "string \<Rightarrow> unit step" where
  "capture p os s = (case Capture p os s of (None, s1) \<Rightarrow> (Inr (), s1) | (Some e, s1) \<Rightarrow> (Inl e, s1))"

definition log_stage :: "install_stage \<Rightarrow> string \<Rightarrow> (string, unit) job" where
  "log_stage stage message os h = (Inr (), logInstallStage stage message h)"

definition run_cmd :: "string list \<Rightarrow> (string, unit) job" where
  "run_cmd args os h = (case run_command args os h of (None, h1) \<Rightarrow> (Inr (), h1) | (Some e, h1) \<Rightarrow> (Inl e, h1))"

definition templateData :: "install_request \<Rightarrow> manifest \<Rightarrow> template_data" where
  "templateData req m =
     \<lparr>td_module = trim_space (ir_module req), td_version = trim_space (ir_version req),
      td_app_host = trim_space (ir_app_host req), td_app_port = ir_app_port req,
      td_binary_path = trim_space (bin_install_path (mf_binary m)),
      td_env_file_path = trim_space (mf_env_path m),
      td_service_name = trim_space (svc_name (mf_service m)),
      td_nginx_site_path = trim_space (ngx_site_path (mf_nginx m)),
      td_artifact_url = trim_space (ir_artifact_url req),
      td_artifact_sha256 = trim_space (ir_artifact_checksum req)\<rparr>"

definition installInline :: "installer \<Rightarrow> install_request \<Rightarrow> unit step" where
  "installInline ins req os s =
     (if ir_files req = [] then (Inr (), s)
      else act_bind (act_each capture (map fst (ins_range ins (h_tick (snd s)) (ir_files req)))) (\<lambda>_ os s1.
           on_host (writeInlineFiles (ins_range ins (h_tick (snd s1)) (ir_files req))) os s1) os s)"

definition installEnv :: "install_request \<Rightarrow> manifest \<Rightarrow> unit step" where
  "installEnv req m =
     (if trim_space (mf_env_path m) = [] then act_ret ()
      else act_bind (capture (mf_env_path m)) (\<lambda>_. on_host (writeEnvFile (mf_env_path m) (ir_env req))))"

definition installProgram :: "manifest \<Rightarrow> string \<Rightarrow> unit step" where
  "installProgram m unpackDir =
     act_bind (capture (bin_install_path (mf_binary m))) (\<lambda>_.
     on_host (installBinary (path_join [unpackDir, bin_path (mf_binary m)])
       (bin_install_path (mf_binary m)) (bin_mode (mf_binary m))))"

definition installAsset :: "string \<Rightarrow> asset_spec \<Rightarrow> unit step" where
  "installAsset unpackDir a =
     (let installPath = trim_space (asset_install_path a) in
      if installPath = [] then act_ret ()
      else act_bind (capture installPath) (\<lambda>_.
           on_host (installArtifactPath (path_join [unpackDir, asset_path a]) installPath)))"

definition assetPaths :: "manifest \<Rightarrow> string list" where
  "assetPaths m = filter (\<lambda>p. p \<noteq> []) (map (\<lambda>a. trim_space (asset_install_path a)) (mf_assets m))"

definition installUnit :: "installer \<Rightarrow> manifest \<Rightarrow> string \<Rightarrow> template_data \<Rightarrow> unit step" where
  "installUnit ins m unpackDir d =
     act_bind (capture (svc_unit_path (mf_service m))) (\<lambda>_.
     on_host (renderTemplateFile (ins_render ins) (path_join [unpackDir, svc_template_path (mf_service m)])
       (svc_unit_path (mf_service m)) d))"

definition installSite :: "installer \<Rightarrow> manifest \<Rightarrow> string \<Rightarrow> template_data \<Rightarrow> unit step" where
  "installSite ins m unpackDir d =
     (if \<not> ngx_enabled (mf_nginx m) then act_ret ()
      else act_bind (capture (ngx_site_path (mf_nginx m))) (\<lambda>_.
           on_host (renderTemplateFile (ins_render ins) (path_join [unpackDir, ngx_template_path (mf_nginx m)])
             (ngx_site_path (mf_nginx m)) d)))"

definition writeRuntimeFiles :: "installer \<Rightarrow> install_request \<Rightarrow> manifest \<Rightarrow> string \<Rightarrow> unit step" where
  "writeRuntimeFiles ins req m unpackDir =
     act_bind (installInline ins req) (\<lambda>_.
     act_bind (installEnv req m) (\<lambda>_.
     act_bind (installProgram m unpackDir) (\<lambda>_.
     act_bind (act_each (installAsset unpackDir) (mf_assets m)) (\<lambda>_.
     act_bind (installUnit ins m unpackDir (templateData req m)) (\<lambda>_.
     installSite ins m unpackDir (templateData req m))))))"

definition applyCommands :: "manifest \<Rightarrow> string list list" where
  "applyCommands m =
     [[''systemctl'', ''daemon-reload''],
      [''systemctl'', ''enable'', svc_name (mf_service m)],
      [''systemctl'', ''restart'', svc_name (mf_service m)]] @
     (if ngx_enabled (mf_nginx m) then [[''nginx'', ''-t''], [''systemctl'', ''reload'', ''nginx'']] else [])"

definition installResult :: "install_request \<Rightarrow> manifest \<Rightarrow> string \<Rightarrow> install_result" where
  "installResult req m health =
     \<lparr>is_api_version = InstallerRPCVersionV1, is_module = trim_space (ir_module req),
      is_version = trim_space (ir_version req), is_runtime = RuntimeLinuxSystemd,
      is_service_name = trim_space (svc_name (mf_service m)),
      is_unit_path = trim_space (svc_unit_path (mf_service m)),
      is_binary_path = trim_space (bin_install_path (mf_binary m)),
      is_env_file_path = trim_space (mf_env_path m),
      is_nginx_site_path = trim_space (ngx_site_path (mf_nginx m)),
      is_asset_paths = normalizeInstallAssetPaths (assetPaths m),
      is_endpoint = buildModuleEndpoint req, is_status = InstallStatusInstalled, is_health = health,
      is_manifest_schema_version = mf_schema_version m, is_capabilities = mf_capabilities m\<rparr>"

definition installManifest :: "installer \<Rightarrow> install_request \<Rightarrow> manifest \<Rightarrow> string \<Rightarrow> install_result step" where
  "installManifest ins req m unpackDir =
     act_bind (of_check (validateManifestAgainstRequest m req)) (\<lambda>_.
     act_bind (of_check (validateInstallEnvAgainstManifest m (ir_env req))) (\<lambda>_.
     act_bind (on_host (log_stage StageRender ''writing runtime files'')) (\<lambda>_.
     act_bind (writeRuntimeFiles ins req m unpackDir) (\<lambda>_.
     act_bind (on_host (log_stage StageApply ''applying systemd/nginx changes'')) (\<lambda>_.
     act_bind (on_host (act_each run_cmd (applyCommands m))) (\<lambda>_.
     act_bind (on_host (log_stage StageHealth ''running healthcheck'')) (\<lambda>_.
     act_bind (on_host (runManifestHealthcheck ins m req)) (\<lambda>health.
     act_bind (on_host (log_stage StageCompleted ''module install completed'')) (\<lambda>_.
     act_ret (installResult req m health))))))))))"

text \<open>The deferred function: once there is a manifest, an error restores what was captured.\<close>

definition withRollback :: "installer \<Rightarrow> string \<Rightarrow> manifest \<Rightarrow> 'a step \<Rightarrow> (string, 'a) job" where
  "withRollback ins root m steps os h =
     (case steps os (newInstallRollback root, h) of
        (Inr x, (_, h1)) \<Rightarrow> (Inr x, h1)
      | (Inl e, (r, h1)) \<Rightarrow>
          (case Restore (ins_backups ins) m os r
                  (logInstallStage StageRollback ''rolling back partial install'' h1) of
             (errs, h2) \<Rightarrow>
               (Inl (if errs = [] then e
                     else e @ CHR 0x0A # ''rollback failed: '' @ join [CHR 0x0A] errs), h2)))"

definition readManifest :: "installer \<Rightarrow> string \<Rightarrow> (string, manifest) job" where
  "readManifest ins rootDir os h =
     (case os_read_file (segs (path_join [trim_space rootDir, ''manifest.json''])) os h of
        (r, h1) \<Rightarrow>
          (case loadManifest (case r of Inl e \<Rightarrow> MfUnreadable (os_text e) | Inr raw \<Rightarrow> ins_decode ins raw) of
             Inl e \<Rightarrow> (Inl (manifest_error_text e), h1)
           | Inr m \<Rightarrow> (Inr m, h1)))"

definition logBundle :: "bool \<Rightarrow> (string, unit) job" where
  "logBundle cached =
     (if cached
      then act_bind (log_stage StageDownload ''using cached artifact bundle'') (\<lambda>_.
           log_stage StageVerify ''verified cached artifact checksum'')
      else act_bind (log_stage StageDownload ''downloaded artifact bundle'') (\<lambda>_.
           log_stage StageVerify ''verified downloaded artifact checksum''))"

definition fetchBundle :: "installer \<Rightarrow> policy \<Rightarrow> install_request \<Rightarrow> string \<Rightarrow> (string, manifest) job" where
  "fetchBundle ins p req unpackDir =
     act_bind (wrap ''create unpack dir failed: '' (os_mkdir_all (segs unpackDir) 0x1ED)) (\<lambda>_.
     act_bind (log_stage StageDownload ''preparing artifact bundle'') (\<lambda>_.
     act_bind (ensureArtifactAvailable (ins_engine ins) (pol_hosts (clonePolicy p))
         (ir_artifact_url req) (ir_artifact_checksum req)) (\<lambda>(archivePath, cached).
     act_bind (logBundle cached) (\<lambda>_.
     act_bind (log_stage StageUnpack ''unpacking artifact bundle'') (\<lambda>_.
     act_bind (unpackTarGz (ins_untar ins) archivePath unpackDir) (\<lambda>_.
     readManifest ins unpackDir))))))"

definition InstallModule :: "installer \<Rightarrow> policy \<Rightarrow> install_request \<Rightarrow> (string, install_result) job" where
  "InstallModule ins p req os =
     act_bind (of_check (validateInstallerAPIVersion (ir_api_version req))) (\<lambda>v.
     act_bind (of_check (validateInstallRequest p (req\<lparr>ir_api_version := v\<rparr>))) (\<lambda>_.
     act_bind (log_stage StageValidate ''validated install request'') (\<lambda>_.
     act_bind (wrap ''create installer workdir failed: ''
         (os_temp (Dir (dir_masked os 0x1C0)) (segs (ins_tmp_dir ins)) ''aurora-agent-install-'' [])) (\<lambda>workDir.
     act_finally
       (act_bind (fetchBundle ins p req (path_join [path_text workDir, ''bundle''])) (\<lambda>m.
        withRollback ins (path_join [path_text workDir, ''rollback'']) m
          (installManifest ins req m (path_join [path_text workDir, ''bundle'']))))
       (os_remove_all workDir))))) os"

end
