(* ===== verification/Install_Trace.thy ===== *)
theory Install_Trace
  imports Engine
begin

text \<open>
  What an install tells the outside: the commands it runs, the stages it logs, the probes it
  sends.  The healthcheck stays within the budget of its timeout, and a successful install ran
  exactly the commands of the manifest, in order, after every earlier stage had passed.
\<close>

subsection \<open>Steps that only write files\<close>

sublocale fs_blind \<subseteq> on: host_order "\<lambda>s s'. R (snd s) (snd (s' :: rollback \<times> host))"
  by unfold_locales (auto intro: R_refl R_trans)

context fs_blind
begin

lemma moves_writers:
  "moves R os (writeInlineFiles fs)" "moves R os (writeEnvFile p vars)"
  "moves R os (renderTemplateFile rd t p d)" "moves R os (installArtifactPath s p)"
proof -
  have "moves R os (writeInlineFile f)" for f
    unfolding writeInlineFile_def Let_def by (auto intro!: job_rules)
  then show "moves R os (writeInlineFiles fs)"
    unfolding writeInlineFiles_def by (intro moves_each)
  show "moves R os (writeEnvFile p vars)"
    unfolding writeEnvFile_def by (auto intro!: job_rules)
  show "moves R os (renderTemplateFile rd t p d)"
    unfolding renderTemplateFile_def by (auto intro!: job_rules split: rendering.splits)
  show "moves R os (installArtifactPath s p)"
    unfolding installArtifactPath_def Let_def
    by (auto intro!: job_rules moves_copyDir moves_copyFile split: node.splits sum.splits)
qed

lemma moves_or_remove: "moves R os m \<Longrightarrow> moves R os (or_remove t m)"
  unfolding moves_def or_remove_def case_prod_beta
  using moves_os(8) by (auto simp: moves_def split: sum.splits intro: R_trans)

lemma moves_binary: "moves R os (installBinary s p mode)"
proof -
  have "moves R os (or_remove t (fillBinary (segs a) (segs b) t k))" for a b t k
    unfolding fillBinary_def by (intro moves_or_remove job_rules)
  then have "moves R os (act_bind (wrap e1 (os_mkdir_all d 0x1ED)) (\<lambda>_.
      act_bind (wrap e2 (os_open q)) (\<lambda>_.
      act_bind (wrap e3 (os_temp n d x y)) (\<lambda>t. or_remove t (fillBinary (segs a) (segs b) t k)))))"
    for e1 d e2 q e3 n x y a b k
    by (intro job_rules)
  then show ?thesis
    by (simp add: moves_def installBinary_def Let_def moves_fail [unfolded moves_def, rule_format])
qed

lemma on_host_moves: "moves R os m \<Longrightarrow> moves (\<lambda>s s'. R (snd s) (snd s')) os (on_host m)"
  unfolding moves_def on_host_def case_prod_beta by simp

lemma capture_moves: "moves (\<lambda>s s'. R (snd s) (snd s')) os (capture p)"
  unfolding moves_def capture_def case_prod_beta
  using R_Capture [of _ p os] by (simp split: option.splits) (metis snd_conv)

lemma moves_runtime: "moves (\<lambda>s s'. R (snd s) (snd s')) os (writeRuntimeFiles ins req m d)"
proof -
  note rules = on.moves_rules on_host_moves capture_moves moves_writers moves_binary
  have "moves (\<lambda>s s'. R (snd s) (snd s')) os (\<lambda>os s1. on_host (writeInlineFiles (g s1)) os s1)" for g
    using on_host_moves [OF moves_writers(1)] by (simp add: moves_def)
  then have "moves (\<lambda>s s'. R (snd s) (snd s')) os (act_bind (act_each capture ps)
      (\<lambda>_ os s1. on_host (writeInlineFiles (g s1)) os s1))" for ps g
    by (intro on.moves_bind on.moves_each capture_moves)
  then have "moves (\<lambda>s s'. R (snd s) (snd s')) os (installInline ins req)"
    by (simp add: moves_def installInline_def R_refl)
  then show ?thesis
    unfolding writeRuntimeFiles_def installEnv_def installProgram_def installAsset_def installUnit_def
      installSite_def Let_def
    by (auto intro!: rules)
qed

end

definition quiet :: "host \<Rightarrow> host \<Rightarrow> bool" where
  "quiet h h' \<longleftrightarrow> h_cmds h' = h_cmds h \<and> h_logs h' = h_logs h \<and> h_probes h' = h_probes h"

interpretation still: download_order quiet hosts for hosts
  by unfold_locales (auto simp: quiet_def)


subsection \<open>The healthcheck keeps its budget\<close>

text \<open>The polls that fit before a deadline, and what a job sends and runs at most.\<close>

definition polls :: "int \<Rightarrow> nat" where
  "polls d = nat ((d + poll_pause - 1) div poll_pause)"

definition probing :: "nat \<Rightarrow> nat \<Rightarrow> host \<Rightarrow> host \<Rightarrow> bool" where
  "probing p c h h' \<longleftrightarrow> length (h_probes h') \<le> length (h_probes h) + p \<and>
     length (h_cmds h') \<le> length (h_cmds h) + c \<and> h_fs h' = h_fs h"

lemma probing_trans:
  "probing p c h h1 \<Longrightarrow> probing p' c' h1 h2 \<Longrightarrow> p + p' \<le> p2 \<Longrightarrow> c + c' \<le> c2 \<Longrightarrow> probing p2 c2 h h2"
  by (simp add: probing_def)

lemma probing_mono: "probing p c h h' \<Longrightarrow> p \<le> p' \<Longrightarrow> c \<le> c' \<Longrightarrow> probing p' c' h h'"
  by (simp add: probing_def)

lemma polls_step:
  assumes "t < deadline" "t + poll_pause \<le> t'"
  shows "Suc (polls (deadline - t')) \<le> polls (deadline - t)"
proof -
  have "(deadline - t' + poll_pause - 1) div poll_pause \<le> (deadline - t - 1) div poll_pause"
    by (rule zdiv_mono1) (use assms in auto)
  moreover have "(deadline - t + poll_pause - 1) div poll_pause = (deadline - t - 1) div poll_pause + 1"
    using div_add_self2 [of poll_pause "deadline - t - 1"] by (simp add: algebra_simps)
  moreover have "0 \<le> (deadline - t - 1) div poll_pause"
    using assms(1) by (simp add: pos_imp_zdiv_nonneg_iff)
  ultimately show ?thesis by (simp add: polls_def Suc_nat_eq_nat_zadd1)
qed

lemma probing_sleep: "probing 0 0 h (sleep d os h)"
  by (simp add: probing_def sleep_def)

lemma probing_active: "checkSystemdServiceActive n os h = (r, h1) \<Longrightarrow> probing 0 1 h h1"
  by (auto simp: probing_def checkSystemdServiceActive_def run_command_def Let_def split: if_splits)

lemma probing_paths: "checkPaths ins b t le ps os h = (r, h1) \<Longrightarrow> probing (length ps) 0 h h1"
proof (induction ps arbitrary: le h)
  case Nil
  then show ?case by (simp add: probing_def)
next
  case (Cons p ps)
  have one: "probing (Suc 0) 0 h (probed a os h)" for a
    by (simp add: probing_def probed_def)
  have skip: "probing (Suc (length ps)) 0 h h1" if "checkPaths ins b t le' ps os h = (r, h1)" for le'
    using Cons.IH [OF that] by (rule probing_mono) simp_all
  have ask: "probing (Suc (length ps)) 0 h h1" if "checkPaths ins b t le' ps os (probed a os h) = (r, h1)" for le' a
    by (rule probing_trans [OF one Cons.IH [OF that]]) simp_all
  have found: "probing (Suc (length ps)) 0 h (probed a os h)" for a
    by (rule probing_mono [OF one]) simp_all
  show ?case
    using Cons.prems skip ask found by (auto simp: Let_def httpGet_def split: if_splits sum.splits)
qed

lemma tcp_polls: "probing (polls (deadline - h_clock h)) 0 h (snd (tcpLoop ins a t deadline le os h))"
proof (induction ins a t deadline le os h rule: tcpLoop.induct)
  case (1 ins a t deadline le os h)
  show ?case
  proof (cases "h_clock h < deadline")
    case False
    then show ?thesis by (simp add: tcpLoop.simps probing_def)
  next
    case True
    obtain r h1 where r: "dialContext ins a (minDuration (2 * second) t) os h = (r, h1)" by fastforce
    have h1: "h1 = probed a os h" using r by (simp add: dialContext_def)
    have p1: "probing 1 0 h h1" by (simp add: h1 probing_def probed_def)
    have c: "h_clock h + poll_pause \<le> h_clock (sleep poll_pause os h1)"
      using clock_probed [of h a os] clock_sleep [of h1 poll_pause os] by (simp add: h1)
    note s = polls_step [OF True c]
    show ?thesis
    proof (cases r)
      case (Inl e)
      have "probing (polls (deadline - h_clock (sleep poll_pause os h1))) 0 (sleep poll_pause os h1)
          (snd (tcpLoop ins a t deadline (Some e) os (sleep poll_pause os h1)))"
        by (rule 1) (use True r Inl in auto)
      with probing_trans [OF p1 probing_sleep]
      have "probing (polls (deadline - h_clock h)) 0 h
          (snd (tcpLoop ins a t deadline (Some e) os (sleep poll_pause os h1)))"
        by (rule probing_trans) (use s in auto)
      then show ?thesis by (subst tcpLoop.simps) (simp add: True r [simplified] Inl)
    next
      case (Inr u)
      have "probing (polls (deadline - h_clock h)) 0 h h1"
        by (rule probing_mono [OF p1]) (use s in auto)
      then show ?thesis by (subst tcpLoop.simps) (simp add: True r [simplified] Inr)
    qed
  qed
qed

lemma http_polls:
  "probing (polls (deadline - h_clock h) * length ps) (polls (deadline - h_clock h)) h
     (snd (httpLoop ins n b ps t deadline le os h))"
proof (induction ins n b ps t deadline le os h rule: httpLoop.induct)
  case (1 ins n b ps t deadline le os h)
  let ?P = "\<lambda>h. polls (deadline - h_clock h)"
  show ?case
  proof (cases "h_clock h < deadline")
    case False
    then show ?thesis by (simp add: httpLoop.simps probing_def)
  next
    case True
    obtain r h1 where r: "checkSystemdServiceActive n os h = (r, h1)" by fastforce
    have next': "probing (?P h * length ps) (?P h) h h'"
      if p: "probing (length ps) 1 h h2" and c: "h_clock h \<le> h_clock h2"
        and I: "probing (?P (sleep poll_pause os h2) * length ps) (?P (sleep poll_pause os h2)) (sleep poll_pause os h2) h'"
      for h2 h'
    proof -
      have s: "Suc (?P (sleep poll_pause os h2)) \<le> ?P h"
        by (rule polls_step [OF True]) (use c clock_sleep [of h2 poll_pause os] in simp)
      have m: "Suc (?P (sleep poll_pause os h2)) * length ps \<le> ?P h * length ps"
        using s by (rule mult_le_mono1)
      show ?thesis
        by (rule probing_trans [OF probing_trans [OF p probing_sleep order.refl order.refl] I])
          (use s m in auto)
    qed
    show ?thesis
    proof (cases r)
      case (Some e)
      have "probing (?P h * length ps) (?P h) h
          (snd (httpLoop ins n b ps t deadline (Some (''service is not active: '' @ e)) os (sleep poll_pause os h1)))"
        by (rule next' [OF probing_mono [OF probing_active [OF r]] active_step [OF r] 1(2)])
          (use True r Some in auto)
      then show ?thesis by (subst httpLoop.simps) (simp add: True r Some)
    next
      case None
      obtain q h2 where q: "checkPaths ins b t le ps os h1 = (q, h2)" by fastforce
      have p: "probing (length ps) 1 h h2"
        by (rule probing_trans [OF probing_active [OF r] probing_paths [OF q]]) auto
      have c: "h_clock h \<le> h_clock h2"
        using active_step [OF r] paths_step [OF q] by linarith
      show ?thesis
      proof (cases q)
        case (Inl le')
        have "probing (?P h * length ps) (?P h) h
            (snd (httpLoop ins n b ps t deadline le' os (sleep poll_pause os h2)))"
          by (rule next' [OF p c 1(1)]) (use True r None q Inl in auto)
        then show ?thesis by (subst httpLoop.simps) (simp add: True r None q Inl)
      next
        case (Inr u)
        have "Suc 0 \<le> ?P h" using polls_step [OF True order.refl] by simp
        then have "1 * length ps \<le> ?P h * length ps" by (intro mult_le_mono1) simp
        then have "probing (?P h * length ps) (?P h) h h2"
          by (intro probing_mono [OF p]) (use \<open>Suc 0 \<le> ?P h\<close> in auto)
        then show ?thesis by (subst httpLoop.simps) (simp add: True r None q Inr)
      qed
    qed
  qed
qed

lemma probing_healthcheck:
  "probing (polls (healthTimeout m) * max 1 (length (hc_paths (mf_healthcheck m))))
     (max 1 (polls (healthTimeout m))) h (snd (runManifestHealthcheck ins m req os h))"
proof -
  let ?n = "polls (healthTimeout m)" and ?ps = "hc_paths (mf_healthcheck m)"
  let ?B = "probing (?n * max 1 (length ?ps)) (max 1 ?n) h"
  have m: "?n * 1 \<le> ?n * max 1 (length ?ps)" "?n * length ?ps \<le> ?n * max 1 (length ?ps)"
    by (intro mult_le_mono; simp)+
  have tcp: "?B (snd (tcpLoop ins a t (h_clock h + healthTimeout m) None os h))" for a t
    by (rule probing_mono [OF tcp_polls]) (use m in auto)
  have http: "?B (snd (httpLoop ins n b ?ps t (h_clock h + healthTimeout m) None os h))" for n b t
    by (rule probing_mono [OF http_polls]) (use m in auto)
  have systemd: "?B (snd (checkSystemdServiceActive n os h))" for n
    using probing_active [of n os h] by (metis prod.collapse probing_mono max.cobounded1 zero_le)
  show "?B (snd (runManifestHealthcheck ins m req os h))"
    using tcp http systemd unfolding runManifestHealthcheck_def Let_def case_prod_beta
    by (simp split: option.splits sum.splits)
qed

text \<open>
  C12: The healthcheck ends, whatever the service and the network answer: with one poll every
  half second of its timeout it sends at most that many dials, or that many rounds of
  requests over the manifest's paths, asks systemd at most once a poll (once for a systemd
  check), and changes no file.
\<close>

theorem healthcheck_bounded:
  "probing (polls (healthTimeout m) * max 1 (length (hc_paths (mf_healthcheck m))))
     (max 1 (polls (healthTimeout m))) h (snd (runManifestHealthcheck ins m req os h)) \<and>
   (0 < hc_timeout_seconds (mf_healthcheck m) \<and>
      polls (healthTimeout m) = 2 * nat (hc_timeout_seconds (mf_healthcheck m)) \<or>
    polls (healthTimeout m) = 16)"
proof -
  have "polls (s * second) = 2 * nat s" if "0 < s" for s
  proof -
    have "(s * second + poll_pause - 1) div poll_pause = 2 * s" by simp
    then show ?thesis using that by (simp add: polls_def nat_mult_distrib)
  qed
  then show ?thesis using probing_healthcheck by (auto simp: healthTimeout_def polls_def)
qed


subsection \<open>What a successful install has done\<close>

definition says :: "string list list \<Rightarrow> install_stage list \<Rightarrow> host \<Rightarrow> host \<Rightarrow> bool" where
  "says cs ss h h' \<longleftrightarrow> h_cmds h' = h_cmds h @ cs \<and> map le_stage (h_logs h') = map le_stage (h_logs h) @ ss"

lemma says_trans: "says cs ss h h1 \<Longrightarrow> says cs' ss' h1 h2 \<Longrightarrow> says (cs @ cs') (ss @ ss') h h2"
  by (simp add: says_def)

lemma quiet_says: "quiet h h' \<Longrightarrow> says [] [] h h'"
  by (simp add: quiet_def says_def)

lemma still_job: "moves quiet os a \<Longrightarrow> a os h = (r, h') \<Longrightarrow> says [] [] h h'"
  by (rule quiet_says) (rule still.movesD)

lemma log_says: "log_stage s t os h = (r, h') \<Longrightarrow> says [] [s] h h'"
  by (auto simp: log_stage_def logInstallStage_def says_def)

lemma run_cmd_ok: "run_cmd c os h = (Inr u, h') \<longleftrightarrow> run_command c os h = (None, h')"
  by (auto simp: run_cmd_def split: prod.splits option.splits)

lemma run_command_says: "says [c] [] h (snd (run_command c os h))"
  by (simp add: run_command_def says_def)

lemma run_all_says: "act_each run_cmd cs os h = (Inr u, h') \<Longrightarrow> says cs [] h h'"
proof (induction cs arbitrary: h)
  case (Cons c cs)
  then obtain h1 where c: "run_command c os h = (None, h1)" and r: "act_each run_cmd cs os h1 = (Inr u, h')"
    by (auto simp: job run_cmd_ok)
  have "says [c] [] h h1" using run_command_says [of c h os] c by simp
  from says_trans [OF this Cons.IH [OF r]] show ?case by simp
qed (simp add: job says_def)

abbreviation is_active :: "string \<Rightarrow> string list" where
  "is_active name \<equiv> [''systemctl'', ''is-active'', ''--quiet'', trim_space name]"

definition asks_systemd :: "string \<Rightarrow> host \<Rightarrow> host \<Rightarrow> bool" where
  "asks_systemd name h h' \<longleftrightarrow> (\<exists>n. says (replicate n (is_active name)) [] h h')"

lemma asks_systemd_trans: "asks_systemd n h h1 \<Longrightarrow> asks_systemd n h1 h2 \<Longrightarrow> asks_systemd n h h2"
proof -
  assume "asks_systemd n h h1" "asks_systemd n h1 h2"
  then obtain i j where "says (replicate i (is_active n)) [] h h1" "says (replicate j (is_active n)) [] h1 h2"
    by (auto simp: asks_systemd_def)
  from says_trans [OF this] have "says (replicate (i + j) (is_active n)) [] h h2"
    by (simp add: replicate_add)
  then show ?thesis unfolding asks_systemd_def by blast
qed

lemma asks_systemd_quiet: "says [] [] h h' \<Longrightarrow> asks_systemd n h h'"
  unfolding asks_systemd_def by (rule exI [of _ 0]) simp

lemma asks_systemd_active: "checkSystemdServiceActive n os h = (r, h1) \<Longrightarrow> asks_systemd n h h1"
proof (cases "trim_space n = []")
  case False
  assume "checkSystemdServiceActive n os h = (r, h1)"
  then have "h1 = snd (run_command (is_active n) os h)"
    using False by (simp add: checkSystemdServiceActive_def Let_def)
  then have "says (replicate 1 (is_active n)) [] h h1"
    using run_command_says [of "is_active n" h os] by simp
  then show ?thesis unfolding asks_systemd_def by blast
qed (simp add: checkSystemdServiceActive_def asks_systemd_quiet says_def)

lemma asks_systemd_sleep: "asks_systemd n h (sleep d os h)"
  by (rule asks_systemd_quiet) (simp add: says_def sleep_def)

text \<open>A probe was answered as the check requires, and nothing was sent after it.\<close>

definition answered :: "installer \<Rightarrow> string \<Rightarrow> string list \<Rightarrow> int \<Rightarrow> os \<Rightarrow> host \<Rightarrow> bool" where
  "answered ins base paths timeout os h' \<longleftrightarrow>
     (\<exists>p status h. p \<in> set paths \<and> httpGet ins (base @ trim_space p) (minDuration (3 * second) timeout) os h = (Inr status, h') \<and>
        200 \<le> status \<and> status < 500)"

lemma paths_answered:
  "checkPaths ins b t le ps os h = (r, h') \<Longrightarrow>
   says [] [] h h' \<and> ((\<exists>u. r = Inr u) \<longrightarrow> answered ins b ps t os h')"
proof (induction ps arbitrary: le h)
  case Nil
  then show ?case by (auto simp: says_def)
next
  case (Cons p ps)
  have sub: "answered ins b ps t os h' \<Longrightarrow> answered ins b (p # ps) t os h'"
    unfolding answered_def by (metis list.set_intros(2))
  have pr: "says [] [] h (probed a os h)" for a by (simp add: says_def probed_def)
  have here: "answered ins b (p # ps) t os (probed (b @ trim_space p) os h)"
    if "ins_get ins (h_tick h) (b @ trim_space p) (minDuration (3 * second) t) = Inr st" "200 \<le> st" "st < 500" for st
    unfolding answered_def httpGet_def using that by (intro exI [of _ p] exI [of _ st] exI [of _ h]) simp
  have later: "says [] [] h h' \<and> ((\<exists>u. r = Inr u) \<longrightarrow> answered ins b (p # ps) t os h')"
    if "checkPaths ins b t le' ps os g = (r, h')" "says [] [] h g" for le' g
    using Cons.IH [OF that(1)] says_trans [OF that(2)] sub by auto
  show ?case
    using Cons.prems later [OF _ pr] later [where g = h] pr here
    by (auto simp: Let_def httpGet_def says_def split: if_splits sum.splits)
qed

definition health_seen :: "installer \<Rightarrow> manifest \<Rightarrow> install_request \<Rightarrow> os \<Rightarrow> host \<Rightarrow> bool" where
  "health_seen ins m req os h' \<longleftrightarrow>
     (let hc = mf_healthcheck m; host = orDefault ''127.0.0.1'' (trim_space (hc_host hc));
          timeout = healthTimeout m; kind = normalizeHealthcheckType hc
      in if kind = ''systemd'' then (\<exists>h. checkSystemdServiceActive (svc_name (mf_service m)) os h = (None, h'))
         else if kind = ''tcp''
         then (\<exists>h. dialContext ins (join_host_port host (show_int (ir_app_port req)))
                 (minDuration (2 * second) timeout) os h = (Inr (), h'))
         else answered ins (orDefault ''https'' (trim_space (hc_scheme hc)) @ ''://'' @ host @ '':'' @
                 show_int (ir_app_port req)) (hc_paths hc) timeout os h')"

lemma tcp_answered:
  "tcpLoop ins a t deadline le os h = (r, h') \<Longrightarrow>
   asks_systemd n h h' \<and> ((\<exists>u. r = Inr u) \<longrightarrow>
     (\<exists>h1. dialContext ins a (minDuration (2 * second) t) os h1 = (Inr (), h')))"
proof (induction ins a t deadline le os h rule: tcpLoop.induct)
  case (1 ins a t deadline le os h)
  let ?d = "dialContext ins a (minDuration (2 * second) t) os h"
  have p: "asks_systemd n h (snd ?d)"
    by (rule asks_systemd_quiet) (simp add: dialContext_def says_def probed_def)
  show ?case
  proof (cases "h_clock h < deadline \<and> (\<exists>e. fst ?d = Inl e)")
    case True
    then obtain e h1 where d: "?d = (Inl e, h1)" by (metis prod.collapse)
    have "tcpLoop ins a t deadline (Some e) os (sleep poll_pause os h1) = (r, h')"
      using 1(2) True d by (subst (asm) tcpLoop.simps) simp
    from 1(1) [OF _ d [symmetric] refl this] show ?thesis
      using True p d asks_systemd_trans asks_systemd_sleep by (metis snd_conv)
  next
    case False
    then have "r = Inr () \<and> ?d = (Inr (), h') \<or> (\<exists>e. r = Inl e) \<and> h' = h"
      using 1(2) by (subst (asm) tcpLoop.simps) (auto split: if_splits prod.splits sum.splits)
    then show ?thesis using p asks_systemd_quiet [of h h n] by (auto simp: says_def)
  qed
qed


lemma http_answered:
  "httpLoop ins n b ps t deadline le os h = (r, h') \<Longrightarrow>
   asks_systemd n h h' \<and> ((\<exists>u. r = Inr u) \<longrightarrow> answered ins b ps t os h')"
proof (induction ins n b ps t deadline le os h rule: httpLoop.induct)
  case (1 ins n b ps t deadline le os h)
  obtain a h1 where a: "checkSystemdServiceActive n os h = (a, h1)" by fastforce
  obtain q h2 where q: "checkPaths ins b t le ps os h1 = (q, h2)" by fastforce
  have pa: "asks_systemd n h h1" using asks_systemd_active [OF a] .
  have pq: "asks_systemd n h h2"
    by (rule asks_systemd_trans [OF pa asks_systemd_quiet]) (use paths_answered [OF q] in simp)
  have on: "asks_systemd n h h' \<and> ((\<exists>u. r = Inr u) \<longrightarrow> answered ins b ps t os h')"
    if "asks_systemd n h g" "asks_systemd n (sleep poll_pause os g) h' \<and> ((\<exists>u. r = Inr u) \<longrightarrow> answered ins b ps t os h')"
    for g
    using that asks_systemd_trans [OF asks_systemd_trans [OF that(1) asks_systemd_sleep]] by blast
  show ?case
  proof (cases "h_clock h < deadline")
    case False
    then show ?thesis using 1(3) by (subst (asm) httpLoop.simps) (auto simp: asks_systemd_quiet says_def)
  next
    case True
    show ?thesis
    proof (cases a)
      case (Some e)
      then have r: "httpLoop ins n b ps t deadline (Some (''service is not active: '' @ e)) os (sleep poll_pause os h1) = (r, h')"
        using 1(3) True a by (subst (asm) httpLoop.simps) simp
      show ?thesis by (rule on [OF pa 1(2) [OF True a [symmetric] Some r]])
    next
      case None
      show ?thesis
      proof (cases q)
        case (Inl le')
        then have r: "httpLoop ins n b ps t deadline le' os (sleep poll_pause os h2) = (r, h')"
          using 1(3) True a q None by (subst (asm) httpLoop.simps) simp
        show ?thesis by (rule on [OF pq 1(1) [OF True a [symmetric] None q [symmetric] Inl r]])
      next
        case (Inr u)
        then have "r = Inr () \<and> h' = h2"
          using 1(3) True a q None by (subst (asm) httpLoop.simps) simp
        then show ?thesis using pq paths_answered [OF q] Inr by blast
      qed
    qed
  qed
qed

lemma healthcheck_ok:
  assumes "runManifestHealthcheck ins m req os h = (Inr health, h')"
  shows "health = ModuleHealthHealthy \<and> asks_systemd (svc_name (mf_service m)) h h' \<and> health_seen ins m req os h'"
  using assms asks_systemd_active tcp_answered http_answered
  unfolding runManifestHealthcheck_def health_seen_def Let_def
  by (fastforce split: if_splits prod.splits option.splits sum.splits)


lemma run_all_ticks:
  "act_each run_cmd cs os h = (Inr u, h') \<Longrightarrow> list_all (\<lambda>i. os_command os (h_tick h + i) = None) [0..<length cs]"
proof (induction cs arbitrary: h)
  case (Cons c cs)
  then obtain h1 where c: "run_command c os h = (None, h1)" and r: "act_each run_cmd cs os h1 = (Inr u, h')"
    by (auto simp: job run_cmd_ok)
  have n: "os_command os (h_tick h) = None" "h_tick h1 = Suc (h_tick h)"
    using c by (auto simp: run_command_def)
  have "os_command os (h_tick h + i) = None" if "i < length (c # cs)" for i
    using Cons.IH [OF r] n that by (cases i) (auto simp: list_all_iff)
  then show ?case by (simp add: list_all_iff)
qed simp

lemma on_host_ok [job]:
  "on_host m os s = (Inr x, s') \<longleftrightarrow> (\<exists>h1. m os (snd s) = (Inr x, h1) \<and> s' = (fst s, h1))"
  by (auto simp: on_host_def split: prod.splits)

lemma of_check_ok [job]: "of_check r os h = (Inr x, h') \<longleftrightarrow> r = Inr x \<and> h' = h"
  by (auto simp: of_check_def act_ret_def act_fail_def split: sum.splits)

text \<open>
  The second half of a successful install, from the host \<open>h2\<close> on which the stage apply was just
  logged: the manifest had passed the checks against the request, every command of the manifest
  was answered with success at its own call, the healthcheck that followed ended healthy, and
  after it only the completion was logged.
\<close>

definition install_seen :: "installer \<Rightarrow> install_request \<Rightarrow> manifest \<Rightarrow> os \<Rightarrow> host \<Rightarrow> host \<Rightarrow> bool" where
  "install_seen ins req m os h2 h' \<longleftrightarrow>
     validateManifestAgainstRequest m req = Inr () \<and>
     validateInstallEnvAgainstManifest m (ir_env req) = Inr () \<and>
     (\<exists>h3 h4 h5.
        act_each run_cmd (applyCommands m) os h2 = (Inr (), h3) \<and> says (applyCommands m) [] h2 h3 \<and>
        list_all (\<lambda>i. os_command os (h_tick h2 + i) = None) [0..<length (applyCommands m)] \<and>
        says [] [StageHealth] h3 h4 \<and>
        runManifestHealthcheck ins m req os h4 = (Inr ModuleHealthHealthy, h5) \<and>
        asks_systemd (svc_name (mf_service m)) h4 h5 \<and> health_seen ins m req os h5 \<and>
        says [] [StageCompleted] h5 h' \<and> h_probes h' = h_probes h5)"

lemma install_seen_quiet: "install_seen ins req m os h2 h4 \<Longrightarrow> quiet h4 h' \<Longrightarrow> install_seen ins req m os h2 h'"
  unfolding install_seen_def quiet_def says_def by metis

lemma install_seen_says:
  assumes "install_seen ins req m os h2 h'"
  shows "\<exists>n. says (applyCommands m @ replicate n (is_active (svc_name (mf_service m))))
       [StageHealth, StageCompleted] h2 h'"
proof -
  from assms obtain h3 h4 h5 where s: "says (applyCommands m) [] h2 h3" "says [] [StageHealth] h3 h4"
    "asks_systemd (svc_name (mf_service m)) h4 h5" "says [] [StageCompleted] h5 h'"
    unfolding install_seen_def by blast
  from s(3) obtain n where n: "says (replicate n (is_active (svc_name (mf_service m)))) [] h4 h5"
    by (auto simp: asks_systemd_def)
  note t = says_trans [OF says_trans [OF says_trans [OF s(1,2)] n] s(4)]
  then show ?thesis by auto
qed

lemma installManifest_ok:
  assumes "installManifest ins req m d os (r, h) = (Inr res, (r', h'))"
  shows "res = installResult req m ModuleHealthHealthy \<and>
    (\<exists>h2. says [] [StageRender, StageApply] h h2 \<and> install_seen ins req m os h2 h')"
proof -
  from assms obtain h1 s2 h3 h4 h5 h6 health where
    v: "validateManifestAgainstRequest m req = Inr ()" "validateInstallEnvAgainstManifest m (ir_env req) = Inr ()"
    and l1: "log_stage StageRender ''writing runtime files'' os h = (Inr (), h1)"
    and w: "writeRuntimeFiles ins req m d os (r, h1) = (Inr (), s2)"
    and l2: "log_stage StageApply ''applying systemd/nginx changes'' os (snd s2) = (Inr (), h3)"
    and c: "act_each run_cmd (applyCommands m) os h3 = (Inr (), h4)"
    and l3: "log_stage StageHealth ''running healthcheck'' os h4 = (Inr (), h5)"
    and hc: "runManifestHealthcheck ins m req os h5 = (Inr health, h6)"
    and l4: "log_stage StageCompleted ''module install completed'' os h6 = (Inr (), h')"
    and res: "res = installResult req m health"
    by (auto simp: installManifest_def job)
  have w': "says [] [] h1 (snd s2)"
    using still.on.movesD [OF still.moves_runtime w] by (intro quiet_says) simp
  note k = healthcheck_ok [OF hc]
  have before: "says [] [StageRender, StageApply] h h3"
    using says_trans [OF says_trans [OF log_says [OF l1] w'] log_says [OF l2]] by simp
  have p: "h_probes h' = h_probes h6"
    using l4 by (auto simp: log_stage_def logInstallStage_def)
  have "install_seen ins req m os h3 h'"
    unfolding install_seen_def
    using v c run_all_says [OF c] run_all_ticks [OF c] log_says [OF l3] hc k log_says [OF l4] p by blast
  with before res k show ?thesis by blast
qed

lemma logBundle_says: "logBundle cached os h = (r, h') \<Longrightarrow> says [] [StageDownload, StageVerify] h h'"
  by (auto simp: logBundle_def act_bind_def log_stage_def logInstallStage_def says_def split: if_splits)

lemma fetchBundle_ok:
  assumes "fetchBundle ins p req d os h = (Inr m, h')"
  shows "(\<exists>raw. loadManifest (ins_decode ins raw) = Inr m) \<and>
    says [] [StageDownload, StageDownload, StageVerify, StageUnpack] h h'"
proof -
  from assms obtain h1 h2 a cached h3 h4 h5 h6 where
    k: "os_mkdir_all (segs d) 0x1ED os h = (Inr (), h1)"
    and l1: "log_stage StageDownload ''preparing artifact bundle'' os h1 = (Inr (), h2)"
    and e: "ensureArtifactAvailable (ins_engine ins) (pol_hosts (clonePolicy p)) (ir_artifact_url req)
        (ir_artifact_checksum req) os h2 = (Inr (a, cached), h3)"
    and l2: "logBundle cached os h3 = (Inr (), h4)"
    and l3: "log_stage StageUnpack ''unpacking artifact bundle'' os h4 = (Inr (), h5)"
    and u: "unpackTarGz (ins_untar ins) a d os h5 = (Inr (), h6)"
    and m: "readManifest ins d os h6 = (Inr m, h')"
    by (auto simp: fetchBundle_def job)
  have "says [] [] h6 h'"
  proof (rule still_job [OF still.moves_os(6)])
    show "os_read_file (segs (path_join [trim_space d, ''manifest.json''])) os h6 =
        (fst (os_read_file (segs (path_join [trim_space d, ''manifest.json''])) os h6), h')"
      using m by (auto simp: readManifest_def split: prod.splits sum.splits)
  qed
  note t = says_trans [OF says_trans [OF says_trans [OF says_trans [OF says_trans [OF says_trans
    [OF still_job [OF still.moves_os(2) k] log_says [OF l1]] still_job [OF still.moves_ensure e]]
    logBundle_says [OF l2]] log_says [OF l3]] still_job [OF still.moves_unpack u]] this]
  show ?thesis
    using t m by (auto simp: readManifest_def loadManifest_def [of "MfUnreadable _"] split: prod.splits sum.splits)
qed

text \<open>
  C4: An install that succeeds logged the stages validate, download (at the start and at the end
  of the download), verify, unpack, render, apply, health and completed, in this order.  When
  apply was logged it had run no command; from there it ran exactly the systemd and nginx
  commands of the validated manifest, in order and each answered with success at the call that
  ran it, and then only asked systemd whether the service is active.  The healthcheck that
  followed ended healthy, its last probe answered as the manifest asks, and nothing was probed
  after it; the result is built from the request and that manifest.
\<close>

theorem install_success_trace:
  assumes "InstallModule ins p req os h = (Inr res, h')"
  shows "\<exists>raw m n h2. validateInstallPolicy p req = Inr () \<and> loadManifest (ins_decode ins raw) = Inr m \<and>
     res = installResult req m ModuleHealthHealthy \<and>
     says [] [StageValidate, StageDownload, StageDownload, StageVerify, StageUnpack, StageRender, StageApply] h h2 \<and>
     install_seen ins req m os h2 h' \<and>
     h_cmds h' = h_cmds h @ applyCommands m @ replicate n (is_active (svc_name (mf_service m))) \<and>
     map le_stage (h_logs h') = map le_stage (h_logs h) @
       [StageValidate, StageDownload, StageDownload, StageVerify, StageUnpack,
        StageRender, StageApply, StageHealth, StageCompleted]"
proof -
  from assms obtain v h1 h2 w m h3 h4 where
    c: "validateInstallRequest p (req\<lparr>ir_api_version := v\<rparr>) = Inr ()"
    and l: "log_stage StageValidate ''validated install request'' os h = (Inr (), h1)"
    and t: "os_temp (Dir (dir_masked os 0x1C0)) (segs (ins_tmp_dir ins)) ''aurora-agent-install-'' [] os h1 = (Inr w, h2)"
    and f: "fetchBundle ins p req (path_join [path_text w, ''bundle'']) os h2 = (Inr m, h3)"
    and i: "withRollback ins (path_join [path_text w, ''rollback'']) m
        (installManifest ins req m (path_join [path_text w, ''bundle''])) os h3 = (Inr res, h4)"
    and h': "h' = snd (os_remove_all w os h4)"
    by (auto simp: InstallModule_def job)
  from i obtain r where "installManifest ins req m (path_join [path_text w, ''bundle''])
      os (newInstallRollback (path_join [path_text w, ''rollback'']), h3) = (Inr res, (r, h4))"
    by (auto simp: withRollback_def split: prod.splits sum.splits)
  note k = installManifest_ok [OF this]
  then obtain h2 where h2: "says [] [StageRender, StageApply] h3 h2" "install_seen ins req m os h2 h4" by blast
  have q: "quiet h4 h'" using still.moves_os(7) [unfolded moves_def] h' by blast
  have seen: "install_seen ins req m os h2 h'" by (rule install_seen_quiet [OF h2(2) q])
  obtain n where n: "says (applyCommands m @ replicate n (is_active (svc_name (mf_service m))))
       [StageHealth, StageCompleted] h2 h'" using install_seen_says [OF seen] by blast
  note s = says_trans [OF says_trans [OF says_trans [OF log_says [OF l]
    still_job [OF still.moves_os(10) t]] conjunct2 [OF fetchBundle_ok [OF f]]] h2(1)]
  obtain raw where raw: "loadManifest (ins_decode ins raw) = Inr m" using fetchBundle_ok [OF f] by blast
  have "validateInstallPolicy p req = Inr ()"
    using c by (auto simp: validateInstallRequest_def validateInstallPolicy_def Let_def split: if_splits sum.splits)
  moreover have "res = installResult req m ModuleHealthHealthy"
    using k by simp
  ultimately show ?thesis
    using s n raw seen
    by (intro exI [of _ raw] exI [of _ m] exI [of _ n] exI [of _ h2]) (simp add: says_def)
qed


subsection \<open>A sample install\<close>

text \<open>A bundle with a binary and two templates, for the module the agent's own policy allows.\<close>

definition sample_file :: "string \<Rightarrow> string \<Rightarrow> tar_entry" where
  "sample_file name content =
     \<lparr>te_name = name, te_type = TypeReg, te_mode = 0x1ED, te_data = content, te_error = None\<rparr>"

definition sample_bundle :: manifest where
  "sample_bundle = sample_manifest\<lparr>mf_binary := (mf_binary sample_manifest)\<lparr>bin_mode := []\<rparr>,
     mf_env_path := ''/etc/e'', mf_assets := [],
     mf_service := \<lparr>svc_name = ''s'', svc_template_path = ''t'', svc_unit_path = ''/etc/s''\<rparr>\<rparr>"

definition sample_installer :: installer where
  "sample_installer =
     \<lparr>ins_engine = sample_engine,
      ins_untar = \<lambda>_. Inr ([sample_file ''b'' ''bin'', sample_file ''t'' ''unit'', sample_file ''n'' ''site'',
        sample_file ''manifest.json'' ''json''], None),
      ins_decode = \<lambda>_. MfDecoded sample_bundle, ins_render = \<lambda>raw _. Rendered raw,
      ins_dial = \<lambda>_ _ _. None, ins_get = \<lambda>_ _ _. Inr 200, ins_url_error = \<lambda>_. [],
      ins_range = \<lambda>_ m. m, ins_backups = rev, ins_tmp_dir = ''/tmp''\<rparr>"

definition sample_policy :: policy where
  "sample_policy = normalizePolicy \<lparr>pol_modules = {}, pol_hosts = {}, pol_repo_slugs = {}, pol_artifacts = [],
     pol_audit_log_path = []\<rparr>"

definition sample_ums :: install_request where
  "sample_ums = sample_install\<lparr>ir_version := ''1'', ir_artifact_checksum := ''6162''\<rparr>"

definition install_tree :: fs where
  "install_tree = [([''tmp''], Dir 0x1FF), ([''etc''], Dir 0x1ED), ([''etc'', ''s''], Reg ''old'' 0x1A4)]"

definition sample_valid :: manifest where
  "sample_valid = sample_bundle\<lparr>mf_schema_version := BundleSchemaVersionV1, mf_runtime := RuntimeLinuxSystemd,
     mf_capabilities := no_capabilities\<lparr>cap_install := True, cap_restart := True,
       cap_uninstall := True, cap_nginx_integration := True\<rparr>,
     mf_healthcheck := (mf_healthcheck sample_bundle)\<lparr>hc_type := ''http''\<rparr>\<rparr>"

text \<open>The answers of systemd are left open; the rest of the host works.\<close>

definition answering :: "(nat \<Rightarrow> string option) \<Rightarrow> os" where
  "answering c = sample_os\<lparr>os_command := c\<rparr>"

definition sample_work :: string where
  "sample_work = ''/tmp/aurora-agent-install-0''"

definition sample_started :: "(nat \<Rightarrow> string option) \<Rightarrow> host" where
  "sample_started c = snd (os_temp (Dir 0x1C0) [''tmp''] ''aurora-agent-install-'' [] (answering c)
     (snd (log_stage StageValidate ''validated install request'' (answering c) (host_with install_tree))))"

definition sample_fetched :: "(nat \<Rightarrow> string option) \<Rightarrow> (string + manifest) \<times> host" where
  "sample_fetched c = fetchBundle sample_installer sample_policy sample_ums
     (path_join [sample_work, ''bundle'']) (answering c) (sample_started c)"

definition sample_written :: "(nat \<Rightarrow> string option) \<Rightarrow> (string + unit) \<times> rollback \<times> host" where
  "sample_written c = writeRuntimeFiles sample_installer sample_ums sample_valid
     (path_join [sample_work, ''bundle'']) (answering c)
     (newInstallRollback (path_join [sample_work, ''rollback'']),
      snd (log_stage StageRender ''writing runtime files'' (answering c) (snd (sample_fetched c))))"

lemma sample_steps:
  "validateInstallerAPIVersion (ir_api_version sample_ums) = Inr InstallerRPCVersionV1"
  "validateInstallRequest sample_policy (sample_ums\<lparr>ir_api_version := InstallerRPCVersionV1\<rparr>) = Inr ()"
  "segs (ins_tmp_dir sample_installer) = [''tmp'']"
  "path_text [''tmp'', ''aurora-agent-install-0''] = sample_work"
  "validateManifestAgainstRequest sample_valid sample_ums = Inr ()"
  "validateInstallEnvAgainstManifest sample_valid (ir_env sample_ums) = Inr ()"
  by code_simp+

lemma sample_temp:
  "fst (os_temp (Dir 0x1C0) [''tmp''] ''aurora-agent-install-'' [] (answering c)
     (snd (log_stage StageValidate ''validated install request'' (answering c) (host_with install_tree))))
   = Inr [''tmp'', ''aurora-agent-install-0'']"
  by code_simp

lemma sample_fetches: "fst (sample_fetched c) = Inr sample_valid"
  by code_simp

lemma sample_writes: "fst (sample_written c) = Inr ()"
  by code_simp


lemma commands_run: "os_command os = (\<lambda>_. None) \<Longrightarrow> \<exists>h'. act_each run_cmd cs os h = (Inr (), h')"
  by (induction cs arbitrary: h) (auto simp: act_ret_def act_bind_def run_cmd_def run_command_def)

lemma sample_healthy: "\<exists>h'. runManifestHealthcheck sample_installer sample_valid sample_ums (answering (\<lambda>_. None)) h
    = (Inr ModuleHealthHealthy, h')"
proof -
  have s: "trim_space ''s'' = ''s''" "trim_space ''/h'' = ''/h''" "url_parse ''https://127.0.0.1:443/h'' \<noteq> None"
    "normalizeHealthcheckType (mf_healthcheck sample_valid) = ''http''"
    "orDefault ''https'' (trim_space (hc_scheme (mf_healthcheck sample_valid))) @ ''://'' @
       orDefault ''127.0.0.1'' (trim_space (hc_host (mf_healthcheck sample_valid))) @ '':'' @
       show_int (ir_app_port sample_ums) = ''https://127.0.0.1:443''"
    "svc_name (mf_service sample_valid) = ''s''" "hc_paths (mf_healthcheck sample_valid) = [''/h'']"
    "0 < healthTimeout sample_valid"
    by code_simp+
  have a: "\<exists>h1. checkSystemdServiceActive ''s'' (answering (\<lambda>_. None)) h = (None, h1)"
    by (simp add: checkSystemdServiceActive_def s(1) run_command_def answering_def)
  have p: "\<exists>h2. checkPaths sample_installer ''https://127.0.0.1:443'' t le [''/h''] (answering (\<lambda>_. None)) h1 = (Inr (), h2)" for t le h1
    using s(2,3) by (auto simp: Let_def httpGet_def sample_installer_def)
  obtain h1 where h1: "checkSystemdServiceActive ''s'' (answering (\<lambda>_. None)) h = (None, h1)" using a by blast
  obtain h2 where h2: "checkPaths sample_installer ''https://127.0.0.1:443'' (healthTimeout sample_valid) None [''/h'']
      (answering (\<lambda>_. None)) h1 = (Inr (), h2)" using p by blast
  have "httpLoop sample_installer ''s'' ''https://127.0.0.1:443'' [''/h''] (healthTimeout sample_valid)
      (h_clock h + healthTimeout sample_valid) None (answering (\<lambda>_. None)) h = (Inr (), h2)"
    using s(8) by (subst httpLoop.simps) (simp add: h1 h2 del: checkPaths.simps)
  then show ?thesis
    unfolding runManifestHealthcheck_def Let_def s(4-7) by simp
qed

lemma sample_install_steps:
  "installManifest sample_installer sample_ums sample_valid (path_join [sample_work, ''bundle'']) (answering c)
     (newInstallRollback (path_join [sample_work, ''rollback'']), snd (sample_fetched c)) =
   act_bind (on_host (log_stage StageApply ''applying systemd/nginx changes'')) (\<lambda>_.
   act_bind (on_host (act_each run_cmd (applyCommands sample_valid))) (\<lambda>_.
   act_bind (on_host (log_stage StageHealth ''running healthcheck'')) (\<lambda>_.
   act_bind (on_host (runManifestHealthcheck sample_installer sample_valid sample_ums)) (\<lambda>health.
   act_bind (on_host (log_stage StageCompleted ''module install completed'')) (\<lambda>_.
   act_ret (installResult sample_ums sample_valid health)))))) (answering c) (snd (sample_written c))"
proof -
  obtain s1 where s1: "log_stage StageRender ''writing runtime files'' (answering c) (snd (sample_fetched c)) = (Inr (), s1)"
    by (simp add: log_stage_def)
  then have w: "writeRuntimeFiles sample_installer sample_ums sample_valid (path_join [sample_work, ''bundle'']) (answering c)
      (newInstallRollback (path_join [sample_work, ''rollback'']), s1) = (Inr (), snd (sample_written c))"
    using sample_writes [of c] by (simp only: sample_written_def snd_conv prod_eq_iff fst_conv)
  have checks: "of_check (validateManifestAgainstRequest sample_valid sample_ums) = act_ret ()"
    "of_check (validateInstallEnvAgainstManifest sample_valid (ir_env sample_ums)) = act_ret ()"
    by (simp_all add: of_check_def sample_steps(5,6))
  have l: "on_host (log_stage StageRender ''writing runtime files'') (answering c)
      (newInstallRollback (path_join [sample_work, ''rollback'']), snd (sample_fetched c))
    = (Inr (), newInstallRollback (path_join [sample_work, ''rollback'']), s1)"
    by (simp add: on_host_def s1)
  show ?thesis
    unfolding installManifest_def checks
    by (simp only: act_bind_def act_ret_def l w prod.case sum.case)
qed

text \<open>The run around these steps ends as they do.\<close>

lemma sample_around:
  assumes "withRollback sample_installer (path_join [sample_work, ''rollback'']) sample_valid
      (installManifest sample_installer sample_ums sample_valid (path_join [sample_work, ''bundle''])) (answering c)
      (snd (sample_fetched c)) = (r, h4)"
  shows "\<exists>h'. InstallModule sample_installer sample_policy sample_ums (answering c) (host_with install_tree) = (r, h')"
proof -
  let ?os = "answering c"
  have f: "fetchBundle sample_installer sample_policy sample_ums (path_join [sample_work, ''bundle'']) ?os (sample_started c)
      = (Inr sample_valid, snd (sample_fetched c))"
    using sample_fetches [of c] by (simp only: sample_fetched_def prod_eq_iff fst_conv snd_conv)
  have m: "dir_masked ?os 0x1C0 = 0x1C0" by code_simp
  obtain s0 where l0: "log_stage StageValidate ''validated install request'' ?os (host_with install_tree) = (Inr (), s0)"
    by (simp add: log_stage_def)
  have "fst (os_temp (Dir 0x1C0) [''tmp''] ''aurora-agent-install-'' [] ?os s0) = Inr [''tmp'', ''aurora-agent-install-0'']"
    using sample_temp [of c] by (simp only: l0 snd_conv)
  moreover have "snd (os_temp (Dir 0x1C0) [''tmp''] ''aurora-agent-install-'' [] ?os s0) = sample_started c"
    by (simp only: sample_started_def l0 snd_conv)
  ultimately have t: "os_temp (Dir (dir_masked ?os 0x1C0)) (segs (ins_tmp_dir sample_installer)) ''aurora-agent-install-'' [] ?os s0
      = (Inr [''tmp'', ''aurora-agent-install-0''], sample_started c)"
    unfolding m sample_steps(3) by (simp only: prod_eq_iff fst_conv snd_conv)
  show ?thesis
    using sample_steps(1,2)
    by (simp add: sample_steps(4) l0 t f assms InstallModule_def act_bind_def of_check_def act_ret_def act_finally_def wrap_def)
qed

lemma sample_installs:
  "\<exists>h'. InstallModule sample_installer sample_policy sample_ums (answering (\<lambda>_. None)) (host_with install_tree)
     = (Inr (installResult sample_ums sample_valid ModuleHealthHealthy), h')"
proof -
  let ?os = "answering (\<lambda>_. None)"
  have l: "\<exists>h1. log_stage st t ?os h = (Inr (), h1)" for st t h by (simp add: log_stage_def)
  obtain s3 where s3: "log_stage StageApply ''applying systemd/nginx changes'' ?os (snd (snd (sample_written (\<lambda>_. None)))) = (Inr (), s3)"
    using l by blast
  obtain s4 where s4: "act_each run_cmd (applyCommands sample_valid) ?os s3 = (Inr (), s4)"
    using commands_run [of ?os] by (auto simp: answering_def)
  obtain s5 where s5: "log_stage StageHealth ''running healthcheck'' ?os s4 = (Inr (), s5)" using l by blast
  obtain s6 where s6: "runManifestHealthcheck sample_installer sample_valid sample_ums ?os s5 = (Inr ModuleHealthHealthy, s6)"
    using sample_healthy by blast
  obtain s7 where s7: "log_stage StageCompleted ''module install completed'' ?os s6 = (Inr (), s7)" using l by blast
  have "installManifest sample_installer sample_ums sample_valid (path_join [sample_work, ''bundle'']) ?os
      (newInstallRollback (path_join [sample_work, ''rollback'']), snd (sample_fetched (\<lambda>_. None)))
    = (Inr (installResult sample_ums sample_valid ModuleHealthHealthy), fst (snd (sample_written (\<lambda>_. None))), s7)"
    unfolding sample_install_steps by (simp add: act_bind_def on_host_def act_ret_def s3 s4 s5 s6 s7)
  then show ?thesis by (intro sample_around) (simp add: withRollback_def)
qed

theorem install_success_trace_witness:
  "\<exists>h' n. InstallModule sample_installer sample_policy sample_ums (answering (\<lambda>_. None)) (host_with install_tree)
       = (Inr (installResult sample_ums sample_valid ModuleHealthHealthy), h') \<and>
     h_cmds h' = [[''systemctl'', ''daemon-reload''], [''systemctl'', ''enable'', ''s''], [''systemctl'', ''restart'', ''s''],
       [''nginx'', ''-t''], [''systemctl'', ''reload'', ''nginx'']] @ replicate n [''systemctl'', ''is-active'', ''--quiet'', ''s'']"
proof -
  obtain h' where h': "InstallModule sample_installer sample_policy sample_ums (answering (\<lambda>_. None)) (host_with install_tree)
     = (Inr (installResult sample_ums sample_valid ModuleHealthHealthy), h')" using sample_installs by blast
  obtain raw m n where m: "loadManifest (ins_decode sample_installer raw) = Inr m"
    and c: "h_cmds h' = h_cmds (host_with install_tree) @ applyCommands m @ replicate n (is_active (svc_name (mf_service m)))"
    using install_success_trace [OF h'] by blast
  have "loadManifest (ins_decode sample_installer raw) = Inr sample_valid" by code_simp
  then have "m = sample_valid" using m by simp
  moreover have "applyCommands sample_valid = [[''systemctl'', ''daemon-reload''], [''systemctl'', ''enable'', ''s''],
      [''systemctl'', ''restart'', ''s''], [''nginx'', ''-t''], [''systemctl'', ''reload'', ''nginx'']]"
    "is_active (svc_name (mf_service sample_valid)) = [''systemctl'', ''is-active'', ''--quiet'', ''s'']"
    by code_simp+
  ultimately show ?thesis using h' c by (auto simp: host_with_def)
qed

end
