(* ===== verification/Install_Safety.thy ===== *)
theory Install_Safety
  imports Install_Trace
begin

text \<open>
  What an install does to the host's files: every writer touches one path, the steps keep the
  rollback able to undo them, and a failed install leaves the tree as it was.
\<close>

subsection \<open>Which paths a job touches\<close>

definition touches :: "path set \<Rightarrow> host \<Rightarrow> host \<Rightarrow> bool" where
  "touches S h h' \<longleftrightarrow> (wf_fs (h_fs h) \<longrightarrow> wf_fs (h_fs h') \<and> touched S (h_fs h) (h_fs h'))"

interpretation tch: host_order "touches S" for S
  by unfold_locales (auto simp: touches_def intro: touched_trans)

definition near :: "path set \<Rightarrow> path \<Rightarrow> bool" where
  "near S p \<longleftrightarrow> (\<exists>d \<in> S. prefix d p)"

lemma nearI: "d \<in> S \<Longrightarrow> prefix d p \<Longrightarrow> near S p"
  by (auto simp: near_def)

definition tame :: "path set \<Rightarrow> fs \<Rightarrow> fs \<Rightarrow> bool" where
  "tame S fs fs' \<longleftrightarrow> (wf_fs fs \<longrightarrow> wf_fs fs' \<and> touched S fs fs')"

lemma tame_refl [simp]: "tame S fs fs"
  by (simp add: tame_def)

lemma tame_mkdirs: "\<exists>d \<in> S. prefix p d \<or> prefix d p \<Longrightarrow> tame S fs (snd (mkdirs m [] p fs))"
proof -
  assume d: "\<exists>d \<in> S. prefix p d \<or> prefix d p"
  have "(\<exists>d \<in> S. prefix d q) \<or> (\<exists>d \<in> S. strict_prefix q d)" if q: "prefix q p" for q
  proof -
    obtain d where "d \<in> S" "prefix p d \<or> prefix d p" using d by blast
    then have "prefix d q \<or> strict_prefix q d"
      using q by (metis prefix_order.trans prefix_order.le_less prefix_same_cases prefix_order.order_refl)
    then show ?thesis using \<open>d \<in> S\<close> by blast
  qed
  then have "touched S fs (snd (mkdirs m [] p fs))"
    unfolding touched_def using mkdirs_adds [of m "[]" p fs] by (metis append_Nil)
  then show ?thesis using mkdirs_wf [of fs "[]" m p] by (simp add: tame_def)
qed

lemma touched_put: "near S p \<Longrightarrow> p \<noteq> [] \<Longrightarrow> touched S fs (fs_put fs p n)"
  by (auto simp: touched_def near_def fs_get_put)

lemma tame_put: "near S p \<Longrightarrow> tame S fs (snd (put_file p c m fs))"
proof (cases "p = []")
  case False
  assume n: "near S p"
  show ?thesis
  proof (cases "walk_to fs [] (butlast p)")
    case (Inr d)
    then have g: "fs_get fs (butlast p) = Some d" using walk_to_get by fastforce
    have w: "wf_fs fs \<Longrightarrow> is_dir (Some d) \<Longrightarrow> \<not> is_dir (fs_get fs p) \<Longrightarrow> wf_fs (fs_put fs p (Reg c k))" for k
      by (rule wf_put) (use False g in auto)
    show ?thesis
      using w touched_put [OF n False] False Inr
      by (auto simp: put_file_def tame_def split: node.splits option.splits)
  qed (simp add: put_file_def)
qed (simp add: put_file_def)

lemma tame_fill: "near S p \<Longrightarrow> tame S fs (fill_file p c fs)"
proof (cases "p = []")
  case False
  assume n: "near S p"
  have w: "wf_fs fs \<Longrightarrow> fs_get fs p = Some (Reg c0 k) \<Longrightarrow> wf_fs (fs_put fs p (Reg c k))" for k c0
    by (rule wf_put) (use False in \<open>auto simp: wf_fs_def\<close>)
  show ?thesis using w touched_put [OF n False]
    by (auto simp: fill_file_def tame_def split: node.splits option.splits)
qed (simp add: fill_file_def)

lemma wf_del_any: "wf_fs fs \<Longrightarrow> wf_fs (fs_del fs p)"
proof (cases "p = []")
  case True
  then show ?thesis by (simp add: fs_del_def wf_fs_def fs_get_def)
qed (simp add: wf_del)

lemma tame_del: "near S p \<Longrightarrow> p \<noteq> [] \<Longrightarrow> tame S fs (fs_del fs p)"
  unfolding tame_def touched_def near_def
  by (auto simp: wf_del_any fs_get_del dest: prefix_order.trans)

lemma tch_call:
  "faultless os \<Longrightarrow> (\<And>fs. tame S fs (snd (w fs))) \<Longrightarrow> moves (touches S) os (os_call w p)"
  by (simp add: moves_def os_call_ok touches_def tame_def)

lemma tch_same: "faultless os \<Longrightarrow> (\<And>fs. snd (w fs) = fs) \<Longrightarrow> moves (touches S) os (os_call w p)"
  by (rule tch_call) simp_all

lemma tch_read:
  assumes "faultless os"
  shows "moves (touches S) os (os_stat p)" "moves (touches S) os (os_read_file p)"
    "moves (touches S) os (os_read_dir p)" "moves (touches S) os (os_open p)"
    "moves (touches S) os os_close"
proof -
  show st: "moves (touches S) os (os_stat p)" "moves (touches S) os (os_read_file p)"
    "moves (touches S) os (os_read_dir p)"
    unfolding os_stat_def os_read_file_def os_read_dir_def
    by (auto intro!: tch_same assms split: sum.splits node.splits)
  show "moves (touches S) os (os_open p)"
    unfolding os_open_def by (intro tch.moves_bind st tch.moves_ret)
  show "moves (touches S) os os_close"
    unfolding os_close_def by (rule tch_same [OF assms]) simp
qed

lemma tch_mkdir: "faultless os \<Longrightarrow> \<exists>d \<in> S. prefix p d \<or> prefix d p \<Longrightarrow> moves (touches S) os (os_mkdir_all p m)"
  using tch_call [of os S "mkdirs (dir_masked os m) [] p"] tame_mkdirs
  by (simp add: moves_def os_mkdir_all_def)

lemma tch_write:
  assumes "faultless os" "near S p"
  shows "moves (touches S) os (os_write_file p c m)" "moves (touches S) os (os_create p m)"
    "moves (touches S) os (os_fill p c)"
  using assms tch_call [of os S "put_file p c (masked os m)"] tch_call [of os S "put_file p [] (masked os m)"]
    tch_call [of os S "\<lambda>fs. (Inr (), fill_file p c fs)"] tame_put tame_fill
  by (simp_all add: moves_def os_write_file_def os_create_def os_fill_def)

lemma tch_remove:
  assumes "faultless os" "near S p" "p \<noteq> []"
  shows "moves (touches S) os (os_remove_all p)" "moves (touches S) os (os_remove p)"
  unfolding os_remove_all_def os_remove_def remove_tree_def
  by (auto intro!: tch_call assms tame_del split: sum.splits os_error.splits)

lemma tch_rename:
  assumes "faultless os" "near S src" "near S dst" "src \<noteq> []"
  shows "moves (touches S) os (os_rename src dst)"
proof -
  have put: "tame S fs (fs_put (fs_del fs src) dst n)"
    if a: "fs_get fs (butlast dst) = Some (Dir k)" "fs_get fs src = Some n" "\<not> is_dir (Some n)"
      "dst \<noteq> []" "\<not> is_dir (fs_get fs dst)" for fs n k
  proof -
    have w: "wf_fs (fs_put (fs_del fs src) dst n)" if wf: "wf_fs fs"
    proof (rule wf_put)
      show "wf_fs (fs_del fs src)" using wf by (rule wf_del_any)
      have "\<not> prefix src (butlast dst)"
      proof
        assume "prefix src (butlast dst)"
        then obtain r where r: "butlast dst = src @ r" by (auto simp: prefix_def)
        show False
        proof (cases "r = []")
          case False
          then show False using wf_below_file [OF wf, of src r] a(1-3) r by simp
        qed (use a r in simp)
      qed
      then show "is_dir (fs_get (fs_del fs src) (butlast dst))" using a(1) assms(4) by (simp add: fs_get_del)
      show "is_dir (fs_get (fs_del fs src) dst) \<Longrightarrow> is_dir (Some n)"
        using a(5) assms(4) by (auto simp: fs_get_del split: if_splits)
    qed (use a in simp)
    have "touched S fs (fs_del fs src)"
      using assms(2,4) by (auto simp: touched_def near_def fs_get_del dest: prefix_order.trans)
    then show ?thesis using w touched_put [OF assms(3) a(4)] touched_trans unfolding tame_def by blast
  qed
  have "tame S fs (fs_put (fs_del fs src) dst n)"
    if "walk_to fs [] (butlast dst) = Inr (Dir k)" "walk_to fs [] src = Inr n" "\<not> is_dir (Some n)"
      "dst \<noteq> []" "\<not> is_dir (fs_get fs dst)" for fs n k
    by (rule put) (use that walk_to_get [of fs "[]"] in auto)
  then show ?thesis
    unfolding os_rename_def
    by (intro tch_call assms(1)) (auto split: sum.splits node.splits if_splits)
qed

lemma tame_temp: "near S p \<Longrightarrow> p \<noteq> [] \<Longrightarrow> tame S fs (snd (make_temp n p fs))"
proof -
  assume p: "near S p" "p \<noteq> []"
  have "wf_fs (fs_put fs p n)" if "wf_fs fs" "walk_to fs [] (butlast p) = Inr (Dir k)" "fs_get fs p = None" for k
    by (rule wf_put) (use that p walk_to_get [of fs "[]"] in auto)
  then show ?thesis using touched_put [OF p]
    by (auto simp: make_temp_def tame_def split: sum.splits node.splits)
qed

lemma tch_temp:
  assumes "faultless os" "\<And>k. near S (d @ [a @ show_nat k @ b])"
  shows "moves (touches S) os (os_temp n d a b)"
proof -
  have "moves (touches S) os (os_call (make_temp n (d @ [a @ show_nat k @ b])) (\<lambda>_ fs. fs))" for k
    by (intro tch_call assms(1) tame_temp assms(2)) simp
  then show ?thesis by (simp add: moves_def os_temp_def)
qed

lemma tch_chmod:
  assumes "faultless os" "near S p"
  shows "moves (touches S) os (os_chmod p m)"
proof -
  have "tame S fs (fs_put fs p n)"
    if a: "walk_to fs [] p = Inr n0" "is_dir (Some n) = is_dir (Some n0)" "p \<noteq> []" for fs n n0
  proof -
    have g: "fs_get fs p = Some n0" using walk_to_get [of fs "[]"] a(1) by fastforce
    have "wf_fs fs \<Longrightarrow> wf_fs (fs_put fs p n)"
      by (rule wf_put) (use a g in \<open>auto simp: wf_fs_def\<close>)
    then show ?thesis using touched_put [OF assms(2) a(3)] by (simp add: tame_def)
  qed
  then show ?thesis
    unfolding os_chmod_def
    by (intro tch_call assms(1)) (cases "p = []", auto split: sum.splits node.splits)
qed

lemmas tch_rules = tch.moves_rules tch_read tch_write tch_remove

lemma tch_copyFile: "faultless os \<Longrightarrow> near S d \<Longrightarrow> moves (touches S) os (copyFile s d m)"
proof -
  assume f: "faultless os" and d: "near S d"
  have "\<exists>d' \<in> S. prefix (butlast d) d' \<or> prefix d' (butlast d)"
  proof -
    obtain d' where "d' \<in> S" "prefix d' d" using d by (auto simp: near_def)
    then show ?thesis using prefix_same_cases [OF _ prefixeq_butlast] by blast
  qed
  then show ?thesis unfolding copyFile_def by (intro tch_rules tch_mkdir f d)
qed

lemma tch_copyEntry:
  assumes "faultless os" "near S d"
  shows "moves (touches S) os (copyEntry s d p)"
proof -
  let ?t = "d @ drop (length s) p"
  have n: "near S ?t" using assms(2) unfolding near_def by (blast intro: prefix_prefix)
  then have "\<exists>d' \<in> S. prefix ?t d' \<or> prefix d' ?t" unfolding near_def by blast
  then have "moves (touches S) os (copyFile p ?t m)" "moves (touches S) os (os_mkdir_all ?t m)" for m
    using tch_copyFile [OF assms(1) n] tch_mkdir [OF assms(1)] by auto
  then show ?thesis
    unfolding moves_def copyEntry_def Let_def
    by (auto simp: tch.R_refl split: option.splits node.splits)
qed

lemma tch_copyDir:
  assumes "faultless os" "near S d"
  shows "moves (touches S) os (copyDir s d)"
proof -
  have "moves (touches S) os (\<lambda>os h. act_each (copyEntry s d) (fs_children (h_fs h) s) os h)"
    using tch.moves_each [where f = "copyEntry s d", OF tch_copyEntry [OF assms]] by (simp add: moves_def)
  moreover have "\<exists>d' \<in> S. prefix d d' \<or> prefix d' d" using assms(2) by (auto simp: near_def)
  ultimately show ?thesis
    unfolding copyDir_def by (auto intro!: tch_rules tch_mkdir assms split: node.splits)
qed


subsection \<open>Writers touch their path\<close>

text \<open>A path as the installer should be given it: trimmed, not the root, its directory the one above.\<close>

definition plain :: "string \<Rightarrow> bool" where
  "plain t \<longleftrightarrow> trim_space t = t \<and> segs t \<noteq> [] \<and> dir_of t = butlast (segs t)"

lemma plain_ne: "plain t \<Longrightarrow> t \<noteq> []"
  by (auto simp: plain_def segs_def)

lemma tch_mkdir_of: "faultless os \<Longrightarrow> plain t \<Longrightarrow> moves (touches {segs t}) os (os_mkdir_all (dir_of t) m)"
  by (rule tch_mkdir) (auto simp: plain_def prefixeq_butlast)

lemma near_self: "near {p} p"
  by (simp add: near_def)

lemma tch_inline: "faultless os \<Longrightarrow> plain (fst f) \<Longrightarrow> moves (touches {segs (fst f)}) os (writeInlineFile f)"
proof -
  assume f: "faultless os" and p: "plain (fst f)"
  have t: "trim_space (fst f) = fst f" using p by (simp add: plain_def)
  show ?thesis unfolding writeInlineFile_def Let_def t
    by (auto intro!: tch_rules tch_mkdir_of near_self f p)
qed

lemma tch_env: "faultless os \<Longrightarrow> plain p \<Longrightarrow> moves (touches {segs p}) os (writeEnvFile p vars)"
  unfolding writeEnvFile_def by (auto intro!: tch_rules tch_mkdir_of near_self)

lemma tch_render: "faultless os \<Longrightarrow> plain p \<Longrightarrow> moves (touches {segs p}) os (renderTemplateFile rd t p d)"
  unfolding renderTemplateFile_def
  by (auto intro!: tch_rules tch_mkdir_of near_self split: rendering.splits)

lemma tch_asset: "faultless os \<Longrightarrow> plain (trim_space p) \<Longrightarrow>
   moves (touches {segs (trim_space p)}) os (installArtifactPath s p)"
proof -
  assume f: "faultless os" and p: "plain (trim_space p)"
  have t: "segs (trim_space p) \<noteq> []" using p by (simp add: plain_def)
  show ?thesis unfolding installArtifactPath_def Let_def
    by (auto intro!: tch_rules tch_copyFile tch_copyDir near_self f t split: node.splits sum.splits)
qed

text \<open>
  \<^verbatim>\<open>installBinary\<close> writes beside its target and renames; when it returns the temporary file
  is gone.
\<close>

lemma remove_clears:
  assumes "faultless os" "wf_fs (h_fs h)" "\<not> is_dir (fs_get (h_fs h) t)" "t \<noteq> []"
  shows "fs_get (h_fs (snd (os_remove t os h))) t = None"
proof (cases "fs_get (h_fs h) t")
  case None
  then show ?thesis
    using walk_to_get [of "h_fs h" "[]" t]
    by (cases "walk_to (h_fs h) [] t") (auto simp: os_remove_def os_call_ok assms(1) fs_get_del assms(4))
next
  case (Some n)
  have "set (fs_children (h_fs h) t) = {}"
    unfolding set_fs_children using wf_below_file [OF assms(2,3)]
    by (auto simp: strict_prefix_def prefix_def) (metis option.distinct(1))
  then have "fs_children (h_fs h) t = []" by simp
  then show ?thesis
    using walk_to_some [OF assms(2) Some] by (simp add: os_remove_def os_call_ok assms(1) fs_get_del assms(4))
qed

definition temp_inv :: "path \<Rightarrow> host \<Rightarrow> host \<Rightarrow> bool" where
  "temp_inv t h h' \<longleftrightarrow> (\<not> is_dir (fs_get (h_fs h) t) \<longrightarrow> \<not> is_dir (fs_get (h_fs h') t))"

interpretation tmp: host_order "temp_inv t" for t
  by unfold_locales (auto simp: temp_inv_def)

lemma tmp_call:
  "faultless os \<Longrightarrow> (\<And>fs. \<not> is_dir (fs_get fs t) \<Longrightarrow> \<not> is_dir (fs_get (snd (w fs)) t)) \<Longrightarrow>
   moves (temp_inv t) os (os_call w p)"
  by (simp add: moves_def os_call_ok temp_inv_def)

lemma tmp_fill:
  assumes f: "faultless os" and t: "t \<noteq> []"
  shows "moves (temp_inv t) os (fillBinary s d t m)"
proof -
  have "moves (temp_inv t) os (os_chmod t m)" "moves (temp_inv t) os (os_read_file s)"
    "moves (temp_inv t) os (os_fill t c)" "moves (temp_inv t) os os_close" for c
    unfolding os_chmod_def os_read_file_def os_fill_def os_close_def
    using t walk_to_get [of _ "[]" t]
    by (auto intro!: tmp_call f split: sum.splits node.splits option.splits simp: fs_get_put fill_file_def)
  moreover have "moves (temp_inv t) os (os_rename t d)"
    unfolding os_rename_def
    using t walk_to_get [of _ "[]" t]
    by (auto intro!: tmp_call f split: sum.splits node.splits option.splits if_splits simp: fs_get_put fs_get_del)
  ultimately show ?thesis unfolding fillBinary_def by (intro tmp.moves_rules)
qed

lemma os_rename_clears:
  "os_rename t p os h = (Inr u, h') \<Longrightarrow> t \<noteq> [] \<Longrightarrow> t \<noteq> p \<Longrightarrow> fs_get (h_fs h') t = None"
  by (cases "p = []")
    (auto simp: os_rename_def os_call_Inr fs_get_put fs_get_del split: sum.splits node.splits if_splits)

lemma fill_clears:
  assumes f: "faultless os" and wf: "wf_fs (h_fs h)" and t: "\<not> is_dir (fs_get (h_fs h) t)" "t \<noteq> []" "t \<noteq> p"
    and p: "p \<noteq> []"
  shows "fs_get (h_fs (snd (or_remove t (fillBinary s p t m) os h))) t = None"
proof -
  obtain r h1 where r: "fillBinary s p t m os h = (r, h1)" by fastforce
  show ?thesis
  proof (cases r)
    case (Inl e)
    have "\<not> is_dir (fs_get (h_fs h1) t)"
      using tmp.movesD [OF tmp_fill [OF f t(2)] r] t(1) by (simp add: temp_inv_def)
    moreover have mv: "moves (touches {p, t}) os (fillBinary s p t m)"
      unfolding fillBinary_def
      by (intro tch_rules tch_chmod tch_rename f t) (auto simp: near_def)
    then have "wf_fs (h_fs h1)" using tch.movesD [OF mv r] wf by (auto simp: touches_def)
    ultimately show ?thesis using remove_clears [OF f _ _ t(2)] r Inl by (simp add: or_remove_def)
  next
    case (Inr u)
    then obtain h2 where "os_rename t p os h2 = (Inr u, h1)"
      using r by (auto simp: fillBinary_def job)
    from os_rename_clears [OF this t(2,3)] show ?thesis using r Inr by (simp add: or_remove_def)
  qed
qed

lemma tch_or_remove: "faultless os \<Longrightarrow> near S t \<Longrightarrow> t \<noteq> [] \<Longrightarrow> moves (touches S) os m \<Longrightarrow> moves (touches S) os (or_remove t m)"
  using tch_remove(2) [of os S t] unfolding moves_def or_remove_def case_prod_beta
  by (auto split: sum.splits intro: tch.R_trans)

lemma touched_gone:
  assumes "touched {p, t} fs fs'" "wf_fs fs" "wf_fs fs'" "fs_get fs t = None" "fs_get fs' t = None"
    and "butlast t = butlast p" "t \<noteq> []" "p \<noteq> []"
  shows "touched {p} fs fs'"
proof -
  have "fs_get fs' q = fs_get fs q" if "prefix t q" for q
    using that wf_none_below assms(2-5) by (auto simp: prefix_def)
  moreover have "strict_prefix q p" if "strict_prefix q t" for q
    using that assms(6-8) prefix_butlast_iff by metis
  ultimately show ?thesis using assms(1) unfolding touched_def by blast
qed

lemma tch_binary:
  assumes f: "faultless os" and p: "plain (trim_space p)"
  shows "moves (touches {segs (trim_space p)}) os (installBinary s p m)"
proof -
  let ?p = "segs (trim_space p)" and ?d = "dir_of (trim_space p)"
  have pn: "?p \<noteq> []" and d: "?d = butlast ?p" using p by (simp_all add: plain_def)
  define place where "place = act_bind (wrap ''create installed binary temp file failed: ''
      (os_temp (Reg [] (masked os 0x180)) ?d (''.'' @ path_base (trim_space p) @ ''.tmp-'') []))
      (\<lambda>tmp. or_remove tmp (fillBinary (segs (trim_space s)) ?p tmp (parseFileMode m 0x1ED)))"
  have "touches {?p} h (snd (place os h))" for h
  proof -
    let ?n = "''.'' @ path_base (trim_space p) @ ''.tmp-'' @ show_nat (os_suffix os (h_tick h))"
    let ?t = "?d @ [?n]"
    let ?fs = "h_fs h"
    have tn: "?t \<noteq> []" "butlast ?t = butlast ?p" using d by simp_all
    obtain r h1 where r: "os_temp (Reg [] (masked os 0x180)) ?d (''.'' @ path_base (trim_space p) @ ''.tmp-'') [] os h = (r, h1)"
      by fastforce
    show ?thesis
    proof (cases r)
      case (Inl e)
      then have "h_fs h1 = ?fs"
        using r by (auto simp: os_temp_def os_call_ok f make_temp_def split: sum.splits node.splits if_splits)
      then show ?thesis using r Inl by (simp add: place_def act_bind_def wrap_def touches_def)
    next
      case (Inr t)
      then have t: "t = ?t" "fs_get ?fs ?t = None" "h_fs h1 = fs_put ?fs ?t (Reg [] (masked os 0x180))"
        "\<exists>k. walk_to ?fs [] ?d = Inr (Dir k)"
        using r by (auto simp: os_temp_def os_call_ok f make_temp_def split: sum.splits node.splits if_splits)
      let ?m = "or_remove ?t (fillBinary (segs (trim_space s)) ?p ?t (parseFileMode m 0x1ED))"
      let ?h2 = "snd (?m os h1)"
      have e: "snd (place os h) = ?h2" using r Inr t(1) by (simp add: place_def act_bind_def wrap_def)
      have mv: "moves (touches {?p, ?t}) os ?m" unfolding fillBinary_def
        by (intro tch_or_remove tch_rules tch_chmod tch_rename f tn(1)) (simp_all add: near_def)
      have "h_fs h1 = snd (make_temp (Reg [] (masked os 0x180)) ?t ?fs)"
        using r by (auto simp: os_temp_def os_call_ok f split: prod.splits)
      then have h1: "touches {?p, ?t} h h1"
        using tame_temp [of "{?p, ?t}" ?t ?fs] tn(1) by (simp add: touches_def tame_def near_def)
      have h2: "touches {?p, ?t} h ?h2"
        using tch.R_trans [OF h1] mv by (simp add: moves_def)
      show ?thesis
      proof (cases "?t = ?p")
        case True
        then show ?thesis using h2 e by simp
      next
        case False
        have "touched {?p} ?fs (h_fs ?h2)" if wf: "wf_fs ?fs"
        proof (rule touched_gone [OF _ wf _ t(2) _ tn(2,1) pn])
          have "wf_fs (h_fs h1)" using h1 wf by (simp add: touches_def)
          moreover have "\<not> is_dir (fs_get (h_fs h1) ?t)" by (simp add: t(3) fs_get_put)
          ultimately show "fs_get (h_fs ?h2) ?t = None" by (intro fill_clears f tn(1) False pn)
        qed (use h2 wf in \<open>simp_all add: touches_def\<close>)
        then show ?thesis using h2 e by (simp add: touches_def)
      qed
    qed
  qed
  then have "moves (touches {?p}) os place" by (simp add: moves_def)
  then have "moves (touches {?p}) os
     (if trim_space s = [] \<or> trim_space p = [] then act_fail ''binary source/install path is empty''
      else act_bind (wrap ''create binary install dir failed: '' (os_mkdir_all ?d 0x1ED)) (\<lambda>_.
           act_bind (wrap ''open binary source failed: '' (os_open (segs (trim_space s)))) (\<lambda>_. place)))"
    using tch_mkdir_of [OF f p] by (auto intro!: tch_rules f)
  then show ?thesis unfolding moves_def installBinary_def place_def Let_def .
qed

end
