(* ===== verification/Fetch_Safety.thy ===== *)
theory Fetch_Safety
  imports Install_Safety
begin

text \<open>
  Fetching a bundle (download, cache, checksum, pruning, unpacking) touches the cache directory
  and the directory it unpacks into, and nothing beside them.
\<close>

subsection \<open>The bundle is fetched beside the host's files\<close>

text \<open>A file name in a directory: the path of the two joined.\<close>

lemma split_on_snoc: "c \<notin> set x \<Longrightarrow> split_on c (d @ c # x) = split_on c d @ [x]"
  by (induction d) (auto simp: split_on_absent split: list.splits)

lemma segs_join_name:
  assumes "prefix ''/'' d" "proper_seg x" "CHR ''/'' \<notin> set x"
  shows "segs (path_join [d, x]) = segs d @ [x]"
proof -
  have r: "prefix ''/'' (d @ ''/'' @ x)" using assms(1) by (auto simp: prefix_def)
  have j: "path_join [d, x] = path_clean (d @ ''/'' @ x)" using assms(1) by (auto simp: path_join_def)
  have "clean_segs True acc (ss @ [x]) = clean_segs True acc ss @ [x]" for acc ss
    using assms(2) by (induction True acc ss rule: clean_segs.induct) (auto simp: proper_seg_def)
  then show ?thesis unfolding j segs_clean [OF r]
    using assms(3) by (simp add: segs_def split_on_snoc)
qed

lemma hex_digit_no_slash: "n < 16 \<Longrightarrow> CHR ''/'' \<noteq> hex_digit n"
proof
  assume n: "n < 16" and "CHR ''/'' = hex_digit n"
  then have "(of_char (hex_digit n) :: nat) = of_char (CHR ''/'')" by simp
  then show False using n by (simp add: hex_digit_def split: if_splits)
qed

lemma hex_no_slash: "CHR ''/'' \<notin> set (hex_encode s)"
proof -
  have "(of_char c :: nat) div 16 < 16" for c :: char
    using nat_of_char_less_256 [of c] by linarith
  then show ?thesis
    using hex_digit_no_slash by (auto simp: hex_encode_def Let_def)
qed

lemma cachePath_near: "artifactCachePath sha u c = Inr p \<Longrightarrow> near {cacheDir} (segs p) \<and> segs p \<noteq> []"
proof -
  assume a: "artifactCachePath sha u c = Inr p"
  then obtain b k where p: "p = path_join [installedArtifactCacheDir, hex_encode k @ ''-'' @ b]" and b: "CHR ''/'' \<notin> set b"
    by (fastforce simp: artifactCachePath_def Let_def split: if_splits)
  have "segs p = cacheDir @ [hex_encode k @ ''-'' @ b]"
    unfolding p segs_cacheDir [symmetric]
    by (rule segs_join_name) (use b hex_no_slash in \<open>auto simp: installedArtifactCacheDir_def proper_seg_def append_eq_Cons_conv\<close>)
  then show ?thesis by (simp add: near_def)
qed

lemma os_read_dir_ok: "os_read_dir p os h = (Inr es, h') \<Longrightarrow> \<forall>e \<in> set es. strict_prefix p (fst e)"
  using set_fs_children [of "h_fs h" p]
  by (auto simp: os_read_dir_def os_call_Inr map_filter_def split: sum.splits node.splits)

lemma tch_try_bind:
  "moves (touches S) os m \<Longrightarrow> (\<And>h r h1. m os h = (r, h1) \<Longrightarrow> moves (touches S) os (f r)) \<Longrightarrow>
   moves (touches S) os (act_bind (act_try m) f)"
  by (rule tch.moves_bind_ok) (auto simp: job intro: tch.moves_try)

lemma tch_prune:
  assumes f: "faultless os" and o: "\<forall>fs. set (order fs) \<subseteq> set fs"
  shows "moves (touches {segs dir}) os (pruneArtifactCache order mx dir)"
proof -
  have rm: "moves (touches {segs dir}) os (removeOldest mx t fs)"
    if "\<forall>c \<in> set fs. strict_prefix (segs dir) (cf_path c)" for t fs
    using that
  proof (induction mx t fs rule: removeOldest.induct)
    case (2 mx t c fs)
    have "near {segs dir} (cf_path c)" "cf_path c \<noteq> []" using 2(2) by (auto simp: near_def strict_prefix_def)
    then show ?case using 2 by (auto intro!: tch_rules f)
  qed (simp add: tch.moves_ret)
  have "moves (touches {segs dir}) os (removeOldest mx t (order (cacheFiles es)))"
    if "os_read_dir (segs dir) os h = (Inr es, h1)" for es t h h1
  proof (rule rm)
    have "set (order (cacheFiles es)) \<subseteq> set (cacheFiles es)" using o by simp
    then show "\<forall>c \<in> set (order (cacheFiles es)). strict_prefix (segs dir) (cf_path c)"
      using os_read_dir_ok [OF that] by (fastforce simp: cacheFiles_def)
  qed
  then have "moves (touches {segs dir}) os (act_bind (act_try (os_read_dir (segs dir))) (\<lambda>r.
      case r of
        Inl e \<Rightarrow> if e = Not_exist then act_ret () else act_fail (''read artifact cache dir failed: '' @ os_text e)
      | Inr es \<Rightarrow> if sum_list (map cf_size (cacheFiles es)) \<le> mx then act_ret ()
                  else removeOldest mx (sum_list (map cf_size (cacheFiles es))) (order (cacheFiles es))))"
    by (intro tch_try_bind tch_read f) (auto intro!: tch.moves_ret tch.moves_fail split: sum.splits)
  then show ?thesis unfolding pruneArtifactCache_def Let_def by (simp add: tch.moves_ret)
qed

lemma tch_verify: "faultless os \<Longrightarrow> moves (touches S) os (verifyArtifactChecksum sha p e)"
  unfolding verifyArtifactChecksum_def Let_def by (auto intro!: tch_rules)

lemma tch_download:
  assumes f: "faultless os" and d: "near S dst"
  shows "moves (touches S) os (downloadArtifact hosts mx net u dst)"
proof -
  have s: "moves (touches S) os (sendRequest net u)" for u
    by (simp add: moves_def sendRequest_def touches_def)
  have "moves (touches S) os (followRedirects hosts net via u)" for via u
  proof (induction via arbitrary: u rule: measure_induct_rule [where f = "\<lambda>via. 10 - via"])
    case (less via)
    show ?case
      by (subst followRedirects.simps) (auto intro!: tch_rules s less f d split: reply.splits sum.splits)
  qed
  then show ?thesis
    unfolding downloadArtifact_def Let_def
    by (auto intro!: tch_rules f d split: sum.splits option.splits)
qed

lemma segs_cache_ne: "cacheDir \<noteq> []"
  by (simp add: cacheDir_def)

lemma tch_store:
  assumes f: "faultless os" and o: "\<forall>fs. set (en_order e fs) \<subseteq> set fs"
    and c: "near {cacheDir} (segs c)" and t: "near {cacheDir} t" "t \<noteq> []"
  shows "moves (touches {cacheDir}) os (storeArtifact e hosts u ck c t)"
  unfolding storeArtifact_def
  by (intro tch_rules tch_download tch_verify tch_rename f t c
      tch_prune [OF f o, of installedArtifactCacheDir, unfolded segs_cacheDir])

lemma tch_fetch:
  assumes f: "faultless os" and o: "\<forall>fs. set (en_order e fs) \<subseteq> set fs" and c: "near {cacheDir} (segs c)"
  shows "moves (touches {cacheDir}) os (fetchArtifact e hosts u ck c)"
proof -
  have n: "near {cacheDir} (cacheDir @ [x])" for x by (simp add: near_def)
  have "moves (touches {cacheDir}) os (act_bind
      (wrap m (os_temp (Reg [] (masked os 0x180)) cacheDir a b)) (storeArtifact e hosts u ck c))" for m a b
  proof (rule tch.moves_bind_ok)
    fix h t h1 assume "wrap m (os_temp (Reg [] (masked os 0x180)) cacheDir a b) os h = (Inr t, h1)"
    then have "os_temp (Reg [] (masked os 0x180)) cacheDir a b os h = (Inr t, h1)" by (simp only: wrap_ok)
    from os_temp_ok [OF this] obtain k where "t = cacheDir @ [a @ show_nat k @ b]" by blast
    then show "moves (touches {cacheDir}) os (storeArtifact e hosts u ck c t)"
      by (intro tch_store f o c) (simp_all add: n)
  qed (intro tch_rules tch_temp f n)
  then show ?thesis by (simp add: moves_def fetchArtifact_def segs_cacheDir)
qed

lemma tch_ensure:
  assumes f: "faultless os" and o: "\<forall>fs. set (en_order e fs) \<subseteq> set fs"
  shows "moves (touches {cacheDir}) os (ensureArtifactAvailable e hosts u ck)"
proof (cases "artifactCachePath (en_sha e) u ck")
  case (Inl x)
  then show ?thesis by (simp add: ensureArtifactAvailable_def tch.moves_fail)
next
  case (Inr p)
  have p: "near {cacheDir} (segs p)" "segs p \<noteq> []" using cachePath_near [OF Inr] by auto
  show ?thesis
    unfolding ensureArtifactAvailable_def Inr segs_cacheDir
    by (auto intro!: tch_rules tch_mkdir tch_verify tch_fetch f o p split: sum.splits)
qed

lemma tch_unpack:
  assumes f: "faultless os" and d: "prefix ''/'' d" "segs d \<noteq> []"
  shows "moves (touches {segs d}) os (unpackTarGz untar a d)"
proof -
  have "moves (touches {segs d}) os (unpackEntry d t)" for t
  proof -
    let ?t = "path_join [d, path_clean (trim_space (te_name t))]"
    show ?thesis
    proof (cases "escapes d ?t")
      case True
      then show ?thesis by (simp add: unpackEntry_def Let_def tch.moves_ret tch.moves_fail)
    next
      case False
      then have n: "near {segs d} (segs ?t)" using not_escapes target_path d(1) by (auto simp: near_def)
      then have m: "moves (touches {segs d}) os (os_mkdir_all (butlast (segs ?t)) k)"
          "moves (touches {segs d}) os (os_mkdir_all (segs ?t) k)" for k
        using prefix_same_cases [OF _ prefixeq_butlast, of "segs d" "segs ?t"]
        by (auto intro!: tch_mkdir f simp: near_def)
      have "moves (touches {segs d}) os (unpackFile (segs ?t) t)"
        unfolding unpackFile_def by (auto intro!: tch_rules f n m split: option.splits)
      then show ?thesis
        using False m by (auto simp: unpackEntry_def Let_def intro!: tch_rules split: tar_type.splits)
    qed
  qed
  then show ?thesis
    unfolding unpackTarGz_def by (auto intro!: tch_rules f split: sum.splits option.splits)
qed

lemma touches_mono: "touches S h h' \<Longrightarrow> S \<subseteq> T \<Longrightarrow> touches T h h'"
  by (auto simp: touches_def intro: touched_mono)

lemma moves_mono: "moves (touches S) os a \<Longrightarrow> S \<subseteq> T \<Longrightarrow> moves (touches T) os a"
  unfolding moves_def using touches_mono by blast

lemma tch_log: "moves (touches S) os (log_stage s t)"
  by (simp add: moves_def log_stage_def logInstallStage_def touches_def)

lemma tch_fetchBundle:
  assumes f: "faultless os" and o: "\<forall>fs. set (en_order (ins_engine ins) fs) \<subseteq> set fs"
    and d: "prefix ''/'' d" "segs d \<noteq> []"
  shows "moves (touches {cacheDir, segs d}) os (fetchBundle ins p req d)"
proof -
  have "moves (touches S) os (readManifest ins d)" for S
    using tch_read(2) [OF f, of S] unfolding moves_def readManifest_def case_prod_beta
    by (auto split: sum.splits)
  moreover have "moves (touches {cacheDir, segs d}) os (os_mkdir_all (segs d) m)" for m
    by (rule tch_mkdir [OF f]) simp
  moreover have "moves (touches {cacheDir, segs d}) os (logBundle c)" for c
    unfolding logBundle_def by (auto intro!: tch_rules tch_log)
  moreover have "moves (touches {cacheDir, segs d}) os (ensureArtifactAvailable (ins_engine ins) hs u c)" for hs u c
    by (rule moves_mono [OF tch_ensure [OF f o]]) simp
  moreover have "moves (touches {cacheDir, segs d}) os (unpackTarGz (ins_untar ins) a d)" for a
    by (rule moves_mono [OF tch_unpack [OF f d]]) simp
  ultimately show ?thesis
    unfolding fetchBundle_def by (auto intro!: tch_rules tch_log)
qed

end
