(* ===== verification/Install_Undo.thy ===== *)
theory Install_Undo
  imports Fetch_Safety
begin

text \<open>
  A failed install leaves no trace: every step of the install keeps the rollback able to undo
  it, so that whatever step fails, restoring gives the tree back.
\<close>

subsection \<open>Every step can be undone\<close>

text \<open>
  The targets of an install are trimmed paths apart from each other and from the rollback
  directory.  While steps run, the backups hold what the tree had when the install began and the
  tree differs from it only at the captured targets and in the rollback directory; a step that
  fails may leave the next backup half made.
\<close>

definition apart :: "string set \<Rightarrow> path \<Rightarrow> bool" where
  "apart T root \<longleftrightarrow> (\<forall>t \<in> T. plain t \<and> parallel (segs t) root \<and> (\<forall>t' \<in> T. t = t' \<or> parallel (segs t) (segs t')))"

definition undoable :: "os \<Rightarrow> path \<Rightarrow> string set \<Rightarrow> fs \<Rightarrow> rollback \<times> host \<Rightarrow> bool" where
  "undoable os root T fs0 s \<longleftrightarrow>
     wf_fs (h_fs (snd s)) \<and> (\<forall>b \<in> set (rb_backups (fst s)). backup_ok os root (h_fs (snd s)) b fs0) \<and>
     distinct (map bk_path (rb_backups (fst s))) \<and> bk_path ` set (rb_backups (fst s)) \<subseteq> T \<and>
     touched (insert root ((\<lambda>b. segs (bk_path b)) ` set (rb_backups (fst s)))) fs0 (h_fs (snd s))"

definition kept :: "os \<Rightarrow> path \<Rightarrow> string set \<Rightarrow> fs \<Rightarrow> string set \<Rightarrow> rollback \<times> host \<Rightarrow> bool" where
  "kept os root T fs0 C s \<longleftrightarrow>
     undoable os root T fs0 s \<and> rb_root (fst s) = root \<and>
     rollback_inv os (fst s) (h_fs (snd s)) (replicate (length (rb_backups (fst s))) fs0) \<and>
     (\<forall>t \<in> C. captured t (fst s))"

lemma kept_undoable: "kept os root T fs0 C s \<Longrightarrow> undoable os root T fs0 s"
  by (simp add: kept_def)

lemma kept_mono: "kept os root T fs0 C s \<Longrightarrow> C' \<subseteq> C \<Longrightarrow> kept os root T fs0 C' s"
  by (auto simp: kept_def)

lemma backup_ok_tree:
  "(\<And>q. fs_get t (segs (bk_path b) @ q) = fs_get t' (segs (bk_path b) @ q)) \<Longrightarrow>
   backup_ok os root fs b t \<Longrightarrow> backup_ok os root fs b t'"
  unfolding backup_ok_def by (simp split: if_splits)

lemma list_all2_const: "list_all2 R xs (replicate (length xs) y) \<longleftrightarrow> (\<forall>x \<in> set xs. R x y)"
  by (induction xs) auto

lemma captured_iff: "captured t r \<longleftrightarrow> t \<in> bk_path ` set (rb_backups r)"
  by (auto simp: captured_def list_ex_iff)

lemma parallel_below: "parallel d p \<Longrightarrow> parallel d (p @ q)"
  by (metis parallel_commute parallel_append append_Nil2)

lemma plain_trim: "plain t \<Longrightarrow> trim_space t = t"
  by (simp add: plain_def)

text \<open>A writer of captured targets.\<close>

lemma kept_write:
  assumes k: "kept os root T fs0 C (r, h)" and a: "apart T root"
    and w: "touches (segs ` C) h h'"
  shows "kept os root T fs0 C (r, h')"
proof -
  have wf: "wf_fs (h_fs h)" and cap: "\<And>t. t \<in> C \<Longrightarrow> captured t r" and root: "rb_root r = root"
    and T: "bk_path ` set (rb_backups r) \<subseteq> T"
    and inv: "rollback_inv os r (h_fs h) (replicate (length (rb_backups r)) fs0)"
    and tc: "touched (insert root ((\<lambda>b. segs (bk_path b)) ` set (rb_backups r))) fs0 (h_fs h)"
    and ds: "distinct (map bk_path (rb_backups r))"
    using k by (auto simp: kept_def undoable_def)
  have C: "C \<subseteq> T" using cap T by (auto simp: captured_iff)
  have wf': "wf_fs (h_fs h')" and t: "touched (segs ` C) (h_fs h) (h_fs h')" using w wf by (auto simp: touches_def)
  have pr: "parallel (segs t) root" if "t \<in> C" for t using a C that by (auto simp: apart_def)
  have ops: "open_above (h_fs h) root" "\<And>b. b \<in> set (rb_backups r) \<Longrightarrow> open_above (h_fs h) (segs (bk_path b))"
    using inv root by (auto simp: rollback_inv_def list_all2_const backup_ok_def)
  have inv': "rollback_inv os r (h_fs h') (replicate (length (rb_backups r)) fs0)"
  proof (rule rollback_inv_change [OF inv wf'])
    show "\<forall>q. prefix (rb_root r) q \<longrightarrow> fs_get (h_fs h') q = fs_get (h_fs h) q"
      using touched_same [OF t] pr root by (auto simp: prefix_def intro: parallel_below)
    show "open_above (h_fs h') (rb_root r)"
      unfolding root by (rule touched_open [OF ops(1) t]) (use pr in \<open>auto simp: strict_prefix_def parallel_def\<close>)
    show "\<forall>b \<in> set (rb_backups r). open_above (h_fs h') (segs (bk_path b))"
    proof
      fix b assume b: "b \<in> set (rb_backups r)"
      have "\<not> strict_prefix (segs t) (segs (bk_path b))" if "t \<in> C" for t
      proof -
        have "t \<in> T" "bk_path b \<in> T" using C T that b by auto
        then have "t = bk_path b \<or> parallel (segs t) (segs (bk_path b))" using a unfolding apart_def by blast
        then show ?thesis by (auto simp: strict_prefix_def parallel_def)
      qed
      then show "open_above (h_fs h') (segs (bk_path b))" by (intro touched_open [OF ops(2) [OF b] t]) auto
    qed
  qed
  have "segs ` C \<subseteq> insert root ((\<lambda>b. segs (bk_path b)) ` set (rb_backups r))"
    using cap by (auto simp: captured_iff)
  then have "touched (insert root ((\<lambda>b. segs (bk_path b)) ` set (rb_backups r))) fs0 (h_fs h')"
    using touched_trans [OF tc] touched_mono [OF t] by blast
  moreover have "\<forall>b \<in> set (rb_backups r). backup_ok os root (h_fs h') b fs0"
    using inv' root by (simp add: rollback_inv_def list_all2_const)
  ultimately show ?thesis using wf' inv' ds T root cap by (simp add: kept_def undoable_def)
qed

text \<open>A capture, which may fail half way.\<close>

lemma tch_captureTarget:
  assumes f: "faultless os" and d: "near S (rb_root r @ [backupName (length (rb_backups r))])"
  shows "touches S h (snd (snd (captureTarget t os (r, h))))"
proof -
  have then': "moves (touches S) os a \<Longrightarrow> touches S h h1 \<Longrightarrow> touches S h (snd (a os h1))" for a :: "'a act" and h1
    unfolding moves_def by (blast intro: tch.R_trans)
  note steps = tch.R_refl then' [OF tch_read(1) [OF f]]
  have c: "moves (touches S) os (copyFile s (rb_root r @ [backupName (length (rb_backups r))]) m)"
    "moves (touches S) os (copyDir s (rb_root r @ [backupName (length (rb_backups r))]))" for s m
    by (rule tch_copyFile [OF f d] tch_copyDir [OF f d])+
  have e: "touches S h (snd (os_stat (segs t) os h))" using tch_read(1) [OF f] by (simp add: moves_def)
  show ?thesis
    unfolding captureTarget_def Let_def case_prod_beta
    using e tch.R_trans [OF e] c by (auto simp: moves_def split: sum.splits node.splits os_error.splits)
qed

lemma Capture_keeps:
  "fst (Capture p os s) \<noteq> None \<Longrightarrow> fst (snd (Capture p os s)) = fst s"
  by (auto simp: Capture_def captureTarget_def Let_def
      split: prod.splits sum.splits node.splits os_error.splits if_splits)

lemma tch_Capture: "faultless os \<Longrightarrow> touches {rb_root r} h (snd (snd (Capture p os (r, h))))"
proof -
  assume f: "faultless os"
  have m: "moves (touches {rb_root r}) os (os_mkdir_all (rb_root r) k)" for k
    by (rule tch_mkdir [OF f]) simp
  have "touches {rb_root r} h (snd (os_mkdir_all (rb_root r) k os h))" for k
    using m by (simp add: moves_def)
  moreover have "touches {rb_root r} h1 (snd (snd (captureTarget t os (r, h1))))" for t h1
    by (rule tch_captureTarget [OF f]) (simp add: near_def)
  ultimately show ?thesis
    unfolding Capture_def Let_def case_prod_beta
    by (auto simp: tch.R_refl split: sum.splits intro: tch.R_trans)
qed

lemma kept_capture:
  assumes f: "faultless os" and k: "kept os root T fs0 C (r, h)" and a: "apart T root" and t: "t \<in> T"
    and c: "Capture t os (r, h) = (None, r', h')"
  shows "kept os root T fs0 (insert t C) (r', h')"
proof -
  have pt: "trim_space t = t" "t \<noteq> []" "parallel (segs t) root" using a t plain_ne by (auto simp: apart_def plain_def)
  have inv: "rollback_inv os r (h_fs h) (replicate (length (rb_backups r)) fs0)" and root: "rb_root r = root"
    and tc: "touched (insert root ((\<lambda>b. segs (bk_path b)) ` set (rb_backups r))) fs0 (h_fs h)"
    and ds: "distinct (map bk_path (rb_backups r))" and T: "bk_path ` set (rb_backups r) \<subseteq> T"
    and cap: "\<And>t. t \<in> C \<Longrightarrow> captured t r" and wf: "wf_fs (h_fs h)"
    using k by (auto simp: kept_def undoable_def)
  consider (same) "captured t r" "r' = r" "h' = h"
    | (new) b where "bk_path b = t" "\<not> captured t r" "r' = addBackup b r"
        "rollback_inv os r' (h_fs h') (replicate (length (rb_backups r)) fs0 @ [h_fs h])"
    using Capture_inv [OF f inv c] pt root by auto
  then show ?thesis
  proof cases
    case same
    then show ?thesis using k by (auto simp: kept_def)
  next
    case new
    have "fs_get (h_fs h) (segs t @ q) = fs_get fs0 (segs t @ q)" for q
    proof (rule touched_same [OF tc])
      have "parallel d (segs t)" if d: "d \<in> insert root ((\<lambda>b. segs (bk_path b)) ` set (rb_backups r))" for d
      proof -
        show ?thesis
        proof (cases "d = root")
          case True
          then show ?thesis using pt(3) by (simp add: parallel_commute)
        next
          case False
          then obtain b' where b': "b' \<in> set (rb_backups r)" "d = segs (bk_path b')" using d by auto
          have "bk_path b' \<in> T" using T b'(1) by auto
          moreover have "bk_path b' \<noteq> t" using new(2) b'(1) by (auto simp: captured_iff)
          ultimately show ?thesis using a t b'(2) unfolding apart_def by blast
        qed
      qed
      then show "\<forall>d \<in> insert root ((\<lambda>b. segs (bk_path b)) ` set (rb_backups r)). parallel d (segs t @ q)"
        using parallel_below by blast
    qed
    then have tree: "backup_ok os root fs b (h_fs h) = backup_ok os root fs b fs0" for fs
      using backup_ok_tree [of "h_fs h" b fs0] backup_ok_tree [of fs0 b "h_fs h"] new(1) by metis
    have len: "length (rb_backups r') = Suc (length (rb_backups r))" and bs: "rb_backups r' = rb_backups r @ [b]"
      and root': "rb_root r' = root" using new(3) root by (simp_all add: addBackup_def)
    have all: "\<forall>x \<in> set (rb_backups r'). backup_ok os root (h_fs h') x fs0"
      using new(4) tree root' by (simp add: rollback_inv_def bs list_all2_append list_all2_const)
    then have inv': "rollback_inv os r' (h_fs h') (replicate (length (rb_backups r')) fs0)"
      using new(4) root' by (simp add: rollback_inv_def list_all2_const)
    have "touches {root} h h'" using tch_Capture [OF f, of r h t] c root by simp
    then have tc': "touched {root} (h_fs h) (h_fs h')" and wf': "wf_fs (h_fs h')" using wf by (auto simp: touches_def)
    have "touched (insert root ((\<lambda>b. segs (bk_path b)) ` set (rb_backups r'))) fs0 (h_fs h')"
      using touched_trans [OF touched_mono [OF tc] touched_mono [OF tc']] by (auto simp: bs)
    moreover have "distinct (map bk_path (rb_backups r'))" "bk_path ` set (rb_backups r') \<subseteq> T"
      using ds T t new(1,2) by (auto simp: bs captured_iff)
    moreover have "\<forall>t' \<in> insert t C. captured t' r'" using cap new(1) by (auto simp: captured_iff bs)
    ultimately show ?thesis using all inv' root' wf' by (simp add: kept_def undoable_def)
  qed
qed

lemma backup_elsewhere:
  assumes "backup_ok os root fs b fs0" and t: "touched {root @ [x]} fs fs'"
    and n: "fs_get fs (root @ [x]) = None" and wf: "wf_fs fs"
  shows "backup_ok os root fs' b fs0"
proof (rule backup_ok_cong [OF assms(1)])
  fix q assume e: "bk_existed b"
  then obtain y where y: "bk_backup b = root @ [y]" "fs_get fs (bk_backup b) \<noteq> None"
    using assms(1) by (auto simp: backup_ok_def)
  then have "y \<noteq> x" using n by auto
  then have "parallel (root @ [x]) (bk_backup b)" using y(1) by (auto simp: parallel_def)
  then show "fs_get fs' (bk_backup b @ q) = fs_get fs (bk_backup b @ q)"
    using touched_same [OF t] parallel_below by blast
next
  have "parallel (segs (bk_path b)) root" "open_above fs (segs (bk_path b))"
    using assms(1) by (auto simp: backup_ok_def)
  moreover have "\<not> strict_prefix (root @ [x]) (segs (bk_path b))"
    using calculation(1) by (auto simp: strict_prefix_def parallel_def prefix_def)
  ultimately show "open_above fs' (segs (bk_path b))" using touched_open [OF _ t] by auto
qed

lemma undoable_capture:
  assumes f: "faultless os" and k: "kept os root T fs0 C (r, h)" and a: "apart T root" and t: "t \<in> T"
    and c: "Capture t os (r, h) = (Some e, r', h')"
  shows "undoable os root T fs0 (r', h')"
proof -
  have inv: "rollback_inv os r (h_fs h) (replicate (length (rb_backups r)) fs0)" and root: "rb_root r = root"
    and tc: "touched (insert root ((\<lambda>b. segs (bk_path b)) ` set (rb_backups r))) fs0 (h_fs h)"
    and ds: "distinct (map bk_path (rb_backups r))" and T: "bk_path ` set (rb_backups r) \<subseteq> T"
    and wf: "wf_fs (h_fs h)"
    using k by (auto simp: kept_def undoable_def)
  obtain h1 where h1: "os_mkdir_all (rb_root r) 0x1ED os h = (Inr (), h1)"
    "rollback_inv os r (h_fs h1) (replicate (length (rb_backups r)) fs0)"
    using capture_root [OF f inv] by metis
  have r': "r' = r" using Capture_keeps [of t os "(r, h)"] c by simp
  have ct: "captureTarget (trim_space t) os (r, h1) = (Some e, r', h')"
    using c h1(1) by (simp add: Capture_def Let_def split: if_splits)
  let ?x = "backupName (length (rb_backups r))"
  have wf1: "wf_fs (h_fs h1)" and free: "fs_get (h_fs h1) (root @ [?x]) = None"
    and ok1: "\<forall>b \<in> set (rb_backups r). backup_ok os root (h_fs h1) b fs0"
    using h1(2) root by (auto simp: rollback_inv_def list_all2_const)
  have "touches {root @ [?x]} h1 h'"
    using tch_captureTarget [OF f, of "{root @ [?x]}" r h1 "trim_space t"] ct root by (simp add: near_def)
  then have t1: "touched {root @ [?x]} (h_fs h1) (h_fs h')" using wf1 by (simp add: touches_def)
  have ok: "\<forall>b \<in> set (rb_backups r). backup_ok os root (h_fs h') b fs0"
    using ok1 backup_elsewhere [OF _ t1 free wf1] by blast
  have "touches {root} h h'" using tch_Capture [OF f, of r h t] c root by simp
  then have tc': "touched {root} (h_fs h) (h_fs h')" and wf': "wf_fs (h_fs h')" using wf by (auto simp: touches_def)
  have "touched (insert root ((\<lambda>b. segs (bk_path b)) ` set (rb_backups r))) fs0 (h_fs h')"
    using touched_trans [OF tc touched_mono [OF tc']] by auto
  then show ?thesis using ok wf' ds T r' by (simp add: undoable_def)
qed

subsection \<open>Triples over the steps of an install\<close>

text \<open>
  From a state with \<open>P\<close> the step ends with \<open>Q\<close> when it succeeds, and with \<open>E\<close> when it fails.
\<close>

definition triple :: "os \<Rightarrow> ('s \<Rightarrow> bool) \<Rightarrow> ('s, 'e, 'a) prog \<Rightarrow> ('s \<Rightarrow> bool) \<Rightarrow> ('s \<Rightarrow> bool) \<Rightarrow> bool" where
  "triple os P a Q E \<longleftrightarrow> (\<forall>s. P s \<longrightarrow> (case a os s of (Inl _, s') \<Rightarrow> E s' | (Inr _, s') \<Rightarrow> Q s'))"

lemma triple_ret: "(\<And>s. P s \<Longrightarrow> Q s) \<Longrightarrow> triple os P (act_ret x) Q E"
  by (simp add: triple_def act_ret_def)

lemma triple_fail: "(\<And>s. P s \<Longrightarrow> E s) \<Longrightarrow> triple os P (act_fail e) Q E"
  by (simp add: triple_def act_fail_def)

lemma triple_bind: "triple os P m Q E \<Longrightarrow> (\<And>x. triple os Q (f x) R E) \<Longrightarrow> triple os P (act_bind m f) R E"
  unfolding triple_def act_bind_def by (fastforce split: prod.splits sum.splits)

lemma triple_pre: "(\<And>s. P s \<Longrightarrow> P' s) \<Longrightarrow> triple os P' m Q E \<Longrightarrow> triple os P m Q E"
  by (simp add: triple_def)

lemma triple_post: "triple os P m Q' E \<Longrightarrow> (\<And>s. Q' s \<Longrightarrow> Q s) \<Longrightarrow> triple os P m Q E"
  unfolding triple_def by (fastforce split: prod.splits sum.splits)

lemma triple_each:
  "(\<And>x. x \<in> set xs \<Longrightarrow> triple os P (f x) P E) \<Longrightarrow> triple os P (act_each f xs) P E"
  by (induction xs) (auto intro: triple_ret triple_bind)

lemma tripleD: "triple os P a Q E \<Longrightarrow> P s \<Longrightarrow> a os s = (Inl e, s') \<Longrightarrow> E s'"
  by (fastforce simp: triple_def)

lemma triple_capture:
  "faultless os \<Longrightarrow> apart T root \<Longrightarrow> t \<in> T \<Longrightarrow>
   triple os (kept os root T fs0 C) (capture t) (kept os root T fs0 (insert t C)) (undoable os root T fs0)"
  using kept_capture undoable_capture
  by (fastforce simp: triple_def capture_def split: prod.splits option.splits)

lemma triple_captures:
  assumes "faultless os" "apart T root"
  shows "set ts \<subseteq> T \<Longrightarrow>
    triple os (kept os root T fs0 C) (act_each capture ts) (kept os root T fs0 (C \<union> set ts)) (undoable os root T fs0)"
proof (induction ts arbitrary: C)
  case Nil
  then show ?case by (simp add: triple_ret)
next
  case (Cons t ts)
  have t: "t \<in> T" using Cons.prems by simp
  have "triple os (kept os root T fs0 (insert t C)) (act_each capture ts)
      (kept os root T fs0 (insert t C \<union> set ts)) (undoable os root T fs0)"
    by (rule Cons.IH) (use Cons.prems in simp)
  from triple_bind [OF triple_capture [OF assms t] this] show ?case by simp
qed

lemma triple_write:
  "apart T root \<Longrightarrow> moves (touches (segs ` C)) os m \<Longrightarrow>
   triple os (kept os root T fs0 C) (on_host m) (kept os root T fs0 C) (undoable os root T fs0)"
  using kept_write kept_undoable
  by (fastforce simp: triple_def on_host_def moves_def split: prod.splits sum.splits)

lemma triple_captured_write:
  assumes "faultless os" "apart T root" "t \<in> T" "moves (touches {segs t}) os m"
  shows "triple os (kept os root T fs0 {}) (act_bind (capture t) (\<lambda>_. on_host m)) (kept os root T fs0 {})
    (undoable os root T fs0)"
proof (rule triple_bind [OF triple_capture [OF assms(1-3)]])
  show "triple os (kept os root T fs0 {t}) (on_host m) (kept os root T fs0 {}) (undoable os root T fs0)"
    by (rule triple_post [OF triple_write [OF assms(2)]]) (use assms(4) in \<open>auto intro: kept_mono\<close>)
qed

lemma triple_quiet:
  "apart T root \<Longrightarrow> moves (touches {}) os m \<Longrightarrow>
   triple os (kept os root T fs0 {}) (on_host m) (kept os root T fs0 {}) (undoable os root T fs0)"
  by (rule triple_write) simp_all

subsection \<open>The steps of an install\<close>

definition installTargets :: "install_request \<Rightarrow> manifest \<Rightarrow> string list" where
  "installTargets req m =
     map fst (ir_files req) @ (if trim_space (mf_env_path m) = [] then [] else [mf_env_path m]) @
     [bin_install_path (mf_binary m)] @ assetPaths m @ [svc_unit_path (mf_service m)] @
     (if ngx_enabled (mf_nginx m) then [ngx_site_path (mf_nginx m)] else [])"

text \<open>Ranging over a map visits each entry once, in some order.\<close>

definition ranges :: "installer \<Rightarrow> bool" where
  "ranges ins \<longleftrightarrow> (\<forall>n files. mset (ins_range ins n files) = mset files) \<and>
     (\<forall>bs. mset (ins_backups ins bs) = mset bs) \<and>
     (\<forall>fs. mset (en_order (ins_engine ins) fs) = mset fs)"

lemma triple_read: "(\<And>s. triple os P (g s) Q E) \<Longrightarrow> triple os P (\<lambda>os s. g s os s) Q E"
  by (simp add: triple_def)

lemma set_range: "ranges ins \<Longrightarrow> set (ins_range ins n files) = set files"
  unfolding ranges_def using mset_eq_setD by blast

lemma tch_inlines:
  "faultless os \<Longrightarrow> list_all plain (map fst fs) \<Longrightarrow> moves (touches (segs ` set (map fst fs))) os (writeInlineFiles fs)"
  unfolding writeInlineFiles_def
  by (rule tch.moves_each) (auto simp: list_all_iff intro!: moves_mono [OF tch_inline])

lemma triple_inline:
  assumes f: "faultless os" and a: "apart T root" and r: "ranges ins" and T: "set (map fst (ir_files req)) \<subseteq> T"
  shows "triple os (kept os root T fs0 {}) (installInline ins req) (kept os root T fs0 {}) (undoable os root T fs0)"
proof (cases "ir_files req = []")
  case True
  then show ?thesis by (simp add: triple_def installInline_def)
next
  case False
  let ?K = "kept os root T fs0" and ?U = "undoable os root T fs0"
  define F where "F = set (map fst (ir_files req))"
  have F: "set (map fst (ins_range ins n (ir_files req))) = F" for n
    using set_range [OF r] by (simp add: F_def)
  have p: "list_all plain (map fst (ins_range ins n (ir_files req)))" for n
    unfolding list_all_iff F using T a by (auto simp: F_def apart_def)
  have c: "triple os (?K {}) (act_each capture (map fst (ins_range ins n (ir_files req)))) (?K F) ?U" for n
    using triple_captures [OF f a, of "map fst (ins_range ins n (ir_files req))" fs0 "{}"] T F by (simp add: F_def)
  have w: "triple os (?K F) (on_host (writeInlineFiles (ins_range ins n (ir_files req)))) (?K {}) ?U" for n
    by (rule triple_post [OF triple_write [OF a]])
      (use tch_inlines [OF f p, of n] F in \<open>auto intro: kept_mono\<close>)
  have w': "triple os (?K F) (\<lambda>os s1. on_host (writeInlineFiles (ins_range ins (h_tick (snd s1)) (ir_files req))) os s1)
      (?K {}) ?U"
    by (rule triple_read [where g = "\<lambda>s. on_host (writeInlineFiles (ins_range ins (h_tick (snd s)) (ir_files req)))", OF w])
  have "triple os (?K {}) (\<lambda>os s. act_bind (act_each capture (map fst (ins_range ins (h_tick (snd s)) (ir_files req))))
      (\<lambda>_ os s1. on_host (writeInlineFiles (ins_range ins (h_tick (snd s1)) (ir_files req))) os s1) os s) (?K {}) ?U"
    by (rule triple_read [where g = "\<lambda>s. act_bind (act_each capture (map fst (ins_range ins (h_tick (snd s)) (ir_files req))))
      (\<lambda>_ os s1. on_host (writeInlineFiles (ins_range ins (h_tick (snd s1)) (ir_files req))) os s1)",
      OF triple_bind [OF c w']])
  moreover have "installInline ins req =
      (\<lambda>os s. act_bind (act_each capture (map fst (ins_range ins (h_tick (snd s)) (ir_files req))))
        (\<lambda>_ os s1. on_host (writeInlineFiles (ins_range ins (h_tick (snd s1)) (ir_files req))) os s1) os s)"
    using False by (intro ext) (simp add: installInline_def)
  ultimately show ?thesis by (simp only:)
qed

lemma triple_runtime:
  assumes f: "faultless os" and a: "apart T root" and r: "ranges ins" and T: "set (installTargets req m) \<subseteq> T"
  shows "triple os (kept os root T fs0 {}) (writeRuntimeFiles ins req m d) (kept os root T fs0 {})
    (undoable os root T fs0)"
proof -
  let ?t = "\<lambda>x. triple os (kept os root T fs0 {}) x (kept os root T fs0 {}) (undoable os root T fs0)"
  have mem: "set (map fst (ir_files req)) \<subseteq> T" "trim_space (mf_env_path m) \<noteq> [] \<Longrightarrow> mf_env_path m \<in> T"
    "bin_install_path (mf_binary m) \<in> T" "set (assetPaths m) \<subseteq> T" "svc_unit_path (mf_service m) \<in> T"
    "ngx_enabled (mf_nginx m) \<Longrightarrow> ngx_site_path (mf_nginx m) \<in> T"
    using T by (auto simp: installTargets_def)
  have plain: "plain t" if "t \<in> T" for t using a that by (auto simp: apart_def)
  note one = triple_captured_write [OF f a]
  have inl: "?t (installInline ins req)"
    by (rule triple_inline [OF f a r mem(1)])
  have env: "?t (installEnv req m)"
    unfolding installEnv_def using plain mem(2) by (auto intro!: triple_ret one tch_env [OF f])
  have prog: "?t (installProgram m d)"
  proof -
    have "moves (touches {segs (bin_install_path (mf_binary m))}) os
        (installBinary s (bin_install_path (mf_binary m)) k)" for s k
      using tch_binary [OF f, of "bin_install_path (mf_binary m)"] plain [OF mem(3)] plain_trim by simp
    then show ?thesis unfolding installProgram_def by (intro one mem(3))
  qed
  have asset: "?t (installAsset d x)" if "x \<in> set (mf_assets m)" for x
  proof (cases "trim_space (asset_install_path x) = []")
    case True
    then show ?thesis by (simp add: installAsset_def triple_ret)
  next
    case False
    then have b: "trim_space (asset_install_path x) \<in> T" using that mem(4) by (auto simp: assetPaths_def)
    then have "moves (touches {segs (trim_space (asset_install_path x))}) os
        (installArtifactPath s (trim_space (asset_install_path x)))" for s
      using tch_asset [OF f, of "trim_space (asset_install_path x)"] plain [OF b] plain_trim by simp
    then show ?thesis unfolding installAsset_def Let_def using False by (simp add: one [OF b])
  qed
  have unit: "?t (installUnit ins m d x)" for x
    unfolding installUnit_def using plain mem(5) by (auto intro!: one tch_render [OF f])
  have site: "?t (installSite ins m d x)" for x
    unfolding installSite_def using plain mem(6) by (auto intro!: triple_ret one tch_render [OF f])
  show ?thesis unfolding writeRuntimeFiles_def
    by (intro triple_bind [OF inl] triple_bind [OF env] triple_bind [OF prog]
        triple_bind [OF triple_each [OF asset]] triple_bind [OF unit] site)
qed

text \<open>Commands, log and healthcheck leave the files alone.\<close>

lemma tch_run: "moves (touches S) os (run_cmd c)"
  by (simp add: moves_def touches_def run_cmd_def run_command_def split: option.splits)

lemma tch_health: "moves (touches S) os (runManifestHealthcheck ins m req)"
proof -
  have "h_fs (snd (runManifestHealthcheck ins m req os h)) = h_fs h" for h
    using probing_healthcheck by (simp add: probing_def)
  then show ?thesis by (simp add: moves_def touches_def)
qed

lemma triple_install:
  assumes f: "faultless os" and a: "apart T root" and r: "ranges ins" and T: "set (installTargets req m) \<subseteq> T"
  shows "triple os (kept os root T fs0 {}) (installManifest ins req m d) (kept os root T fs0 {})
    (undoable os root T fs0)"
proof -
  let ?t = "\<lambda>x. triple os (kept os root T fs0 {}) x (kept os root T fs0 {}) (undoable os root T fs0)"
  have check: "?t (of_check c)" for c :: "string + unit"
    by (cases c) (auto simp: of_check_def intro: triple_ret triple_fail kept_undoable)
  have log: "?t (on_host (log_stage s x))" for s x
    by (rule triple_quiet [OF a tch_log])
  have cmds: "?t (on_host (act_each run_cmd (applyCommands m)))"
    by (rule triple_quiet [OF a tch.moves_each [OF tch_run]])
  have health: "?t (on_host (runManifestHealthcheck ins m req))"
    by (rule triple_quiet [OF a tch_health])
  show ?thesis unfolding installManifest_def
    by (intro triple_bind [OF check] triple_bind [OF log] triple_bind [OF triple_runtime [OF f a r T]]
        triple_bind [OF cmds] triple_bind [OF health] triple_ret)
qed

subsection \<open>A failed install leaves no trace\<close>

text \<open>
  Outside \<open>W\<close> a path is as it was, or has the content it had with the mode that a copy through
  the umask gives it, or is a directory that was not there.
\<close>

definition undone :: "os \<Rightarrow> path set \<Rightarrow> fs \<Rightarrow> fs \<Rightarrow> bool" where
  "undone os W fs fs' \<longleftrightarrow> (\<forall>q. (\<exists>d \<in> W. prefix d q) \<or> fs_get fs' q = fs_get fs q \<or>
     fs_get fs' q = map_option (remode os) (fs_get fs q) \<or> fs_get fs q = None \<and> is_dir (fs_get fs' q))"

lemma remode_dir [simp]: "is_dir (map_option (remode os) n) = is_dir n"
  by (cases n; cases "the n") (auto simp: is_dir_def)

lemma touched_undone: "touched W fs fs' \<Longrightarrow> undone os W fs fs'"
  unfolding touched_def undone_def by blast

lemma undone_after:
  "touched W fs fs1 \<Longrightarrow> undone os W' fs1 fs' \<Longrightarrow> undone os (W \<union> W') fs fs'"
  unfolding touched_def undone_def by (metis Un_iff remode_dir)

lemma undoable_restored:
  assumes f: "faultless os" and a: "apart T root" and o: "\<forall>bs. mset (order bs) = mset bs"
    and u: "undoable os root T fs0 (r, h)" and re: "Restore order m os r h = (errs, h')"
  shows "wf_fs (h_fs h') \<and> undone os {root} fs0 (h_fs h')"
proof -
  let ?bs = "rb_backups r" and ?P = "\<lambda>b. segs (bk_path b)"
  have wf: "wf_fs (h_fs h)" and ok: "\<forall>b \<in> set ?bs. backup_ok os root (h_fs h) b fs0"
    and ds: "distinct (map bk_path ?bs)" and T: "bk_path ` set ?bs \<subseteq> T"
    and tc: "touched (insert root (?P ` set ?bs)) fs0 (h_fs h)"
    using u by (auto simp: undoable_def)
  have l: "list_all2 (backup_ok os root (h_fs h)) ?bs (replicate (length ?bs) fs0)"
    using ok by (simp add: list_all2_const)
  have p: "\<forall>b \<in> set ?bs. \<forall>b' \<in> set ?bs. bk_path b \<noteq> bk_path b' \<longrightarrow> parallel (?P b) (?P b')"
    using a T unfolding apart_def by blast
  note res = Restore_files [OF f wf l ds p o [rule_format] re]
  have gives: "fs_get (h_fs h') (?P b @ q) = map_option (remode os) (fs_get fs0 (?P b @ q))" if b: "b \<in> set ?bs" for b q
  proof -
    obtain i where i: "i < length ?bs" "?bs ! i = b" using b by (auto simp: in_set_conv_nth)
    show ?thesis using res(1) [rule_format, of i q] i by simp
  qed
  have "undone os {root} fs0 (h_fs h')"
    unfolding undone_def
  proof
    fix q
    show "(\<exists>d \<in> {root}. prefix d q) \<or> fs_get (h_fs h') q = fs_get fs0 q \<or>
      fs_get (h_fs h') q = map_option (remode os) (fs_get fs0 q) \<or> fs_get fs0 q = None \<and> is_dir (fs_get (h_fs h') q)"
    proof (cases "\<exists>b \<in> set ?bs. prefix (?P b) q")
      case True
      then show ?thesis using gives by (auto simp: prefix_def)
    next
      case False
      then have "fs_get (h_fs h') q = fs_get (h_fs h) q \<or> fs_get (h_fs h) q = None \<and> is_dir (fs_get (h_fs h') q)"
        using res(3) unfolding touched_def by blast
      moreover have "prefix root q \<or> fs_get (h_fs h) q = fs_get fs0 q \<or> fs_get fs0 q = None \<and> is_dir (fs_get (h_fs h) q)"
        using tc False unfolding touched_def by blast
      ultimately show ?thesis by auto
    qed
  qed
  then show ?thesis using res(2) by simp
qed

lemma kept_start:
  assumes "wf_fs (h_fs h)" "open_above (h_fs h) root" "\<And>q. fs_get (h_fs h) (root @ q) = None" "segs (trim_space d) = root"
  shows "kept os root T (h_fs h) {} (newInstallRollback d, h)"
  using assms(1,2,4) assms(3) [of "[]"] assms(3)
  by (simp add: kept_def undoable_def newInstallRollback_def rollback_inv_def)

lemma withRollback_undoes:
  assumes f: "faultless os" and a: "apart T root" and r: "ranges ins" and T: "set (installTargets req m) \<subseteq> T"
    and start: "wf_fs (h_fs h)" "open_above (h_fs h) root" "\<And>q. fs_get (h_fs h) (root @ q) = None" "segs (trim_space d) = root"
    and run: "withRollback ins d m (installManifest ins req m u) os h = (Inl e, h')"
  shows "wf_fs (h_fs h') \<and> undone os {root} (h_fs h) (h_fs h')"
proof -
  from run obtain e0 rb h1 errs where s: "installManifest ins req m u os (newInstallRollback d, h) = (Inl e0, (rb, h1))"
    and re: "Restore (ins_backups ins) m os rb (logInstallStage StageRollback ''rolling back partial install'' h1) = (errs, h')"
    by (auto simp: withRollback_def split: prod.splits sum.splits)
  have "undoable os root T (h_fs h) (rb, h1)"
    using tripleD [OF triple_install [OF f a r T] kept_start [OF start] s] .
  then have "undoable os root T (h_fs h) (rb, logInstallStage StageRollback ''rolling back partial install'' h1)"
    by (simp add: undoable_def logInstallStage_def)
  then show ?thesis using undoable_restored [OF f a _ _ re] r by (simp add: ranges_def)
qed

definition workDir :: "installer \<Rightarrow> os \<Rightarrow> host \<Rightarrow> path" where
  "workDir ins os h = segs (ins_tmp_dir ins) @ [''aurora-agent-install-'' @ show_nat (os_suffix os (h_tick h))]"

lemma workDir_ok: "\<forall>s \<in> set (workDir ins os h). proper_seg s \<and> CHR ''/'' \<notin> set s"
proof -
  have "CHR ''/'' \<notin> set (show_nat k)" for k using digits_show_nat [of k] by force
  then show ?thesis using segs_ok [of "ins_tmp_dir ins"] by (auto simp: workDir_def proper_seg_def)
qed

lemma trim_space_ends:
  assumes "c \<notin> hd ` set ws_seqs" "d \<notin> last ` set ws_seqs"
  shows "trim_space (c # s @ [d]) = c # s @ [d]"
proof (rule trim_space_trimmed)
  have "starts_seq ws_seqs (c # s @ [d]) = None"
    using assms(1) by (force simp: starts_seq_None_iff prefix_Cons neq_Nil_conv)
  moreover have "d \<noteq> hd q" if "q \<in> set (map rev ws_seqs)" for q
    using that assms(2) by (auto simp: hd_rev)
  then have "\<forall>q \<in> set (map rev ws_seqs). q \<noteq> [] \<longrightarrow> \<not> prefix q (d # rev s @ [c])"
    unfolding prefix_Cons by (metis list.sel(1))
  then have "starts_seq (map rev ws_seqs) (d # rev s @ [c]) = None"
    by (simp only: starts_seq_None_iff)
  ultimately show "trimmed (c # s @ [d])" by (simp add: trimmed_def)
qed

lemma join_path_snoc: "p \<noteq> [] \<Longrightarrow> join c (p @ [x]) = join c p @ c @ x"
  by (induction c p rule: join.induct) auto

lemma workDir_join:
  assumes "proper_seg x" "CHR ''/'' \<notin> set x" "last x \<notin> last ` set ws_seqs"
  shows "prefix ''/'' (path_join [path_text (workDir ins os h), x])"
    and "segs (path_join [path_text (workDir ins os h), x]) = workDir ins os h @ [x]"
    and "trim_space (path_join [path_text (workDir ins os h), x]) = path_join [path_text (workDir ins os h), x]"
proof -
  let ?w = "workDir ins os h"
  have "?w \<noteq> []" by (simp add: workDir_def)
  then have r: "prefix ''/'' (path_text ?w)" by (cases ?w) (auto simp: path_text_def)
  show p: "prefix ''/'' (path_join [path_text ?w, x])" by (rule target_path [OF r])
  show s: "segs (path_join [path_text ?w, x]) = ?w @ [x]"
    using segs_join_name [OF r assms(1,2)] segs_path_text [OF workDir_ok] by simp
  obtain y k where x: "x = y @ [k]" using assms(1) by (cases x rule: rev_cases) (auto simp: proper_seg_def)
  have "path_join [path_text ?w, x] = CHR ''/'' # (join ''/'' ?w @ ''/'' @ y) @ [k]"
    using path_clean_rooted [OF p] target_path(2) [OF r, of x] s join_path_snoc [OF \<open>?w \<noteq> []\<close>, of "''/''" x] x by simp
  moreover have "CHR ''/'' \<notin> hd ` set ws_seqs" by (auto simp: ws_seqs_def)
  ultimately show "trim_space (path_join [path_text ?w, x]) = path_join [path_text ?w, x]"
    using trim_space_ends [of "CHR ''/''" k "join ''/'' ?w @ ''/'' @ y"] assms(3) x by simp
qed

lemma undone_mono: "undone os W fs fs' \<Longrightarrow> (\<And>d. d \<in> W \<Longrightarrow> near W' d) \<Longrightarrow> undone os W' fs fs'"
  unfolding undone_def near_def by (metis prefix_order.trans)

lemma remove_all_gone:
  assumes "faultless os" "wf_fs (h_fs h)" "w \<noteq> []"
  shows "fs_get (h_fs (snd (os_remove_all w os h))) q = (if prefix w q then None else fs_get (h_fs h) q)"
proof (cases "fs_get (h_fs h) w")
  case None
  then have "fs_get (h_fs h) q = None" if "prefix w q"
    using that wf_none_below [OF assms(2)] by (auto simp: prefix_def)
  then show ?thesis
    using assms(1,3) by (auto simp: os_remove_all_def os_call_ok remove_tree_def fs_get_del split: sum.splits os_error.splits)
next
  case (Some n)
  then show ?thesis
    using walk_to_some [OF assms(2) Some] assms(1,3)
    by (simp add: os_remove_all_def os_call_ok remove_tree_def fs_get_del)
qed

text \<open>From the moment the working directory is there to the last error.\<close>

lemma failed_steps_undone:
  assumes f: "faultless os" and r: "ranges ins" and wf: "wf_fs (h_fs h)"
    and w: "w = workDir ins os h0" and dir: "is_dir (fs_get (h_fs h) w)"
    and empty: "\<And>q. q \<noteq> [] \<Longrightarrow> fs_get (h_fs h) (w @ q) = None"
    and tmp: "parallel (segs (ins_tmp_dir ins)) cacheDir"
    and a: "\<And>raw m. loadManifest (ins_decode ins raw) = Inr m \<Longrightarrow> apart (set (installTargets req m)) w"
    and run: "act_bind (fetchBundle ins p req (path_join [path_text w, ''bundle''])) (\<lambda>m.
        withRollback ins (path_join [path_text w, ''rollback'']) m
          (installManifest ins req m (path_join [path_text w, ''bundle'']))) os h = (Inl e, h')"
  shows "wf_fs (h_fs h') \<and> undone os {cacheDir, w} (h_fs h) (h_fs h')"
proof -
  let ?u = "path_join [path_text w, ''bundle'']" and ?d = "path_join [path_text w, ''rollback'']"
  let ?root = "w @ [''rollback'']"
  have u: "prefix ''/'' ?u" "segs ?u = w @ [''bundle'']"
    unfolding w by (rule workDir_join; simp add: proper_seg_def ws_seqs_def)+
  have d: "segs (trim_space ?d) = ?root"
  proof -
    have "trim_space ?d = ?d" "segs ?d = ?root"
      unfolding w by (rule workDir_join; simp add: proper_seg_def ws_seqs_def)+
    then show ?thesis by simp
  qed
  have o: "\<forall>fs. set (en_order (ins_engine ins) fs) \<subseteq> set fs"
    using r unfolding ranges_def by (metis mset_eq_setD order_refl)
  have pc: "parallel cacheDir w"
    unfolding w workDir_def by (rule parallel_below) (use tmp in \<open>simp add: parallel_commute\<close>)
  obtain x h3 where x: "fetchBundle ins p req ?u os h = (x, h3)" by fastforce
  have mv: "moves (touches {cacheDir, w @ [''bundle'']}) os (fetchBundle ins p req ?u)"
    using tch_fetchBundle [OF f o u(1)] u(2) by simp
  have t: "touched {cacheDir, w @ [''bundle'']} (h_fs h) (h_fs h3)" and wf3: "wf_fs (h_fs h3)"
    using tch.movesD [OF mv x] wf by (auto simp: touches_def)
  have near: "near {cacheDir, w} c" if "c \<in> {cacheDir, w @ [''bundle'']} \<union> {?root}" for c
    using that by (auto simp: near_def)
  show ?thesis
  proof (cases x)
    case (Inl e1)
    then have "h' = h3" using run x by (simp add: act_bind_def)
    then show ?thesis using wf3 undone_mono [OF touched_undone [OF t]] near by auto
  next
    case (Inr m)
    then have run3: "withRollback ins ?d m (installManifest ins req m ?u) os h3 = (Inl e, h')"
      using run x by (simp add: act_bind_def)
    obtain raw where raw: "loadManifest (ins_decode ins raw) = Inr m" using fetchBundle_ok x Inr by blast
    have ap: "apart (set (installTargets req m)) ?root"
      using a [OF raw] by (auto simp: apart_def intro: parallel_below)
    have par: "\<forall>c \<in> {cacheDir, w @ [''bundle'']}. parallel c (?root @ q)" for q
      using parallel_below [OF pc, of "''rollback'' # q"] by (auto simp: parallel_def)
    have free: "fs_get (h_fs h3) (?root @ q) = None" for q
      using touched_same [OF t par] empty [of "''rollback'' # q"] by simp
    have op: "open_above (h_fs h3) ?root"
    proof (rule touched_open [OF _ t])
      show "open_above (h_fs h) ?root"
        using dir wf_get_open [OF wf, of w] prefix_butlast_iff [of ?root]
        by (auto simp: open_above_def is_dir_iff) (metis option.distinct(1) prefix_order.le_less)
      show "\<forall>c \<in> {cacheDir, w @ [''bundle'']}. \<not> strict_prefix c ?root"
        using par [of "[]"] by (auto simp: parallel_def strict_prefix_def)
    qed
    have "wf_fs (h_fs h') \<and> undone os {?root} (h_fs h3) (h_fs h')"
      by (rule withRollback_undoes [OF f ap r order.refl wf3 op free d run3])
    then show ?thesis using undone_mono [OF undone_after [OF t]] near by blast
  qed
qed

text \<open>From the creation of the working directory to its removal.\<close>

lemma failed_work_undone:
  assumes f: "faultless os" and r: "ranges ins" and wf: "wf_fs (h_fs h)"
    and tmp: "parallel (segs (ins_tmp_dir ins)) cacheDir"
    and a: "\<And>raw m. loadManifest (ins_decode ins raw) = Inr m \<Longrightarrow> apart (set (installTargets req m)) (workDir ins os h)"
    and temp: "os_temp (Dir k) (segs (ins_tmp_dir ins)) ''aurora-agent-install-'' [] os h = (Inr w, h2)"
    and run: "act_bind (fetchBundle ins p req (path_join [path_text w, ''bundle''])) (\<lambda>m.
        withRollback ins (path_join [path_text w, ''rollback'']) m
          (installManifest ins req m (path_join [path_text w, ''bundle'']))) os h2 = (Inl e, hA)"
  shows "undone os {cacheDir} (h_fs h) (h_fs (snd (os_remove_all w os hA)))"
proof -
  let ?w = "workDir ins os h"
  have t: "w = ?w" "fs_get (h_fs h) ?w = None" "h_fs h2 = fs_put (h_fs h) ?w (Dir k)"
    "\<exists>k. walk_to (h_fs h) [] (butlast ?w) = Inr (Dir k)"
    using temp
    by (auto simp: os_temp_def os_call_ok f make_temp_def workDir_def split: sum.splits node.splits if_splits)
  have wn: "?w \<noteq> []" by (simp add: workDir_def)
  have below: "fs_get (h_fs h) q = None" if "prefix ?w q" for q
    using that wf_none_below [OF wf t(2)] by (auto simp: prefix_def)
  have wf2: "wf_fs (h_fs h2)"
    unfolding t(3) by (rule wf_put [OF wf wn]) (use t(2,4) walk_to_get [of "h_fs h" "[]" "butlast ?w"] in auto)
  have g2: "fs_get (h_fs h2) q = (if q = ?w then Some (Dir k) else fs_get (h_fs h) q)" for q
    by (simp add: t(3) fs_get_put [OF wn])
  have A: "wf_fs (h_fs hA) \<and> undone os {cacheDir, ?w} (h_fs h2) (h_fs hA)"
    by (rule failed_steps_undone [OF f r wf2 refl _ _ tmp a run [unfolded t(1)]]) (use below in \<open>auto simp: g2\<close>)
  have g': "fs_get (h_fs (snd (os_remove_all w os hA))) q = (if prefix ?w q then None else fs_get (h_fs hA) q)" for q
    unfolding t(1) using remove_all_gone [OF f _ wn] A by blast
  have "fs_get (h_fs (snd (os_remove_all w os hA))) q = fs_get (h_fs h) q" if "prefix ?w q" for q
    using g' below [OF that] that by simp
  moreover have "fs_get (h_fs h2) q = fs_get (h_fs h) q" "fs_get (h_fs (snd (os_remove_all w os hA))) q = fs_get (h_fs hA) q"
    if "\<not> prefix ?w q" for q
    using that g2 g' by auto
  ultimately show ?thesis using conjunct2 [OF A] unfolding undone_def by (metis insert_iff singletonD)
qed

text \<open>
  C3: When the file calls work, an install that fails, whichever check, network answer, archive,
  template, command or healthcheck it fails at, leaves the host's files as they were: beside the
  cache of bundles every path has the content it had before, at most with the mode that a copy
  through the umask gives it, and only directories may have been added.  The paths of the request
  and of the manifest are to be trimmed and lie apart from each other and from the working directory.
\<close>

theorem failed_install_leaves_no_trace:
  assumes "faultless os" and "ranges ins" and "wf_fs (h_fs h)"
    and "parallel (segs (ins_tmp_dir ins)) cacheDir"
    and "\<And>raw m. loadManifest (ins_decode ins raw) = Inr m \<Longrightarrow> apart (set (installTargets req m)) (workDir ins os h)"
    and "InstallModule ins p req os h = (Inl e, h')"
  shows "undone os {cacheDir} (h_fs h) (h_fs h')"
proof -
  define h1 where "h1 = logInstallStage StageValidate ''validated install request'' h"
  have same: "h_fs h1 = h_fs h" "workDir ins os h1 = workDir ins os h"
    by (simp_all add: h1_def logInstallStage_def workDir_def)
  consider "h_fs h' = h_fs h"
    | w h2 hA where "os_temp (Dir (dir_masked os 0x1C0)) (segs (ins_tmp_dir ins)) ''aurora-agent-install-'' [] os h1 = (Inr w, h2)"
        "act_bind (fetchBundle ins p req (path_join [path_text w, ''bundle''])) (\<lambda>m.
          withRollback ins (path_join [path_text w, ''rollback'']) m
            (installManifest ins req m (path_join [path_text w, ''bundle'']))) os h2 = (Inl e, hA)"
        "h' = snd (os_remove_all w os hA)"
  proof (cases "os_temp (Dir (dir_masked os 0x1C0)) (segs (ins_tmp_dir ins)) ''aurora-agent-install-'' [] os h1")
    case (Pair r h2)
    show ?thesis
    proof (cases r)
      case (Inl e')
      then have "h_fs h2 = h_fs h"
        using Pair same by (auto simp: os_temp_def os_call_ok assms(1) make_temp_def split: sum.splits node.splits if_splits)
      then show ?thesis using that(1) assms(6) Pair Inl
        by (auto simp: InstallModule_def act_bind_def of_check_def act_fail_def act_ret_def log_stage_def wrap_def h1_def [symmetric]
            split: sum.splits)
    next
      case (Inr w)
      then show ?thesis using that assms(6) Pair
        by (auto simp: InstallModule_def act_bind_def of_check_def act_fail_def act_ret_def log_stage_def wrap_def
            act_finally_def h1_def [symmetric] split: sum.splits prod.splits)
    qed
  qed
  then show ?thesis
  proof cases
    case 1
    then show ?thesis by (simp add: undone_def)
  next
    case (2 w h2 hA)
    have "undone os {cacheDir} (h_fs h1) (h_fs (snd (os_remove_all w os hA)))"
      by (rule failed_work_undone [OF assms(1,2) _ assms(4) _ 2(1,2)]) (simp_all add: same assms(3,5))
    then show ?thesis unfolding 2(3) same(1) .
  qed
qed

text \<open>The sample install with a systemd that refuses: the unit file of before is back, the binary gone.\<close>

lemma sample_fails:
  "\<exists>e h'. InstallModule sample_installer sample_policy sample_ums (answering (\<lambda>_. Some ''boom'')) (host_with install_tree)
     = (Inl e, h')"
proof -
  let ?c = "\<lambda>_. Some ''boom''"
  have "\<exists>e s. installManifest sample_installer sample_ums sample_valid (path_join [sample_work, ''bundle'']) (answering ?c)
      (newInstallRollback (path_join [sample_work, ''rollback'']), snd (sample_fetched ?c)) = (Inl e, s)"
    unfolding sample_install_steps
    by (simp add: act_bind_def on_host_def log_stage_def applyCommands_def run_cmd_def run_command_def answering_def)
  then have "\<exists>e h4. withRollback sample_installer (path_join [sample_work, ''rollback'']) sample_valid
      (installManifest sample_installer sample_ums sample_valid (path_join [sample_work, ''bundle''])) (answering ?c)
      (snd (sample_fetched ?c)) = (Inl e, h4)"
    by (elim exE) (simp add: withRollback_def case_prod_beta)
  then show ?thesis using sample_around by blast
qed

lemma sample_targets:
  "installTargets sample_ums sample_valid = [''/etc/e'', ''/u/b'', ''/etc/s'', ''/n'']"
  "map segs [''/etc/e'', ''/u/b'', ''/etc/s'', ''/n''] = [[''etc'', ''e''], [''u'', ''b''], [''etc'', ''s''], [''n'']]"
  "map dir_of [''/etc/e'', ''/u/b'', ''/etc/s'', ''/n''] = [[''etc''], [''u''], [''etc''], []]"
  "map trim_space [''/etc/e'', ''/u/b'', ''/etc/s'', ''/n''] = [''/etc/e'', ''/u/b'', ''/etc/s'', ''/n'']"
  "workDir sample_installer (answering c) (host_with install_tree) = [''tmp'', ''aurora-agent-install-0'']"
  by code_simp+

lemma sample_apart:
  "loadManifest (ins_decode sample_installer raw) = Inr m \<Longrightarrow>
   apart (set (installTargets sample_ums m)) (workDir sample_installer (answering c) (host_with install_tree))"
proof -
  assume m: "loadManifest (ins_decode sample_installer raw) = Inr m"
  have "loadManifest (ins_decode sample_installer raw) = Inr sample_valid" by code_simp
  then have "m = sample_valid" using m by simp
  then show ?thesis using sample_targets(2-4)
    by (simp add: sample_targets(1,5) apart_def plain_def parallel_def)
qed

theorem failed_install_leaves_no_trace_witness:
  "\<exists>e h'. InstallModule sample_installer sample_policy sample_ums (answering (\<lambda>_. Some ''boom'')) (host_with install_tree)
       = (Inl e, h') \<and>
     fs_get (h_fs h') [''etc'', ''s''] = Some (Reg ''old'' 0x1A4) \<and>
     (fs_get (h_fs h') [''u'', ''b''] = None \<or> is_dir (fs_get (h_fs h') [''u'', ''b'']))"
proof -
  obtain e h' where run: "InstallModule sample_installer sample_policy sample_ums (answering (\<lambda>_. Some ''boom''))
      (host_with install_tree) = (Inl e, h')" using sample_fails by blast
  have f: "faultless (answering (\<lambda>_. Some ''boom''))" by (simp add: faultless_def answering_def sample_os_def)
  have r: "ranges sample_installer" by (simp add: ranges_def sample_installer_def sample_engine_def)
  have wf: "wf_fs (h_fs (host_with install_tree))"
    by (rule fs_wfI) (simp add: host_with_def install_tree_def fs_get_def)
  have p: "parallel (segs (ins_tmp_dir sample_installer)) cacheDir"
    by (simp add: sample_steps(3) cacheDir_def parallel_def)
  have u: "undone (answering (\<lambda>_. Some ''boom'')) {cacheDir} (h_fs (host_with install_tree)) (h_fs h')"
    by (rule failed_install_leaves_no_trace [OF f r wf p sample_apart run])
  have g: "fs_get (h_fs (host_with install_tree)) [''etc'', ''s''] = Some (Reg ''old'' 0x1A4)"
    "fs_get (h_fs (host_with install_tree)) [''u'', ''b''] = None"
    "remode (answering (\<lambda>_. Some ''boom'')) (Reg ''old'' 0x1A4) = Reg ''old'' 0x1A4"
    by code_simp+
  have "\<not> prefix cacheDir [''etc'', ''s'']" "\<not> prefix cacheDir [''u'', ''b'']" by (simp_all add: cacheDir_def)
  then have "fs_get (h_fs h') [''etc'', ''s''] = Some (Reg ''old'' 0x1A4)"
    "fs_get (h_fs h') [''u'', ''b''] = None \<or> is_dir (fs_get (h_fs h') [''u'', ''b''])"
    using u g unfolding undone_def by (metis option.simps(9) singletonD option.distinct(1), metis option.simps(8) singletonD)
  then show ?thesis using run by blast
qed

end
