(* ===== verification/Journal.thy ===== *)
theory Journal
  imports State_Store Policy
begin

text \<open>
  The operation journal (\<^verbatim>\<open>internal/agent/install/operation_journal.go\<close>): every install,
  restart and uninstall is recorded under its request id before it runs and when it ends, a
  repeated request id is answered from the record, and an in-memory lock admits one
  operation per module.  The state is the journal file and the lock table; the operation
  handles a handler holds are values.  The last part is a step relation over concurrent
  handlers and restarts of the agent, with its reachable states.
\<close>

subsection \<open>Data\<close>

record op_snapshot =
  os_version :: string
  os_service_name :: string
  os_endpoint :: string
  os_status :: string
  os_health :: string

record op_record =
  or_request_id :: string
  or_action :: string
  or_module :: string
  or_runtime :: string
  or_status :: string
  or_stage :: install_stage
  or_started_at :: string
  or_updated_at :: string
  or_finished_at :: string
  or_error_text :: string
  or_result :: "op_snapshot option"

record op_handle =
  oh_record :: op_record
  oh_active :: bool

record journal =
  jn_file :: "op_record state_file"
  jn_locks :: "string \<Rightarrow> string option"

abbreviation operationActionInstall :: string where "operationActionInstall \<equiv> ''install''"
abbreviation operationActionRestart :: string where "operationActionRestart \<equiv> ''restart''"
abbreviation operationActionUninstall :: string where "operationActionUninstall \<equiv> ''uninstall''"

abbreviation operationStatusRunning :: string where "operationStatusRunning \<equiv> ''running''"
abbreviation operationStatusCompleted :: string where "operationStatusCompleted \<equiv> ''completed''"
abbreviation operationStatusFailed :: string where "operationStatusFailed \<equiv> ''failed''"
abbreviation operationStatusInterrupted :: string where "operationStatusInterrupted \<equiv> ''interrupted''"

datatype journal_error =
    ModuleRequired
  | RequestIdRequired
  | JournalFile file_error
  | AlreadyRunning string
  | OtherRunning string
  | ModuleLocked string

fun journal_error_text :: "journal_error \<Rightarrow> string" where
  "journal_error_text ModuleRequired = ''module is required''"
| "journal_error_text RequestIdRequired = ''request_id is required''"
| "journal_error_text (JournalFile e) = file_error_text ''operation journal'' e"
| "journal_error_text (AlreadyRunning r) = ''operation '' @ r @ '' is already running''"
| "journal_error_text (OtherRunning m) = ''another operation is already running for module '' @ m"
| "journal_error_text (ModuleLocked m) = ''module '' @ m @ '' already has an active operation''"

subsection \<open>Normal forms\<close>

fun firstNonEmpty :: "string list \<Rightarrow> string" where
  "firstNonEmpty [] = []"
| "firstNonEmpty (value # values) =
     (let trimmed = trim_space value in
      if trimmed \<noteq> [] then trimmed else firstNonEmpty values)"

definition normalizeOperationResultSnapshot :: "op_snapshot option \<Rightarrow> op_snapshot option" where
  "normalizeOperationResultSnapshot result =
     (case result of
        None \<Rightarrow> None
      | Some r \<Rightarrow>
          Some \<lparr>os_version = trim_space (os_version r),
                os_service_name = trim_space (os_service_name r),
                os_endpoint = trim_space (os_endpoint r),
                os_status = trim_space (os_status r),
                os_health = normalizeInstalledModuleHealth (os_health r)\<rparr>)"

definition normalizeOperationStatus :: "string \<Rightarrow> string" where
  "normalizeOperationStatus raw =
     (let s = to_lower (trim_space raw) in
      if s = [] \<or> s = operationStatusRunning then operationStatusRunning
      else if s = operationStatusCompleted then operationStatusCompleted
      else if s = operationStatusFailed then operationStatusFailed
      else if s = operationStatusInterrupted then operationStatusInterrupted
      else trim_space raw)"

definition normalizeOperationRecord :: "string \<Rightarrow> op_record \<Rightarrow> op_record" where
  "normalizeOperationRecord now r =
     (let started = (if trim_space (or_started_at r) = [] then now else trim_space (or_started_at r)) in
      \<lparr>or_request_id = trim_space (or_request_id r),
       or_action = trim_space (or_action r),
       or_module = normalizeModuleName (or_module r),
       or_runtime = firstNonEmpty [trim_space (or_runtime r), RuntimeLinuxSystemd],
       or_status = normalizeOperationStatus (or_status r),
       or_stage = or_stage r,
       or_started_at = started,
       or_updated_at =
         (if trim_space (or_updated_at r) = [] then started else trim_space (or_updated_at r)),
       or_finished_at = trim_space (or_finished_at r),
       or_error_text = trim_space (or_error_text r),
       or_result = normalizeOperationResultSnapshot (or_result r)\<rparr>)"

subsection \<open>The journal file\<close>

definition loadOperationRecords :: "io \<Rightarrow> journal \<Rightarrow> file_error + op_record list" where
  "loadOperationRecords io j =
     (case read_items (jn_file j) of
        Inl e \<Rightarrow> Inl e
      | Inr items \<Rightarrow> Inr (map (normalizeOperationRecord (io_now io)) items))"

definition saveOperationRecords :: "io \<Rightarrow> op_record list \<Rightarrow> journal \<Rightarrow> (file_error + unit) \<times> journal" where
  "saveOperationRecords io items j =
     (case write_items (io_write io) (map (normalizeOperationRecord (io_now io)) items) (jn_file j) of
        (res, f) \<Rightarrow> (res, j\<lparr>jn_file := f\<rparr>))"

definition interruptRecord :: "string \<Rightarrow> op_record \<Rightarrow> op_record" where
  "interruptRecord now r =
     (if or_status r = operationStatusRunning
      then r\<lparr>or_status := operationStatusInterrupted,
             or_error_text := firstNonEmpty [trim_space (or_error_text r),
                                ''agent restarted before operation completed''],
             or_updated_at := now,
             or_finished_at := now\<rparr>
      else r)"

definition InitializeRuntimeState :: "io \<Rightarrow> journal \<Rightarrow> (file_error + unit) \<times> journal" where
  "InitializeRuntimeState io j =
     (case loadOperationRecords io j of
        Inl e \<Rightarrow> (Inl e, j)
      | Inr records \<Rightarrow>
          if list_ex (\<lambda>r. or_status r = operationStatusRunning) records
          then saveOperationRecords io (map (interruptRecord (io_now io)) records) j
          else (Inr (), j))"

subsection \<open>Module locks\<close>

definition acquireModuleLock :: "string \<Rightarrow> string \<Rightarrow> journal \<Rightarrow> (journal_error + unit) \<times> journal" where
  "acquireModuleLock module requestID j =
     (let moduleKey = normalizeModuleName module in
      if moduleKey = [] then (Inl ModuleRequired, j)
      else case jn_locks j moduleKey of
          Some existing \<Rightarrow>
            if trim_space existing \<noteq> trim_space requestID then (Inl (ModuleLocked moduleKey), j)
            else (Inr (), j\<lparr>jn_locks := (jn_locks j)(moduleKey \<mapsto> trim_space requestID)\<rparr>)
        | None \<Rightarrow> (Inr (), j\<lparr>jn_locks := (jn_locks j)(moduleKey \<mapsto> trim_space requestID)\<rparr>))"

definition releaseModuleLock :: "string \<Rightarrow> string \<Rightarrow> journal \<Rightarrow> journal" where
  "releaseModuleLock module requestID j =
     (let moduleKey = normalizeModuleName module in
      if moduleKey = [] then j
      else case jn_locks j moduleKey of
          Some existing \<Rightarrow>
            if trim_space existing = trim_space requestID
            then j\<lparr>jn_locks := (jn_locks j)(moduleKey := None)\<rparr> else j
        | None \<Rightarrow> j)"

subsection \<open>Beginning an operation\<close>

definition req_key :: "op_record \<Rightarrow> string" where
  "req_key r = trim_space (or_request_id r)"

definition newOperationRecord :: "string \<Rightarrow> string \<Rightarrow> string \<Rightarrow> string \<Rightarrow> op_record" where
  "newOperationRecord now action module requestID =
     normalizeOperationRecord now
       \<lparr>or_request_id = requestID,
        or_action = trim_space action,
        or_module = module,
        or_runtime = RuntimeLinuxSystemd,
        or_status = operationStatusRunning,
        or_stage = StageValidate,
        or_started_at = now,
        or_updated_at = now,
        or_finished_at = [],
        or_error_text = [],
        or_result = None\<rparr>"

text \<open>
  \<^verbatim>\<open>(handle, nil, nil)\<close>, \<^verbatim>\<open>(nil, existing, nil)\<close> and \<^verbatim>\<open>(nil, existing or nil, err)\<close>.
\<close>

datatype begin_result =
    Started op_handle
  | Replayed op_record
  | Refused "op_record option" journal_error

text \<open>The second half of \<^verbatim>\<open>beginOperation\<close>: the module lock and the new record.\<close>

definition commitOperation ::
    "io \<Rightarrow> string \<Rightarrow> string \<Rightarrow> string \<Rightarrow> op_record list \<Rightarrow> journal \<Rightarrow> begin_result \<times> journal" where
  "commitOperation io action module requestID records j =
     (case acquireModuleLock module requestID j of
        (Inl e, j1) \<Rightarrow> (Refused None e, j1)
      | (Inr u, j1) \<Rightarrow>
          (let record = newOperationRecord (io_now io) action module requestID in
           case saveOperationRecords io (records @ [record]) j1 of
             (Inl e, j2) \<Rightarrow> (Refused None (JournalFile e), releaseModuleLock module requestID j2)
           | (Inr u, j2) \<Rightarrow> (Started \<lparr>oh_record = record, oh_active = True\<rparr>, j2)))"

definition module_running :: "string \<Rightarrow> op_record list \<Rightarrow> bool" where
  "module_running module records =
     list_ex (\<lambda>r. normalizeModuleName (or_module r) = module
                  \<and> or_status r = operationStatusRunning) records"

definition beginOperation ::
    "io \<Rightarrow> string \<Rightarrow> string \<Rightarrow> string \<Rightarrow> journal \<Rightarrow> begin_result \<times> journal" where
  "beginOperation io action rawModule rawID j =
     (let module = normalizeModuleName rawModule; requestID = trim_space rawID in
      if module = [] then (Refused None ModuleRequired, j)
      else if requestID = [] then (Refused None RequestIdRequired, j)
      else case loadOperationRecords io j of
        Inl e \<Rightarrow> (Refused None (JournalFile e), j)
      | Inr records \<Rightarrow>
          (case lookup_items req_key requestID records of
             Some r \<Rightarrow>
               (let existing = normalizeOperationRecord (io_now io) r in
                if or_status existing = operationStatusRunning
                then (Refused (Some existing) (AlreadyRunning requestID), j)
                else (Replayed existing, j))
           | None \<Rightarrow>
               if module_running module records then (Refused None (OtherRunning module), j)
               else commitOperation io action module requestID records j))"

subsection \<open>Stages and ends\<close>

text \<open>
  The loop of \<^verbatim>\<open>UpdateStage\<close>, \<^verbatim>\<open>Complete\<close> and \<^verbatim>\<open>Fail\<close>: the first record with the handle's
  request id is changed, the handle takes its normal form, the error of the save is dropped.
\<close>

definition rewriteRecord ::
    "io \<Rightarrow> (op_record \<Rightarrow> op_record) \<Rightarrow> op_handle \<Rightarrow> journal \<Rightarrow> op_handle \<times> journal" where
  "rewriteRecord io change h j =
     (case loadOperationRecords io j of
        Inl e \<Rightarrow> (h, j)
      | Inr records \<Rightarrow>
          (case lookup_items req_key (req_key (oh_record h)) records of
             None \<Rightarrow> (h, j)
           | Some r \<Rightarrow>
               (h\<lparr>oh_record := normalizeOperationRecord (io_now io) (change r)\<rparr>,
                snd (saveOperationRecords io
                  (update_first (\<lambda>r. req_key r = req_key (oh_record h)) change records) j))))"

definition UpdateStage :: "io \<Rightarrow> install_stage \<Rightarrow> op_handle \<Rightarrow> journal \<Rightarrow> op_handle \<times> journal" where
  "UpdateStage io stage h j =
     (if \<not> oh_active h then (h, j)
      else rewriteRecord io (\<lambda>r. r\<lparr>or_stage := stage, or_updated_at := io_now io\<rparr>) h j)"

definition release :: "op_handle \<Rightarrow> journal \<Rightarrow> op_handle \<times> journal" where
  "release h j =
     (if \<not> oh_active h then (h, j)
      else (h\<lparr>oh_active := False\<rparr>,
            releaseModuleLock (or_module (oh_record h)) (or_request_id (oh_record h)) j))"

definition completeRecord :: "string \<Rightarrow> op_snapshot option \<Rightarrow> op_record \<Rightarrow> op_record" where
  "completeRecord now result r =
     r\<lparr>or_status := operationStatusCompleted,
       or_stage := StageCompleted,
       or_result := normalizeOperationResultSnapshot result,
       or_error_text := [],
       or_updated_at := now,
       or_finished_at := now\<rparr>"

definition failRecord :: "string \<Rightarrow> string \<Rightarrow> op_record \<Rightarrow> op_record" where
  "failRecord now err r =
     r\<lparr>or_status := operationStatusFailed,
       or_error_text := trim_space (trim_space err),
       or_updated_at := now,
       or_finished_at := now\<rparr>"

definition Complete :: "io \<Rightarrow> op_snapshot option \<Rightarrow> op_handle \<Rightarrow> journal \<Rightarrow> op_handle \<times> journal" where
  "Complete io result h j =
     (if \<not> oh_active h then (h, j)
      else case rewriteRecord io (completeRecord (io_now io) result) h j of (h', j') \<Rightarrow> release h' j')"

definition Fail :: "io \<Rightarrow> string \<Rightarrow> op_handle \<Rightarrow> journal \<Rightarrow> op_handle \<times> journal" where
  "Fail io err h j =
     (if \<not> oh_active h then (h, j)
      else case rewriteRecord io (failRecord (io_now io) err) h j of (h', j') \<Rightarrow> release h' j')"

subsection \<open>Canonical records\<close>

text \<open>
  A module name is stable when normalising it twice gives what normalising once gives; every
  name of printable characters is (theory Policy).
\<close>

definition stable_name :: "string \<Rightarrow> bool" where
  "stable_name m \<longleftrightarrow> normalizeModuleName (normalizeModuleName m) = normalizeModuleName m"

definition canonical_op :: "op_record \<Rightarrow> bool" where
  "canonical_op r \<longleftrightarrow>
     trim_space (or_request_id r) = or_request_id r \<and> trim_space (or_action r) = or_action r
   \<and> normalizeModuleName (or_module r) = or_module r
   \<and> trim_space (or_runtime r) = or_runtime r \<and> or_runtime r \<noteq> []
   \<and> normalizeOperationStatus (or_status r) = or_status r
   \<and> trim_space (or_started_at r) = or_started_at r \<and> or_started_at r \<noteq> []
   \<and> trim_space (or_updated_at r) = or_updated_at r \<and> or_updated_at r \<noteq> []
   \<and> trim_space (or_finished_at r) = or_finished_at r
   \<and> trim_space (or_error_text r) = or_error_text r
   \<and> normalizeOperationResultSnapshot (or_result r) = or_result r"

lemma normalizeOperationStatus_idem [simp, idem]:
  "normalizeOperationStatus (normalizeOperationStatus raw) = normalizeOperationStatus raw"
proof -
  let ?K = "[operationStatusRunning, operationStatusCompleted, operationStatusFailed,
      operationStatusInterrupted]"
  have "list_all (\<lambda>s. normalizeOperationStatus s = s) ?K" by code_simp
  then have f: "s \<in> set ?K \<Longrightarrow> normalizeOperationStatus s = s" for s by auto
  have "normalizeOperationStatus raw \<in> set ?K \<or> normalizeOperationStatus raw = trim_space raw"
    by (simp add: normalizeOperationStatus_def Let_def)
  then show ?thesis
  proof (elim disjE)
    assume "normalizeOperationStatus raw = trim_space raw"
    moreover have "normalizeOperationStatus (trim_space raw) = normalizeOperationStatus raw"
      by (simp add: normalizeOperationStatus_def Let_def)
    ultimately show ?thesis by simp
  qed (rule f)
qed

lemma normalizeOperationStatus_const [simp]:
  "normalizeOperationStatus operationStatusRunning = operationStatusRunning"
  "normalizeOperationStatus operationStatusCompleted = operationStatusCompleted"
  "normalizeOperationStatus operationStatusFailed = operationStatusFailed"
  "normalizeOperationStatus operationStatusInterrupted = operationStatusInterrupted"
  by code_simp+

lemma normalizeOperationResultSnapshot_idem [simp, idem]:
  "normalizeOperationResultSnapshot (normalizeOperationResultSnapshot r)
     = normalizeOperationResultSnapshot r"
  by (simp add: normalizeOperationResultSnapshot_def split: option.splits)

lemma firstNonEmpty_ne: "trim_space d \<noteq> [] \<Longrightarrow> firstNonEmpty [x, d] \<noteq> []"
  by (simp add: Let_def)

lemma firstNonEmpty_fixed [simp]: "trim_space (firstNonEmpty xs) = firstNonEmpty xs"
  by (induction xs) (auto simp: Let_def)

lemma visible_text: "trim_space ''linux-systemd'' \<noteq> []" "trim_space ''agent restarted before operation completed'' \<noteq> []"
  by code_simp+

lemma canonical_op_fixed: "canonical_op r \<Longrightarrow> normalizeOperationRecord t r = r"
  unfolding canonical_op_def normalizeOperationRecord_def
  by (cases r) (simp add: Let_def)

lemma clock_reading_fixed: "clock_reading now \<Longrightarrow> trim_space now = now \<and> now \<noteq> []"
  by (auto simp: clock_reading_def trim_space_trimmed)

lemma canonical_op_normalize:
  "clock_reading now \<Longrightarrow> stable_name (or_module r) \<Longrightarrow> canonical_op (normalizeOperationRecord now r)"
  using visible_text(1)
  by (simp add: canonical_op_def normalizeOperationRecord_def Let_def clock_reading_fixed stable_name_def)

lemma canonical_map: "\<forall>r \<in> set rs. canonical_op r \<Longrightarrow> map (normalizeOperationRecord t) rs = rs"
  by (induction rs) (auto simp: canonical_op_fixed)

lemma canonical_key: "canonical_op r \<Longrightarrow> req_key r = or_request_id r"
  by (simp add: canonical_op_def req_key_def)

lemma canonical_interrupt:
  "clock_reading now \<Longrightarrow> canonical_op r \<Longrightarrow> canonical_op (interruptRecord now r)"
  by (auto simp: canonical_op_def interruptRecord_def clock_reading_fixed
      simp del: firstNonEmpty.simps)

lemma canonical_complete:
  "clock_reading now \<Longrightarrow> canonical_op r \<Longrightarrow> canonical_op (completeRecord now res r)"
  by (auto simp: canonical_op_def completeRecord_def clock_reading_fixed)

lemma canonical_fail:
  "clock_reading now \<Longrightarrow> canonical_op r \<Longrightarrow> canonical_op (failRecord now err r)"
  by (auto simp: canonical_op_def failRecord_def clock_reading_fixed)

lemma canonical_stage:
  "clock_reading now \<Longrightarrow> canonical_op r \<Longrightarrow> canonical_op (r\<lparr>or_stage := st, or_updated_at := now\<rparr>)"
  by (auto simp: canonical_op_def clock_reading_fixed)

lemma newOperationRecord_simps [simp]:
  "or_request_id (newOperationRecord now a m rid) = trim_space rid"
  "or_module (newOperationRecord now a m rid) = normalizeModuleName m"
  "or_status (newOperationRecord now a m rid) = operationStatusRunning"
  "or_action (newOperationRecord now a m rid) = trim_space a"
  "or_stage (newOperationRecord now a m rid) = StageValidate"
  by (simp_all add: newOperationRecord_def normalizeOperationRecord_def Let_def)

lemma canonical_new:
  "clock_reading now \<Longrightarrow> normalizeModuleName m = m \<Longrightarrow> canonical_op (newOperationRecord now a m rid)"
  unfolding newOperationRecord_def
  by (rule canonical_op_normalize) (simp_all add: stable_name_def)

lemma req_key_normalize [simp]: "req_key (normalizeOperationRecord now r) = req_key r"
  by (simp add: req_key_def normalizeOperationRecord_def Let_def)

interpretation records: keyed_list "normalizeOperationRecord now" req_key for now
  by unfold_locales simp

subsection \<open>What a beginning does\<close>

lemma saveOperationRecords_simps [simp]:
  "fst (saveOperationRecords io items j)
     = fst (write_items (io_write io) (map (normalizeOperationRecord (io_now io)) items) (jn_file j))"
  "jn_locks (snd (saveOperationRecords io items j)) = jn_locks j"
  "jn_file (snd (saveOperationRecords io items j))
     = snd (write_items (io_write io) (map (normalizeOperationRecord (io_now io)) items) (jn_file j))"
  by (simp_all add: saveOperationRecords_def split: prod.splits)

lemma saveOperationRecords_ok_iff:
  "saveOperationRecords io items j = (Inr u, j') \<longleftrightarrow>
     io_write io = Write_ok
     \<and> j' = j\<lparr>jn_file := Items (map (normalizeOperationRecord (io_now io)) items)\<rparr>"
  by (auto simp: saveOperationRecords_def split: prod.splits)

lemma acquireModuleLock_ok_iff:
  "acquireModuleLock m rid j = (Inr u, j') \<longleftrightarrow>
     normalizeModuleName m \<noteq> []
     \<and> (\<forall>l. jn_locks j (normalizeModuleName m) = Some l \<longrightarrow> trim_space l = trim_space rid)
     \<and> j' = j\<lparr>jn_locks := (jn_locks j)(normalizeModuleName m \<mapsto> trim_space rid)\<rparr>"
  by (auto simp: acquireModuleLock_def Let_def split: option.splits)

lemma acquireModuleLock_refused: "acquireModuleLock m rid j = (Inl e, j') \<Longrightarrow> j' = j"
  by (auto simp: acquireModuleLock_def Let_def split: option.splits if_splits)

lemma releaseModuleLock_locks:
  "jn_locks (releaseModuleLock m rid j) k =
     (if k = normalizeModuleName m \<and> k \<noteq> []
         \<and> (\<exists>l. jn_locks j k = Some l \<and> trim_space l = trim_space rid) then None
      else jn_locks j k)"
  by (auto simp: releaseModuleLock_def Let_def split: option.splits)

lemma releaseModuleLock_file [simp]: "jn_file (releaseModuleLock m rid j) = jn_file j"
  by (auto simp: releaseModuleLock_def Let_def split: option.splits)

lemma commitOperation_started:
  "commitOperation io a m rid records j = (Started h, j') \<longleftrightarrow>
     io_write io = Write_ok \<and> normalizeModuleName m \<noteq> []
     \<and> (\<forall>l. jn_locks j (normalizeModuleName m) = Some l \<longrightarrow> trim_space l = trim_space rid)
     \<and> h = \<lparr>oh_record = newOperationRecord (io_now io) a m rid, oh_active = True\<rparr>
     \<and> j' = \<lparr>jn_file = Items (map (normalizeOperationRecord (io_now io))
                 (records @ [newOperationRecord (io_now io) a m rid])),
             jn_locks = (jn_locks j)(normalizeModuleName m \<mapsto> trim_space rid)\<rparr>"
  (is "_ \<longleftrightarrow> ?r")
proof (cases "acquireModuleLock m rid j")
  case (Pair res j1)
  show ?thesis
  proof (cases res)
    case (Inl e)
    then have "\<not> ?r"
      using Pair by (auto simp: acquireModuleLock_def Let_def split: option.splits if_splits)
    then show ?thesis using Pair Inl by (simp add: commitOperation_def)
  next
    case (Inr u)
    with Pair have "acquireModuleLock m rid j = (Inr u, j1)" by simp
    then have j1: "normalizeModuleName m \<noteq> []"
      "\<forall>l. jn_locks j (normalizeModuleName m) = Some l \<longrightarrow> trim_space l = trim_space rid"
      "j1 = j\<lparr>jn_locks := (jn_locks j)(normalizeModuleName m \<mapsto> trim_space rid)\<rparr>"
      by (simp_all add: acquireModuleLock_ok_iff)
    show ?thesis
    proof (cases "io_write io = Write_ok")
      case True
      with Pair Inr j1 show ?thesis
        by (auto simp: commitOperation_def Let_def saveOperationRecords_def)
    next
      case False
      with Pair Inr show ?thesis
        by (cases "io_write io") (auto simp: commitOperation_def Let_def saveOperationRecords_def)
    qed
  qed
qed

text \<open>The conditions under which an operation starts, in the order the code checks them.\<close>

definition may_begin :: "io \<Rightarrow> string \<Rightarrow> string \<Rightarrow> op_record list \<Rightarrow> journal \<Rightarrow> bool" where
  "may_begin io m rid records j \<longleftrightarrow>
     normalizeModuleName m \<noteq> [] \<and> trim_space rid \<noteq> []
   \<and> loadOperationRecords io j = Inr records
   \<and> lookup_items req_key (trim_space rid) records = None
   \<and> \<not> module_running (normalizeModuleName m) records"

lemma beginOperation_blank:
  "normalizeModuleName m = [] \<or> trim_space rid = [] \<Longrightarrow> \<exists>e. beginOperation io a m rid j = (Refused None e, j)"
  by (auto simp: beginOperation_def Let_def)

lemma beginOperation_unreadable:
  "normalizeModuleName m \<noteq> [] \<Longrightarrow> trim_space rid \<noteq> [] \<Longrightarrow> loadOperationRecords io j = Inl e \<Longrightarrow>
   beginOperation io a m rid j = (Refused None (JournalFile e), j)"
  by (simp add: beginOperation_def Let_def)

lemma beginOperation_known:
  "normalizeModuleName m \<noteq> [] \<Longrightarrow> trim_space rid \<noteq> [] \<Longrightarrow> loadOperationRecords io j = Inr records \<Longrightarrow>
   lookup_items req_key (trim_space rid) records = Some r \<Longrightarrow>
   beginOperation io a m rid j =
     (if or_status (normalizeOperationRecord (io_now io) r) = operationStatusRunning
      then Refused (Some (normalizeOperationRecord (io_now io) r)) (AlreadyRunning (trim_space rid))
      else Replayed (normalizeOperationRecord (io_now io) r), j)"
  by (simp add: beginOperation_def Let_def)

lemma beginOperation_new:
  "normalizeModuleName m \<noteq> [] \<Longrightarrow> trim_space rid \<noteq> [] \<Longrightarrow> loadOperationRecords io j = Inr records \<Longrightarrow>
   lookup_items req_key (trim_space rid) records = None \<Longrightarrow>
   beginOperation io a m rid j =
     (if module_running (normalizeModuleName m) records
      then (Refused None (OtherRunning (normalizeModuleName m)), j)
      else commitOperation io a (normalizeModuleName m) (trim_space rid) records j)"
  by (simp add: beginOperation_def Let_def)

lemma beginOperation_cases:
  obtains (refused) e where "beginOperation io a m rid j = (Refused None e, j)"
      "\<And>records. \<not> may_begin io m rid records j"
  | (known) records r where "loadOperationRecords io j = Inr records"
      "lookup_items req_key (trim_space rid) records = Some r"
      "beginOperation io a m rid j =
         (if or_status (normalizeOperationRecord (io_now io) r) = operationStatusRunning
          then Refused (Some (normalizeOperationRecord (io_now io) r)) (AlreadyRunning (trim_space rid))
          else Replayed (normalizeOperationRecord (io_now io) r), j)"
  | (commit) records where "may_begin io m rid records j"
      "beginOperation io a m rid j =
         commitOperation io a (normalizeModuleName m) (trim_space rid) records j"
proof (cases "normalizeModuleName m = [] \<or> trim_space rid = []")
  case True
  then obtain e where "beginOperation io a m rid j = (Refused None e, j)"
    using beginOperation_blank by blast
  with True show ?thesis by (intro refused) (auto simp: may_begin_def)
next
  case False
  then have ne: "normalizeModuleName m \<noteq> []" "trim_space rid \<noteq> []" by auto
  show ?thesis
  proof (cases "loadOperationRecords io j")
    case (Inl e)
    then show ?thesis using refused [OF beginOperation_unreadable [OF ne Inl]] by (simp add: may_begin_def)
  next
    case (Inr records)
    show ?thesis
    proof (cases "lookup_items req_key (trim_space rid) records")
      case None
      note new = beginOperation_new [OF ne Inr None, of a]
      show ?thesis
      proof (cases "module_running (normalizeModuleName m) records")
        case True
        with new Inr show ?thesis by (intro refused) (auto simp: may_begin_def)
      next
        case False
        with new Inr None ne show ?thesis by (intro commit) (auto simp: may_begin_def)
      qed
    next
      case (Some r)
      show ?thesis by (rule known [OF Inr Some beginOperation_known [OF ne Inr Some]])
    qed
  qed
qed

lemma beginOperation_started:
  "beginOperation io a m rid j = (Started h, j') \<longleftrightarrow>
     (\<exists>records. may_begin io m rid records j
        \<and> commitOperation io a (normalizeModuleName m) (trim_space rid) records j = (Started h, j'))"
  by (cases rule: beginOperation_cases [of io a m rid j])
    (auto simp: may_begin_def)

lemma beginOperation_known_no_start:
  assumes "loadOperationRecords io j = Inr records"
    and "r \<in> set records" and "req_key r = trim_space rid"
  shows "snd (beginOperation io a m rid j) = j \<and> (\<forall>h. fst (beginOperation io a m rid j) \<noteq> Started h)"
proof (cases rule: beginOperation_cases [of io a m rid j])
  case (commit rs)
  have "lookup_items req_key (trim_space rid) records \<noteq> None"
    using assms(2) assms(3) [symmetric] by (simp add: lookup_items_None)
  with commit(1) assms(1) show ?thesis by (simp add: may_begin_def)
qed auto

text \<open>
  a request id that the journal knows never starts an operation and never changes the
  journal or a lock: a finished operation is answered with its stored record, a running one
  is refused, whatever action and module the new request names.
\<close>

theorem beginOperation_repeat:
  assumes "loadOperationRecords io j = Inr records"
    and "r \<in> set records" and "req_key r = trim_space rid"
  shows "snd (beginOperation io a m rid j) = j
    \<and> (\<forall>h. fst (beginOperation io a m rid j) \<noteq> Started h)
    \<and> (normalizeModuleName m \<noteq> [] \<and> trim_space rid \<noteq> [] \<longrightarrow>
        (\<exists>r' \<in> set records. req_key r' = trim_space rid
          \<and> fst (beginOperation io a m rid j) =
             (if or_status (normalizeOperationRecord (io_now io) r') = operationStatusRunning
              then Refused (Some (normalizeOperationRecord (io_now io) r')) (AlreadyRunning (trim_space rid))
              else Replayed (normalizeOperationRecord (io_now io) r'))))"
proof -
  have "lookup_items req_key (trim_space rid) records \<noteq> None"
    using assms(2) assms(3) [symmetric] by (simp add: lookup_items_None)
  then obtain r' where r': "lookup_items req_key (trim_space rid) records = Some r'" by blast
  show ?thesis
  proof (cases "normalizeModuleName m = [] \<or> trim_space rid = []")
    case True
    with beginOperation_blank [of m rid io a j] show ?thesis by auto
  next
    case False
    then show ?thesis
      using beginOperation_known [OF _ _ assms(1) r'] lookup_items_Some [OF r'] by auto
  qed
qed

text \<open>
  C38: an operation starts exactly when module and request id are given, the journal can be
  read, knows neither the request id nor a running operation of the module, the module's
  lock is free (or held by the same request), and the record is written; then the new record
  is the last of the journal and the lock is the request's.
\<close>

theorem beginOperation_started_iff:
  "beginOperation io a m rid j = (Started h, j') \<longleftrightarrow>
     io_write io = Write_ok \<and> normalizeModuleName (normalizeModuleName m) \<noteq> []
     \<and> \<not> (\<exists>l. jn_locks j (normalizeModuleName (normalizeModuleName m)) = Some l \<and> trim_space l \<noteq> trim_space rid)
     \<and> h = \<lparr>oh_record = newOperationRecord (io_now io) a (normalizeModuleName m) (trim_space rid),
            oh_active = True\<rparr>
     \<and> (\<exists>records. may_begin io m rid records j
        \<and> jn_file j' = Items (map (normalizeOperationRecord (io_now io)) (records @ [oh_record h])))
     \<and> jn_locks j' = (jn_locks j)(normalizeModuleName (normalizeModuleName m) \<mapsto> trim_space rid)"
  by (auto simp: beginOperation_started commitOperation_started)

lemma beginOperation_refused_frees:
  assumes "beginOperation io a m rid j = (res, j')" and "\<And>h. res \<noteq> Started h"
  shows "jn_locks j' k = jn_locks j k
     \<or> jn_locks j' k = None \<and> k = normalizeModuleName (normalizeModuleName m)
        \<and> (\<forall>l. jn_locks j k = Some l \<longrightarrow> trim_space l = trim_space rid)"
proof (cases rule: beginOperation_cases [of io a m rid j])
  case (commit records)
  with assms(1) have c: "commitOperation io a (normalizeModuleName m) (trim_space rid) records j = (res, j')"
    by simp
  show ?thesis
  proof (cases "acquireModuleLock (normalizeModuleName m) (trim_space rid) j")
    case (Pair x j1)
    show ?thesis
    proof (cases x)
      case (Inl e)
      with c Pair show ?thesis by (auto simp: commitOperation_def dest: acquireModuleLock_refused)
    next
      case (Inr u)
      let ?k = "normalizeModuleName (normalizeModuleName m)"
      let ?save = "saveOperationRecords io
        (records @ [newOperationRecord (io_now io) a (normalizeModuleName m) (trim_space rid)]) j1"
      from Pair Inr have j1: "?k \<noteq> []"
        "\<forall>l. jn_locks j ?k = Some l \<longrightarrow> trim_space l = trim_space rid"
        "jn_locks j1 = (jn_locks j)(?k \<mapsto> trim_space rid)"
        by (auto simp: acquireModuleLock_ok_iff)
      from c Pair Inr assms(2)
      have "j' = releaseModuleLock (normalizeModuleName m) (trim_space rid) (snd ?save)"
        by (auto simp: commitOperation_def Let_def split: prod.splits sum.splits)
      with j1 show ?thesis by (auto simp: releaseModuleLock_locks)
    qed
  qed
qed (use assms in auto)

text \<open>
  a beginning that does not start an operation never takes a lock away from another
  module and never leaves a new one behind, even when the journal write fails half way.
\<close>

theorem beginOperation_refused_locks:
  assumes "beginOperation io a m rid j = (res, j')" and "\<And>h. res \<noteq> Started h"
  shows "jn_locks j' k = jn_locks j k
     \<or> jn_locks j' k = None \<and> k = normalizeModuleName (normalizeModuleName m)
        \<and> (\<forall>l. jn_locks j k = Some l \<longrightarrow> trim_space l = trim_space rid)"
  using beginOperation_refused_frees [OF assms] .

lemma interruptRecord_simps [simp]:
  "req_key (interruptRecord now r) = req_key r"
  "or_request_id (interruptRecord now r) = or_request_id r"
  "or_module (interruptRecord now r) = or_module r"
  "or_status (interruptRecord now r) =
     (if or_status r = operationStatusRunning then operationStatusInterrupted else or_status r)"
  by (simp_all add: interruptRecord_def req_key_def)

lemma or_status_normalize [simp]:
  "or_status (normalizeOperationRecord now r) = normalizeOperationStatus (or_status r)"
  by (simp add: normalizeOperationRecord_def Let_def)

lemma InitializeRuntimeState_effect:
  assumes "loadOperationRecords io j = Inr records"
    and "fst (InitializeRuntimeState io j) = Inr ()"
  shows "\<exists>after. loadOperationRecords io' (snd (InitializeRuntimeState io j)) = Inr after
    \<and> map req_key after = map req_key records
    \<and> map or_status after =
        map (\<lambda>r. if or_status r = operationStatusRunning then operationStatusInterrupted else or_status r) records
    \<and> (\<forall>r \<in> set after. or_status r \<noteq> operationStatusRunning)
    \<and> jn_locks (snd (InitializeRuntimeState io j)) = jn_locks j"
proof -
  obtain items where items: "read_items (jn_file j) = Inr items"
    and rs: "records = map (normalizeOperationRecord (io_now io)) items"
    using assms(1) by (auto simp: loadOperationRecords_def split: sum.splits)
  have st: "normalizeOperationStatus (or_status r) = or_status r" if "r \<in> set records" for r
    using that rs by auto
  show ?thesis
  proof (cases "list_ex (\<lambda>r. or_status r = operationStatusRunning) records")
    case True
    let ?after = "map (normalizeOperationRecord (io_now io'))
      (map (normalizeOperationRecord (io_now io)) (map (interruptRecord (io_now io)) records))"
    from True assms have "io_write io = Write_ok"
      by (simp add: InitializeRuntimeState_def write_items_ok_iff)
    with True assms(1) have "loadOperationRecords io' (snd (InitializeRuntimeState io j)) = Inr ?after"
      by (simp add: InitializeRuntimeState_def loadOperationRecords_def [of io'])
    moreover have "map or_status ?after =
        map (\<lambda>r. if or_status r = operationStatusRunning then operationStatusInterrupted else or_status r) records"
      using st by simp
    moreover have "\<forall>r \<in> set ?after. or_status r \<noteq> operationStatusRunning"
      using st by auto
    ultimately show ?thesis using True assms(1) by (auto simp: InitializeRuntimeState_def comp_def)
  next
    case False
    let ?after = "map (normalizeOperationRecord (io_now io')) items"
    have "snd (InitializeRuntimeState io j) = j" using False assms(1) by (simp add: InitializeRuntimeState_def)
    moreover have "map or_status ?after = map or_status records" by (simp add: rs)
    moreover have "\<forall>r \<in> set records. or_status r \<noteq> operationStatusRunning"
      using False by (simp add: list_ex_iff)
    ultimately show ?thesis using items rs by (force simp: loadOperationRecords_def comp_def)
  qed
qed

text \<open>
  a successful start of the agent leaves no operation running: exactly the running
  records become interrupted, no record is lost or reordered, and the locks are not touched.
\<close>

theorem InitializeRuntimeState_interrupts:
  assumes "loadOperationRecords io j = Inr records"
    and "fst (InitializeRuntimeState io j) = Inr ()"
  shows "\<exists>after. loadOperationRecords io' (snd (InitializeRuntimeState io j)) = Inr after
    \<and> map req_key after = map req_key records
    \<and> map or_status after =
        map (\<lambda>r. if or_status r = operationStatusRunning then operationStatusInterrupted else or_status r) records
    \<and> (\<forall>r \<in> set after. or_status r \<noteq> operationStatusRunning)
    \<and> jn_locks (snd (InitializeRuntimeState io j)) = jn_locks j"
  using InitializeRuntimeState_effect [OF assms] .

subsection \<open>Journals of canonical records\<close>

definition canonical_journal :: "journal \<Rightarrow> op_record list \<Rightarrow> bool" where
  "canonical_journal j rs \<longleftrightarrow>
     read_items (jn_file j) = Inr rs \<and> (\<forall>r \<in> set rs. canonical_op r) \<and> distinct (map or_request_id rs)"

lemma load_canonical: "canonical_journal j rs \<Longrightarrow> loadOperationRecords io j = Inr rs"
  by (simp add: canonical_journal_def loadOperationRecords_def canonical_map)

lemma save_canonical:
  "\<forall>r \<in> set rs. canonical_op r \<Longrightarrow>
   saveOperationRecords io rs j =
     (fst (write_items (io_write io) rs (jn_file j)),
      j\<lparr>jn_file := snd (write_items (io_write io) rs (jn_file j))\<rparr>)"
  by (simp add: saveOperationRecords_def canonical_map split: prod.splits)

lemma lookup_canonical:
  assumes "canonical_journal j rs" "r \<in> set rs"
  shows "lookup_items req_key (or_request_id r) rs = Some r"
proof -
  have m: "map req_key rs = map or_request_id rs"
    using assms(1) by (auto simp: canonical_journal_def canonical_key)
  have "req_key r = or_request_id r" using assms by (auto simp: canonical_journal_def canonical_key)
  then show ?thesis
    using records.lookup_distinct [of rs r] m assms by (simp add: canonical_journal_def)
qed

lemma canonical_journal_write:
  assumes "canonical_journal j rs" "\<forall>r \<in> set rs'. canonical_op r" "distinct (map or_request_id rs')"
    and "durable w" "jn_file j' = snd (write_items w rs' (jn_file j))"
  shows "canonical_journal j' rs \<or> canonical_journal j' rs'"
  using assms(5) write_items_durable [OF assms(4), of rs' "jn_file j"] assms(1-3)
  by (auto simp: canonical_journal_def)

lemma update_first_distinct:
  "distinct (map key xs) \<Longrightarrow>
   update_first (\<lambda>x. key x = k) g xs = map (\<lambda>x. if key x = k then g x else x) xs"
proof (induction xs)
  case (Cons x xs)
  show ?case
  proof (cases "key x = k")
    case True
    with Cons.prems have "\<forall>y \<in> set xs. key y \<noteq> k" by (metis distinct.simps(2) image_eqI list.simps(9) set_map)
    then have "map (\<lambda>y. if key y = k then g y else y) xs = xs" by (intro map_idI) auto
    with True show ?thesis by simp
  next
    case False
    with Cons show ?thesis by simp
  qed
qed simp

text \<open>The changes of the journal's loop: they keep a record canonical and its identity.\<close>

definition keeps_identity :: "(op_record \<Rightarrow> op_record) \<Rightarrow> bool" where
  "keeps_identity change \<longleftrightarrow>
     (\<forall>r. or_request_id (change r) = or_request_id r \<and> or_module (change r) = or_module r
        \<and> (canonical_op r \<longrightarrow> canonical_op (change r)))"

lemma keeps_identity_changes:
  assumes "clock_reading now"
  shows "keeps_identity (completeRecord now res)" "keeps_identity (failRecord now err)"
    "keeps_identity (interruptRecord now)"
    "keeps_identity (\<lambda>r. r\<lparr>or_stage := st, or_updated_at := now\<rparr>)"
  using assms canonical_complete canonical_fail canonical_interrupt canonical_stage
  by (auto simp: keeps_identity_def completeRecord_def failRecord_def)

definition change_one :: "string \<Rightarrow> (op_record \<Rightarrow> op_record) \<Rightarrow> op_record list \<Rightarrow> op_record list" where
  "change_one rid change rs = map (\<lambda>x. if or_request_id x = rid then change x else x) rs"

lemma change_one_canonical:
  "keeps_identity change \<Longrightarrow> \<forall>r \<in> set rs. canonical_op r \<Longrightarrow> \<forall>r \<in> set (change_one rid change rs). canonical_op r"
  by (auto simp: change_one_def keeps_identity_def)

lemma change_one_ids:
  "keeps_identity change \<Longrightarrow> map or_request_id (change_one rid change rs) = map or_request_id rs"
  by (auto simp: change_one_def keeps_identity_def)

lemma rewriteRecord_canonical:
  assumes "canonical_journal j rs" "r \<in> set rs" "or_request_id r = or_request_id (oh_record h)"
    and "canonical_op (oh_record h)" "keeps_identity change"
  shows "rewriteRecord io change h j =
    (h\<lparr>oh_record := change r\<rparr>,
     j\<lparr>jn_file := snd (write_items (io_write io) (change_one (or_request_id r) change rs) (jn_file j))\<rparr>)"
proof -
  have c: "\<forall>r \<in> set rs. canonical_op r" and d: "distinct (map or_request_id rs)"
    using assms(1) by (auto simp: canonical_journal_def)
  have k: "req_key (oh_record h) = or_request_id r" using assms(3,4) by (simp add: canonical_key)
  have "update_first (\<lambda>x. req_key x = or_request_id r) change rs = change_one (or_request_id r) change rs"
  proof -
    have m: "map req_key rs = map or_request_id rs" using c by (auto simp: canonical_key)
    have "update_first (\<lambda>x. req_key x = or_request_id r) change rs
        = map (\<lambda>x. if req_key x = or_request_id r then change x else x) rs"
      by (rule update_first_distinct) (simp only: m d)
    also have "\<dots> = change_one (or_request_id r) change rs"
      unfolding change_one_def using c by (intro map_cong) (auto simp: canonical_key)
    finally show ?thesis .
  qed
  moreover have "normalizeOperationRecord (io_now io) (change r) = change r"
    using assms(2,5) c by (simp add: keeps_identity_def canonical_op_fixed)
  ultimately show ?thesis
    using load_canonical [OF assms(1)] lookup_canonical [OF assms(1,2)] k
      save_canonical [OF change_one_canonical [OF assms(5) c]]
    by (simp add: rewriteRecord_def)
qed

subsection \<open>Concurrent handlers and restarts\<close>

text \<open>
  A handler that got a handle is live; once its journal update is done it still has to
  release the module lock (the deferred \<^verbatim>\<open>release\<close> runs after \<^verbatim>\<open>operationStateMu\<close> is unlocked,
  so other handlers may run in between).  \<^verbatim>\<open>sy_started\<close> is a ghost: the request ids for which
  an operation was started, newest first.
\<close>

record live_handler =
  lv_handle :: op_handle
  lv_finished :: bool

record system =
  sy_journal :: journal
  sy_live :: "live_handler list"
  sy_started :: "string list"

definition began :: "begin_result \<Rightarrow> journal \<Rightarrow> system \<Rightarrow> system" where
  "began res j s =
     (case res of
        Started h \<Rightarrow>
          \<lparr>sy_journal = j,
           sy_live = \<lparr>lv_handle = h, lv_finished = False\<rparr> # sy_live s,
           sy_started = or_request_id (oh_record h) # sy_started s\<rparr>
      | _ \<Rightarrow> s\<lparr>sy_journal := j\<rparr>)"

definition restarted :: "io \<Rightarrow> system \<Rightarrow> system" where
  "restarted io s =
     \<lparr>sy_journal = snd (InitializeRuntimeState io ((sy_journal s)\<lparr>jn_locks := Map.empty\<rparr>)),
      sy_live = [], sy_started = sy_started s\<rparr>"

definition sound_io :: "io \<Rightarrow> bool" where
  "sound_io io \<longleftrightarrow> clock_reading (io_now io) \<and> durable (io_write io)"

text \<open>
  One atomic action: a critical section of \<^verbatim>\<open>operationStateMu\<close>, a release, a handler that
  returns without ending its operation, or a restart of the agent.
\<close>

inductive sys_step :: "system \<Rightarrow> system \<Rightarrow> bool" where
  step_begin:
    "sound_io io \<Longrightarrow> stable_name m \<Longrightarrow>
     beginOperation io a m rid (sy_journal s) = (res, j') \<Longrightarrow> sys_step s (began res j' s)"
| step_stage:
    "sound_io io \<Longrightarrow> sy_live s = xs @ \<lparr>lv_handle = h, lv_finished = False\<rparr> # ys \<Longrightarrow>
     UpdateStage io stage h (sy_journal s) = (h', j') \<Longrightarrow>
     sys_step s (s\<lparr>sy_journal := j', sy_live := xs @ \<lparr>lv_handle = h', lv_finished = False\<rparr> # ys\<rparr>)"
| step_finish:
    "sound_io io \<Longrightarrow> sy_live s = xs @ \<lparr>lv_handle = h, lv_finished = False\<rparr> # ys \<Longrightarrow>
     change = completeRecord (io_now io) res \<or> change = failRecord (io_now io) err \<Longrightarrow>
     rewriteRecord io change h (sy_journal s) = (h', j') \<Longrightarrow>
     sys_step s (s\<lparr>sy_journal := j', sy_live := xs @ \<lparr>lv_handle = h', lv_finished = True\<rparr> # ys\<rparr>)"
| step_release:
    "sy_live s = xs @ \<lparr>lv_handle = h, lv_finished = True\<rparr> # ys \<Longrightarrow>
     release h (sy_journal s) = (h', j') \<Longrightarrow>
     sys_step s (s\<lparr>sy_journal := j', sy_live := xs @ ys\<rparr>)"
| step_abandon:
    "sy_live s = xs @ lv # ys \<Longrightarrow> sys_step s (s\<lparr>sy_live := xs @ ys\<rparr>)"
| step_restart:
    "sound_io io \<Longrightarrow> sys_step s (restarted io s)"

definition initial_system :: system where
  "initial_system =
     \<lparr>sy_journal = \<lparr>jn_file = Missing, jn_locks = Map.empty\<rparr>, sy_live = [], sy_started = []\<rparr>"

inductive reachable :: "system \<Rightarrow> bool" where
  reachable_init: "reachable initial_system"
| reachable_step: "reachable s \<Longrightarrow> sys_step s s' \<Longrightarrow> reachable s'"

inductive_cases sys_stepE: "sys_step s s'"
inductive_simps reachable_simps: "reachable s"

text \<open>\<^verbatim>\<open>Complete\<close> and \<^verbatim>\<open>Fail\<close> are the finishing step followed by the releasing step.\<close>

lemma Complete_steps:
  "oh_active h \<Longrightarrow> rewriteRecord io (completeRecord (io_now io) res) h j = (h', j') \<Longrightarrow>
   Complete io res h j = release h' j'"
  by (simp add: Complete_def)

lemma Fail_steps:
  "oh_active h \<Longrightarrow> rewriteRecord io (failRecord (io_now io) err) h j = (h', j') \<Longrightarrow>
   Fail io err h j = release h' j'"
  by (simp add: Fail_def)

subsection \<open>The invariant\<close>

abbreviation live_record :: "live_handler \<Rightarrow> op_record" where
  "live_record lv \<equiv> oh_record (lv_handle lv)"

definition live_ok :: "op_record list \<Rightarrow> (string \<Rightarrow> string option) \<Rightarrow> live_handler \<Rightarrow> bool" where
  "live_ok rs locks lv \<longleftrightarrow>
     oh_active (lv_handle lv) \<and> canonical_op (live_record lv) \<and> or_module (live_record lv) \<noteq> []
   \<and> locks (or_module (live_record lv)) = Some (or_request_id (live_record lv))
   \<and> (\<exists>r \<in> set rs. or_request_id r = or_request_id (live_record lv)
        \<and> or_module r = or_module (live_record lv)
        \<and> (\<not> lv_finished lv \<longrightarrow> or_status r = operationStatusRunning))"

definition system_inv :: "system \<Rightarrow> op_record list \<Rightarrow> bool" where
  "system_inv s rs \<longleftrightarrow>
     canonical_journal (sy_journal s) rs
   \<and> set (sy_started s) \<subseteq> or_request_id ` set rs \<and> distinct (sy_started s)
   \<and> distinct (map (or_request_id \<circ> live_record) (sy_live s))
   \<and> (\<forall>lv \<in> set (sy_live s). live_ok rs (jn_locks (sy_journal s)) lv)"

lemma system_inv_init: "system_inv initial_system []"
  by (simp add: system_inv_def initial_system_def canonical_journal_def)

lemma live_ok_module_id:
  "live_ok rs locks lv \<Longrightarrow> live_ok rs locks lv' \<Longrightarrow>
   or_module (live_record lv) = or_module (live_record lv') \<Longrightarrow>
   or_request_id (live_record lv) = or_request_id (live_record lv')"
  by (auto simp: live_ok_def)

lemma inv_distinct_modules:
  assumes "system_inv s rs"
  shows "distinct (map (or_module \<circ> live_record) (sy_live s))"
proof -
  have d: "distinct (sy_live s)" and inj: "inj_on (or_request_id \<circ> live_record) (set (sy_live s))"
    using assms by (simp_all only: system_inv_def distinct_map)
  have "inj_on (or_module \<circ> live_record) (set (sy_live s))"
  proof (rule inj_onI)
    fix a b
    assume ab: "a \<in> set (sy_live s)" "b \<in> set (sy_live s)"
      and "(or_module \<circ> live_record) a = (or_module \<circ> live_record) b"
    then have m: "or_module (live_record a) = or_module (live_record b)" by (simp only: comp_apply)
    have l: "live_ok rs (jn_locks (sy_journal s)) a" "live_ok rs (jn_locks (sy_journal s)) b"
      using assms ab by (simp_all add: system_inv_def)
    have "or_request_id (live_record a) = or_request_id (live_record b)"
      by (rule live_ok_module_id [OF l m])
    then show "a = b"
      using inj_onD [OF inj _ ab] by (simp only: comp_apply)
  qed
  then show ?thesis using d by (simp only: distinct_map)
qed

subsection \<open>Every step keeps the invariant\<close>

lemma live_ok_frame:
  assumes "live_ok rs locks lv" and "set rs \<subseteq> set rs'"
    and "locks' (or_module (live_record lv)) = locks (or_module (live_record lv))"
  shows "live_ok rs' locks' lv"
  using assms unfolding live_ok_def by auto

lemma live_ok_id: "live_ok rs locks lv \<Longrightarrow> or_request_id (live_record lv) \<in> or_request_id ` set rs"
  unfolding live_ok_def by (metis image_eqI)

lemma began_refused: "(\<And>h. res \<noteq> Started h) \<Longrightarrow> began res j s = s\<lparr>sy_journal := j\<rparr>"
  by (cases res) (auto simp: began_def)

lemma inv_same_live:
  assumes "system_inv s rs" and "canonical_journal j rs'" and "set rs \<subseteq> set rs'"
    and "\<And>lv. lv \<in> set (sy_live s) \<Longrightarrow>
           jn_locks j (or_module (live_record lv)) = jn_locks (sy_journal s) (or_module (live_record lv))"
  shows "system_inv (s\<lparr>sy_journal := j\<rparr>) rs'"
proof -
  have "live_ok rs' (jn_locks j) lv" if "lv \<in> set (sy_live s)" for lv
  proof -
    have "live_ok rs (jn_locks (sy_journal s)) lv" using assms(1) that by (simp add: system_inv_def)
    then show ?thesis by (rule live_ok_frame [OF _ assms(3)]) (rule assms(4) [OF that])
  qed
  moreover have "set (sy_started s) \<subseteq> or_request_id ` set rs'"
    using assms(1) image_mono [OF assms(3), of or_request_id] unfolding system_inv_def by blast
  ultimately show ?thesis using assms(1,2) by (simp add: system_inv_def)
qed

lemma inv_commit:
  assumes inv: "system_inv s rs" and io: "sound_io io" and st: "stable_name m"
    and mb: "may_begin io m rid rs (sy_journal s)"
    and c: "commitOperation io a (normalizeModuleName m) (trim_space rid) rs (sy_journal s) = (res, j')"
  shows "\<exists>rs'. system_inv (began res j' s) rs'"
proof -
  let ?M = "normalizeModuleName m" and ?R = "trim_space rid" and ?j = "sy_journal s"
  let ?new = "newOperationRecord (io_now io) a ?M ?R"
  have MM: "normalizeModuleName ?M = ?M" using st by (simp add: stable_name_def)
  have cj: "canonical_journal ?j rs" and live: "\<And>lv. lv \<in> set (sy_live s) \<Longrightarrow> live_ok rs (jn_locks ?j) lv"
    using inv by (auto simp: system_inv_def)
  have can: "\<forall>r \<in> set rs. canonical_op r" and dis: "distinct (map or_request_id rs)"
    using cj by (auto simp: canonical_journal_def)
  have cnew: "canonical_op ?new" using io MM by (intro canonical_new) (auto simp: sound_io_def)
  have R: "?R \<notin> or_request_id ` set rs"
  proof
    assume "?R \<in> or_request_id ` set rs"
    then obtain r where r: "r \<in> set rs" "or_request_id r = ?R" by auto
    then have "lookup_items req_key ?R rs = Some r" using lookup_canonical [OF cj r(1)] by simp
    with mb show False by (simp add: may_begin_def)
  qed
  have can': "\<forall>r \<in> set (rs @ [?new]). canonical_op r" using can cnew by auto
  have dis': "distinct (map or_request_id (rs @ [?new]))" using dis R by simp
  have same: "s\<lparr>sy_journal := sy_journal s\<rparr> = s" by simp
  show ?thesis
  proof (cases "acquireModuleLock ?M ?R ?j")
    case (Pair x j1)
    show ?thesis
    proof (cases x)
      case (Inl e)
      with Pair c have "res = Refused None e" "j' = ?j"
        by (auto simp: commitOperation_def dest: acquireModuleLock_refused)
      with inv same show ?thesis by (metis began_refused begin_result.distinct(3))
    next
      case (Inr u)
      with Pair have "acquireModuleLock ?M ?R ?j = (Inr u, j1)" by simp
      then have M: "?M \<noteq> []" "\<forall>l. jn_locks ?j ?M = Some l \<longrightarrow> trim_space l = ?R"
        and j1: "j1 = ?j\<lparr>jn_locks := (jn_locks ?j)(?M \<mapsto> ?R)\<rparr>"
        by (simp_all add: acquireModuleLock_ok_iff MM)
      have free: "or_module (live_record lv) \<noteq> ?M" if "lv \<in> set (sy_live s)" for lv
      proof
        assume "or_module (live_record lv) = ?M"
        with live [OF that] have "jn_locks ?j ?M = Some (or_request_id (live_record lv))"
          "canonical_op (live_record lv)" by (auto simp: live_ok_def)
        with M(2) have "or_request_id (live_record lv) = ?R" by (auto simp: canonical_op_def)
        with live_ok_id [OF live [OF that]] R show False by simp
      qed
      have save: "saveOperationRecords io (rs @ [?new]) j1
          = (fst (write_items (io_write io) (rs @ [?new]) (jn_file ?j)),
             j1\<lparr>jn_file := snd (write_items (io_write io) (rs @ [?new]) (jn_file ?j))\<rparr>)"
        using save_canonical [OF can'] j1 by simp
      show ?thesis
      proof (cases "fst (write_items (io_write io) (rs @ [?new]) (jn_file ?j))")
        case (Inl e)
        with c Pair Inr save have res: "res = Refused None (JournalFile e)"
          and j': "j' = releaseModuleLock ?M ?R
            (j1\<lparr>jn_file := snd (write_items (io_write io) (rs @ [?new]) (jn_file ?j))\<rparr>)"
          by (auto simp: commitOperation_def)
        have f: "jn_file j' = snd (write_items (io_write io) (rs @ [?new]) (jn_file ?j))"
          by (simp add: j')
        have "canonical_journal j' rs \<or> canonical_journal j' (rs @ [?new])"
          by (rule canonical_journal_write [OF cj can' dis' _ f]) (use io in \<open>simp add: sound_io_def\<close>)
        moreover have "jn_locks j' (or_module (live_record lv)) = jn_locks ?j (or_module (live_record lv))"
          if "lv \<in> set (sy_live s)" for lv
          using free [OF that] j' j1 by (simp add: releaseModuleLock_locks MM)
        ultimately show ?thesis
          using inv_same_live [OF inv, of j' rs] inv_same_live [OF inv, of j' "rs @ [?new]"] res
          by (auto simp: began_refused)
      next
        case ok: (Inr u')
        then have w: "io_write io = Write_ok" using write_items_ok_iff by (cases "io_write io") auto
        with c Pair Inr save ok
        have res: "res = Started \<lparr>oh_record = ?new, oh_active = True\<rparr>"
          and j': "j' = j1\<lparr>jn_file := Items (rs @ [?new])\<rparr>"
          by (auto simp: commitOperation_def Let_def)
        have "canonical_journal j' (rs @ [?new])" using j' can' dis' by (simp add: canonical_journal_def)
        moreover have "live_ok (rs @ [?new]) (jn_locks j') lv" if "lv \<in> set (sy_live s)" for lv
          using free [OF that] by (intro live_ok_frame [OF live [OF that]]) (auto simp: j' j1)
        moreover have "live_ok (rs @ [?new]) (jn_locks j')
            \<lparr>lv_handle = \<lparr>oh_record = ?new, oh_active = True\<rparr>, lv_finished = False\<rparr>"
          using M(1) cnew by (simp add: live_ok_def j' j1 MM)
        moreover have "?R \<notin> (or_request_id \<circ> live_record) ` set (sy_live s)"
          using live_ok_id [OF live] R by auto
        ultimately have "system_inv (began res j' s) (rs @ [?new])"
          using inv R res by (auto simp: system_inv_def began_def)
        then show ?thesis by blast
      qed
    qed
  qed
qed

lemma distinct_map_other:
  assumes "distinct (map f (xs @ x # ys))" and "v \<in> set (xs @ ys)"
  shows "f v \<noteq> f x"
proof
  assume "f v = f x"
  then have "f x \<in> f ` set xs \<union> f ` set ys" using assms(2) by (metis image_Un image_eqI set_append)
  with assms(1) show False by auto
qed

lemma live_ok_change_one:
  assumes l: "live_ok rs locks lv" and ne: "or_request_id (live_record lv) \<noteq> rid"
  shows "live_ok (change_one rid change rs) locks lv"
proof -
  from l obtain r where r: "r \<in> set rs" "or_request_id r = or_request_id (live_record lv)"
    "or_module r = or_module (live_record lv)" "\<not> lv_finished lv \<longrightarrow> or_status r = operationStatusRunning"
    by (auto simp: live_ok_def)
  have "r \<in> set (change_one rid change rs)" using r(1,2) ne by (force simp: change_one_def)
  with r l show ?thesis unfolding live_ok_def by blast
qed

lemma inv_rewrite:
  assumes inv: "system_inv s rs" and io: "sound_io io"
    and lv: "sy_live s = xs @ \<lparr>lv_handle = h, lv_finished = False\<rparr> # ys"
    and k: "keeps_identity change" and f: "fin \<or> (\<forall>r. or_status (change r) = or_status r)"
    and rw: "rewriteRecord io change h (sy_journal s) = (h', j')"
  shows "\<exists>rs'. system_inv (s\<lparr>sy_journal := j', sy_live := xs @ \<lparr>lv_handle = h', lv_finished = fin\<rparr> # ys\<rparr>) rs'"
proof -
  let ?j = "sy_journal s" and ?id = "or_request_id (oh_record h)"
  have cj: "canonical_journal ?j rs" and live: "\<And>v. v \<in> set (sy_live s) \<Longrightarrow> live_ok rs (jn_locks ?j) v"
    using inv by (auto simp: system_inv_def)
  have can: "\<forall>r \<in> set rs. canonical_op r" and dis: "distinct (map or_request_id rs)"
    using cj by (auto simp: canonical_journal_def)
  have h: "live_ok rs (jn_locks ?j) \<lparr>lv_handle = h, lv_finished = False\<rparr>" using live lv by simp
  then obtain r where r: "r \<in> set rs" "or_request_id r = ?id" "or_module r = or_module (oh_record h)"
    "or_status r = operationStatusRunning" and act: "oh_active h" and ch: "canonical_op (oh_record h)"
    by (auto simp: live_ok_def)
  let ?rs' = "change_one ?id change rs"
  have h': "h' = h\<lparr>oh_record := change r\<rparr>"
    and j': "j' = ?j\<lparr>jn_file := snd (write_items (io_write io) ?rs' (jn_file ?j))\<rparr>"
    using rewriteRecord_canonical [OF cj r(1,2) ch k, of io] rw r(2) by simp_all
  have fj: "jn_file j' = snd (write_items (io_write io) ?rs' (jn_file ?j))" by (simp add: j')
  have locks: "jn_locks j' = jn_locks ?j" by (simp add: j')
  have ids: "map or_request_id ?rs' = map or_request_id rs" by (rule change_one_ids [OF k])
  have cj': "canonical_journal j' rs \<or> canonical_journal j' ?rs'"
    by (rule canonical_journal_write [OF cj change_one_canonical [OF k can] _ _ fj])
      (use ids dis io in \<open>simp_all add: sound_io_def\<close>)
  have cr: "or_request_id (change r) = ?id" "or_module (change r) = or_module (oh_record h)"
    "canonical_op (change r)"
    using k r can by (auto simp: keeps_identity_def)
  have others: "or_request_id (live_record v) \<noteq> ?id" if "v \<in> set xs \<union> set ys" for v
  proof -
    have "distinct (map (or_request_id \<circ> live_record) (xs @ \<lparr>lv_handle = h, lv_finished = False\<rparr> # ys))"
      using inv lv by (simp only: system_inv_def)
    then have "(or_request_id \<circ> live_record) v
        \<noteq> (or_request_id \<circ> live_record) \<lparr>lv_handle = h, lv_finished = False\<rparr>"
      by (rule distinct_map_other) (use that in simp)
    then show ?thesis by simp
  qed
  have this_live: "live_ok q (jn_locks ?j) \<lparr>lv_handle = h', lv_finished = fin\<rparr>"
    if "x \<in> set q" "or_request_id x = ?id" "or_module x = or_module (oh_record h)"
      "\<not> fin \<longrightarrow> or_status x = operationStatusRunning" for q x
    using that h h' act cr unfolding live_ok_def by auto
  have "\<exists>q. canonical_journal j' q \<and> or_request_id ` set q = or_request_id ` set rs
      \<and> live_ok q (jn_locks ?j) \<lparr>lv_handle = h', lv_finished = fin\<rparr>
      \<and> (\<forall>v \<in> set xs \<union> set ys. live_ok q (jn_locks ?j) v)"
    using cj'
  proof (elim disjE)
    assume c: "canonical_journal j' rs"
    have "live_ok rs (jn_locks ?j) \<lparr>lv_handle = h', lv_finished = fin\<rparr>"
      by (rule this_live [OF r(1-3)]) (simp add: r(4))
    with c live lv show ?thesis by auto
  next
    assume c: "canonical_journal j' ?rs'"
    have "change r \<in> set ?rs'" using r(1,2) by (force simp: change_one_def)
    then have "live_ok ?rs' (jn_locks ?j) \<lparr>lv_handle = h', lv_finished = fin\<rparr>"
      using cr(1,2) by (rule this_live) (use f r(4) in auto)
    moreover have "\<forall>v \<in> set xs \<union> set ys. live_ok ?rs' (jn_locks ?j) v"
      using live lv others by (auto intro: live_ok_change_one)
    moreover have "or_request_id ` set ?rs' = or_request_id ` set rs"
      using ids by (metis set_map)
    ultimately show ?thesis using c by blast
  qed
  then obtain q where q: "canonical_journal j' q" "or_request_id ` set q = or_request_id ` set rs"
    "live_ok q (jn_locks ?j) \<lparr>lv_handle = h', lv_finished = fin\<rparr>"
    "\<forall>v \<in> set xs \<union> set ys. live_ok q (jn_locks ?j) v" by blast
  have "system_inv (s\<lparr>sy_journal := j', sy_live := xs @ \<lparr>lv_handle = h', lv_finished = fin\<rparr> # ys\<rparr>) q"
    using inv q locks lv h' cr(1) by (auto simp: system_inv_def)
  then show ?thesis by blast
qed

lemma inv_subset:
  assumes inv: "system_inv s rs" and lv: "sy_live s = xs @ lv # ys"
    and j: "jn_file j = jn_file (sy_journal s)"
    and l: "\<And>k. k \<noteq> or_module (live_record lv) \<Longrightarrow> jn_locks j k = jn_locks (sy_journal s) k"
  shows "system_inv (s\<lparr>sy_journal := j, sy_live := xs @ ys\<rparr>) rs"
proof -
  have "or_module (live_record v) \<noteq> or_module (live_record lv)" if "v \<in> set (xs @ ys)" for v
  proof -
    have "(or_module \<circ> live_record) v \<noteq> (or_module \<circ> live_record) lv"
      by (rule distinct_map_other [OF _ that]) (use inv_distinct_modules [OF inv] in \<open>simp only: lv\<close>)
    then show ?thesis by simp
  qed
  then have "live_ok rs (jn_locks j) v" if "v \<in> set (xs @ ys)" for v
    using inv lv l that unfolding system_inv_def live_ok_def by auto
  then show ?thesis using inv lv j by (auto simp: system_inv_def canonical_journal_def)
qed

lemma inv_release:
  assumes inv: "system_inv s rs" and lv: "sy_live s = xs @ \<lparr>lv_handle = h, lv_finished = fin\<rparr> # ys"
    and r: "release h (sy_journal s) = (h', j')"
  shows "system_inv (s\<lparr>sy_journal := j', sy_live := xs @ ys\<rparr>) rs"
proof -
  have "live_ok rs (jn_locks (sy_journal s)) \<lparr>lv_handle = h, lv_finished = fin\<rparr>"
    using inv lv by (simp add: system_inv_def)
  then have "oh_active h" "normalizeModuleName (or_module (oh_record h)) = or_module (oh_record h)"
    by (auto simp: live_ok_def canonical_op_def)
  with r have "jn_file j' = jn_file (sy_journal s)"
    "\<And>k. k \<noteq> or_module (oh_record h) \<Longrightarrow> jn_locks j' k = jn_locks (sy_journal s) k"
    by (auto simp: release_def releaseModuleLock_locks)
  with inv_subset [OF inv lv] show ?thesis by simp
qed

lemma inv_restart:
  assumes inv: "system_inv s rs" and io: "sound_io io"
  shows "\<exists>rs'. system_inv (restarted io s) rs'"
proof -
  let ?j = "(sy_journal s)\<lparr>jn_locks := Map.empty\<rparr>"
  let ?k = "interruptRecord (io_now io)"
  have cj: "canonical_journal ?j rs" using inv by (simp add: system_inv_def canonical_journal_def)
  then have can: "\<forall>r \<in> set rs. canonical_op r" and dis: "distinct (map or_request_id rs)"
    by (auto simp: canonical_journal_def)
  have can': "\<forall>r \<in> set (map ?k rs). canonical_op r"
    using can io canonical_interrupt by (auto simp: sound_io_def)
  have ids: "map or_request_id (map ?k rs) = map or_request_id rs" by simp
  let ?j' = "snd (InitializeRuntimeState io ?j)"
  have "canonical_journal ?j' rs \<or> canonical_journal ?j' (map ?k rs)"
  proof (cases "list_ex (\<lambda>r. or_status r = operationStatusRunning) rs")
    case True
    then have "jn_file ?j' = snd (write_items (io_write io) (map ?k rs) (jn_file ?j))"
      using save_canonical [OF can', of io ?j] load_canonical [OF cj, of io]
      by (simp add: InitializeRuntimeState_def)
    then show ?thesis
      using canonical_journal_write [OF cj can'] ids dis io by (auto simp: sound_io_def comp_def)
  next
    case False
    then show ?thesis using cj load_canonical [OF cj, of io] by (simp add: InitializeRuntimeState_def)
  qed
  moreover have "or_request_id ` set (map ?k rs) = or_request_id ` set rs"
    by (force simp: image_image)
  ultimately obtain rs' where "canonical_journal ?j' rs'" "or_request_id ` set rs' = or_request_id ` set rs"
    by blast
  with inv have "system_inv (restarted io s) rs'" by (simp add: system_inv_def restarted_def)
  then show ?thesis by blast
qed

subsection \<open>What holds in every reachable state\<close>

lemma inv_step:
  assumes inv: "system_inv s rs" and step: "sys_step s s'"
  shows "\<exists>rs'. system_inv s' rs'"
  using step
proof (cases rule: sys_step.cases)
  case (step_begin io m a rid res j')
  show ?thesis
  proof (cases rule: beginOperation_cases [of io a m rid "sy_journal s"])
    case (commit records)
    have "records = rs"
      using commit(1) inv load_canonical by (auto simp: may_begin_def system_inv_def)
    with commit step_begin inv_commit [OF inv, of io m rid a res j'] show ?thesis by simp
  next
    case (refused e)
    with step_begin inv show ?thesis by (auto simp: began_refused)
  next
    case (known records r)
    with step_begin have "j' = sy_journal s" "\<And>h. res \<noteq> Started h" by (auto split: if_splits)
    with step_begin inv show ?thesis by (auto simp: began_refused)
  qed
next
  case (step_stage io xs h ys st h' j')
  have "oh_active h" using inv step_stage(3) by (auto simp: system_inv_def live_ok_def)
  with step_stage have rw: "rewriteRecord io (\<lambda>r. r\<lparr>or_stage := st, or_updated_at := io_now io\<rparr>) h (sy_journal s) = (h', j')"
    by (simp add: UpdateStage_def)
  have "clock_reading (io_now io)" using step_stage by (simp add: sound_io_def)
  from inv_rewrite [OF inv step_stage(2,3) keeps_identity_changes(4) [OF this] _ rw, of False]
  show ?thesis using step_stage(1) by simp
next
  case (step_finish io xs h ys change r err h' j')
  then have "clock_reading (io_now io)" by (simp add: sound_io_def)
  from keeps_identity_changes(1) [OF this, of r] keeps_identity_changes(2) [OF this, of err] step_finish(4)
  have "keeps_identity change" by auto
  from inv_rewrite [OF inv step_finish(2,3) this _ step_finish(5), of True]
  show ?thesis using step_finish(1) by simp
next
  case (step_release xs h ys h' j')
  then show ?thesis using inv_release [OF inv] by blast
next
  case (step_abandon xs lv ys)
  have "system_inv (s\<lparr>sy_journal := sy_journal s, sy_live := xs @ ys\<rparr>) rs"
    by (rule inv_subset [OF inv step_abandon(2)]) simp_all
  then show ?thesis using step_abandon(1) by auto
next
  case (step_restart io)
  then show ?thesis using inv_restart [OF inv] by blast
qed

lemma inv_reachable: "reachable s \<Longrightarrow> \<exists>rs. system_inv s rs"
  by (induction rule: reachable.induct) (auto intro: system_inv_init dest: inv_step)

text \<open>
  C1: mutual exclusion.  Whatever begins, stages, ends, releases, abandoned handlers and
  restarts happened, and whichever journal writes failed without losing data, no two live
  handlers work on one module, and every live handler holds its module's lock.  Module names
  are stable (\<^verbatim>\<open>stable_name\<close>).
\<close>

theorem journal_mutual_exclusion:
  assumes "reachable s"
  shows "distinct (map (or_module \<circ> live_record) (sy_live s))
    \<and> (\<forall>lv \<in> set (sy_live s).
        jn_locks (sy_journal s) (or_module (live_record lv)) = Some (or_request_id (live_record lv)))"
  using inv_reachable [OF assms] inv_distinct_modules by (auto simp: system_inv_def live_ok_def)

text \<open>
  C2: at most once, as long as the journal's writes are durable.  Over the whole life of the
  journal, restarts included, no request id starts a second operation, and every operation
  that was started is in the journal.  The condition is part of \<^verbatim>\<open>sys_step\<close>: every write of the
  journal either happens or leaves the old records (\<^verbatim>\<open>sound_io\<close>), and module names are stable.
  \<^verbatim>\<open>saveOperationRecords\<close> uses \<^verbatim>\<open>os.WriteFile\<close>, which truncates first and is not atomic; after
  a write that was cut short there the same id does start again (\<^verbatim>\<open>torn_write_repeats\<close> below).
\<close>

theorem journal_at_most_once:
  assumes "reachable s"
  shows "distinct (sy_started s)
    \<and> (\<exists>rs. read_items (jn_file (sy_journal s)) = Inr rs
         \<and> distinct (map or_request_id rs) \<and> set (sy_started s) \<subseteq> or_request_id ` set rs)"
  using inv_reachable [OF assms] by (auto simp: system_inv_def canonical_journal_def)

text \<open>
  C28: a restart whose journal write succeeds unblocks every module: an operation under a
  fresh request id then starts, whatever handlers were cut off or abandoned before.
\<close>

theorem restart_unblocks:
  assumes "reachable s" and "sound_io io" and "io_write io = Write_ok"
    and "sound_io io'" and "io_write io' = Write_ok"
    and "stable_name m" and "normalizeModuleName m \<noteq> []" and "trim_space rid \<noteq> []"
    and "\<And>rs. read_items (jn_file (sy_journal s)) = Inr rs \<Longrightarrow> trim_space rid \<notin> or_request_id ` set rs"
  shows "\<exists>h j'. beginOperation io' a m rid (sy_journal (restarted io s)) = (Started h, j')
    \<and> or_module (oh_record h) = normalizeModuleName m \<and> or_request_id (oh_record h) = trim_space rid"
proof -
  obtain rs where inv: "system_inv s rs" using inv_reachable [OF assms(1)] by blast
  let ?cleared = "(sy_journal s)\<lparr>jn_locks := Map.empty\<rparr>" and ?j = "sy_journal (restarted io s)"
  have cj0: "canonical_journal ?cleared rs" using inv by (simp add: system_inv_def canonical_journal_def)
  have "fst (InitializeRuntimeState io ?cleared) = Inr ()"
    using load_canonical [OF cj0, of io] assms(3) by (simp add: InitializeRuntimeState_def write_items_ok_iff)
  then obtain after where l: "loadOperationRecords io' ?j = Inr after"
    and ids: "map req_key after = map req_key rs" and nr: "\<forall>r \<in> set after. or_status r \<noteq> operationStatusRunning"
    and locks: "jn_locks ?j = Map.empty"
    using InitializeRuntimeState_effect [OF load_canonical [OF cj0], of io io'] by (auto simp: restarted_def)
  have "req_key ` set rs = or_request_id ` set rs"
    using cj0 by (force simp: canonical_journal_def canonical_key)
  moreover have "trim_space rid \<notin> or_request_id ` set rs"
    using assms(9) inv by (simp add: system_inv_def canonical_journal_def)
  moreover have "req_key ` set after = req_key ` set rs" using ids by (metis set_map)
  ultimately have fresh: "trim_space rid \<notin> req_key ` set after" by simp
  have "\<not> module_running (normalizeModuleName m) after"
    using nr by (auto simp: module_running_def list_ex_iff)
  then have "may_begin io' m rid after ?j"
    using l fresh assms(7,8) by (simp add: may_begin_def lookup_items_None)
  then show ?thesis
    using locks assms(5-7)
    by (auto simp: beginOperation_started commitOperation_started stable_name_def)
qed

lemma canonical_after_begin:
  assumes cj: "canonical_journal j rs" and io: "sound_io io" and st: "stable_name m"
    and b: "beginOperation io a m rid j = (Started h, j1)"
  shows "canonical_journal j1 (rs @ [oh_record h])"
    and "oh_active h" and "canonical_op (oh_record h)"
    and "or_module (oh_record h) = normalizeModuleName m"
    and "or_request_id (oh_record h) = trim_space rid"
    and "jn_locks j1 = (jn_locks j)(normalizeModuleName m \<mapsto> trim_space rid)"
    and "normalizeModuleName m \<noteq> []"
proof -
  have MM: "normalizeModuleName (normalizeModuleName m) = normalizeModuleName m"
    using st by (simp add: stable_name_def)
  from b obtain records where mb: "may_begin io m rid records j"
    and h: "h = \<lparr>oh_record = newOperationRecord (io_now io) a (normalizeModuleName m) (trim_space rid),
                 oh_active = True\<rparr>"
    and j1: "jn_file j1 = Items (map (normalizeOperationRecord (io_now io)) (records @ [oh_record h]))"
    and M: "normalizeModuleName m \<noteq> []"
    and l: "jn_locks j1 = (jn_locks j)(normalizeModuleName m \<mapsto> trim_space rid)"
    by (auto simp: beginOperation_started commitOperation_started MM)
  have rs: "records = rs" using mb load_canonical [OF cj] by (simp add: may_begin_def)
  have can: "\<forall>r \<in> set rs. canonical_op r" and dis: "distinct (map or_request_id rs)"
    using cj by (auto simp: canonical_journal_def)
  show c: "canonical_op (oh_record h)"
    using io MM h by (simp add: canonical_new sound_io_def)
  show ids: "or_request_id (oh_record h) = trim_space rid" and "oh_active h"
    and "or_module (oh_record h) = normalizeModuleName m"
    using h MM by simp_all
  have "trim_space rid \<notin> or_request_id ` set rs"
  proof
    assume "trim_space rid \<in> or_request_id ` set rs"
    then obtain r where r: "r \<in> set rs" "or_request_id r = trim_space rid" by auto
    have "lookup_items req_key (trim_space rid) rs = Some r" using lookup_canonical [OF cj r(1)] r(2) by simp
    with mb rs show False by (simp add: may_begin_def)
  qed
  then show "canonical_journal j1 (rs @ [oh_record h])"
    using j1 rs can c dis ids canonical_map [OF can] by (simp add: canonical_journal_def canonical_op_fixed)
  show "jn_locks j1 = (jn_locks j)(normalizeModuleName m \<mapsto> trim_space rid)" by (rule l)
  show "normalizeModuleName m \<noteq> []" by (rule M)
qed

lemma complete_known:
  assumes cj: "canonical_journal j rs" and mem: "oh_record h \<in> set rs" and act: "oh_active h"
    and io1: "sound_io io1" "io_write io1 = Write_ok"
  shows "\<exists>rs2. canonical_journal (snd (Complete io1 result h j)) rs2
     \<and> lookup_items req_key (or_request_id (oh_record h)) rs2
         = Some (completeRecord (io_now io1) result (oh_record h))"
    and "canonical_op (completeRecord (io_now io1) result (oh_record h))"
    and "jn_locks (snd (Complete io1 result h j)) k =
      (if k = or_module (oh_record h) \<and> k \<noteq> []
          \<and> (\<exists>l. jn_locks j k = Some l \<and> trim_space l = or_request_id (oh_record h))
       then None else jn_locks j k)"
    and "\<not> oh_active (fst (Complete io1 result h j))"
proof -
  let ?k = "completeRecord (io_now io1) result"
  let ?r = "?k (oh_record h)" and ?rs2 = "change_one (or_request_id (oh_record h)) ?k rs"
  let ?c = "snd (Complete io1 result h j)"
  have can: "\<forall>r \<in> set rs. canonical_op r" and dis: "distinct (map or_request_id rs)"
    using cj unfolding canonical_journal_def by blast+
  have k: "keeps_identity ?k" using io1(1) keeps_identity_changes(1) by (simp add: sound_io_def)
  have ch: "canonical_op (oh_record h)" using can mem by blast
  have rw: "rewriteRecord io1 ?k h j = (h\<lparr>oh_record := ?r\<rparr>, j\<lparr>jn_file := Items ?rs2\<rparr>)"
    using rewriteRecord_canonical [OF cj mem refl ch k, of io1] io1(2) by simp
  have f: "jn_file ?c = Items ?rs2"
    by (simp add: Complete_steps [OF act rw] release_def act)
  have cj2: "canonical_journal ?c ?rs2"
    unfolding canonical_journal_def
    by (intro conjI change_one_canonical [OF k can]) (simp_all only: f read_items.simps change_one_ids [OF k] dis)
  have mem2: "?r \<in> set ?rs2" using mem by (force simp: change_one_def)
  have "or_request_id ?r = or_request_id (oh_record h)" using k by (simp add: keeps_identity_def)
  then have "lookup_items req_key (or_request_id (oh_record h)) ?rs2 = Some ?r"
    using lookup_canonical [OF cj2 mem2] by simp
  with cj2 show "\<exists>rs2. canonical_journal ?c rs2 \<and> lookup_items req_key (or_request_id (oh_record h)) rs2 = Some ?r"
    by blast
  show "canonical_op ?r" using k ch by (simp add: keeps_identity_def)
  then have cr: "normalizeModuleName (or_module ?r) = or_module (oh_record h)"
    "trim_space (or_request_id ?r) = or_request_id (oh_record h)"
    using k by (simp_all add: canonical_op_def keeps_identity_def)
  show "jn_locks ?c k =
      (if k = or_module (oh_record h) \<and> k \<noteq> []
          \<and> (\<exists>l. jn_locks j k = Some l \<and> trim_space l = or_request_id (oh_record h))
       then None else jn_locks j k)"
    using act by (auto simp: Complete_steps [OF act rw] release_def releaseModuleLock_locks cr)
  show "\<not> oh_active (fst (Complete io1 result h j))"
    by (simp add: Complete_steps [OF act rw] release_def)
qed

lemma replay_known:
  assumes "canonical_journal j rs" and "lookup_items req_key (trim_space rid) rs = Some r"
    and "canonical_op r" and "or_status r \<noteq> operationStatusRunning"
    and "normalizeModuleName m \<noteq> []" and "trim_space rid \<noteq> []"
  shows "beginOperation io a m rid j = (Replayed r, j)"
  using assms(4)
  by (simp only: beginOperation_known [OF assms(5,6) load_canonical [OF assms(1)] assms(2)]
      canonical_op_fixed [OF assms(3)] if_False)

text \<open>
  A handle whose operation still runs: its record, in normal form, has request id \<open>R\<close>, and
  the journal has a running record under that id.
\<close>

definition runs_in :: "string \<Rightarrow> journal \<Rightarrow> bool" where
  "runs_in R j \<longleftrightarrow>
     (\<exists>rs. canonical_journal j rs
        \<and> (\<exists>r \<in> set rs. or_request_id r = R \<and> or_status r = operationStatusRunning))"

definition tracked :: "string \<Rightarrow> op_handle \<Rightarrow> journal \<Rightarrow> bool" where
  "tracked R h j \<longleftrightarrow>
     oh_active h \<and> canonical_op (oh_record h) \<and> or_request_id (oh_record h) = R \<and> runs_in R j"

lemma tracked_begin:
  assumes "canonical_journal j rs" and "sound_io io" and "stable_name m"
    and "beginOperation io a m rid j = (Started h, j1)"
  shows "tracked (trim_space rid) h j1"
proof -
  note bg = canonical_after_begin [OF assms]
  have "or_status (oh_record h) = operationStatusRunning"
    using assms(4) by (auto simp: beginOperation_started commitOperation_started)
  with bg(1,2,3,5) show ?thesis by (auto simp: tracked_def runs_in_def)
qed

text \<open>A durable rewrite of the record leaves the old journal or the changed one.\<close>

lemma tracked_rewrite:
  assumes t: "tracked R h j" and io: "sound_io io" and k: "keeps_identity change"
    and rw: "rewriteRecord io change h j = (h', j')"
  shows "oh_active h'" "canonical_op (oh_record h')" "or_request_id (oh_record h') = R"
    and "\<exists>rs r. canonical_journal j' rs \<and> r \<in> set rs \<and> canonical_op r \<and> or_request_id r = R
       \<and> (io_write io \<noteq> Write_ok \<and> or_status r = operationStatusRunning
          \<or> (\<exists>r0. r = change r0 \<and> or_status r0 = operationStatusRunning))"
proof -
  from t obtain rs r where cj: "canonical_journal j rs" and r: "r \<in> set rs" "or_request_id r = R"
      "or_status r = operationStatusRunning"
    and h: "oh_active h" "canonical_op (oh_record h)" "or_request_id (oh_record h) = R"
    by (auto simp: tracked_def runs_in_def)
  let ?new = "change_one R change rs"
  have can: "\<forall>r \<in> set rs. canonical_op r" and dis: "distinct (map or_request_id rs)"
    using cj unfolding canonical_journal_def by blast+
  have id: "or_request_id r = or_request_id (oh_record h)" using r(2) h(3) by simp
  have step: "h' = h\<lparr>oh_record := change r\<rparr>"
    "j' = j\<lparr>jn_file := snd (write_items (io_write io) ?new (jn_file j))\<rparr>"
    using rewriteRecord_canonical [OF cj r(1) id h(2) k, of io] rw r(2) by simp_all
  have c: "canonical_op (change r)" "or_request_id (change r) = R"
    using k can r(1,2) by (auto simp: keeps_identity_def)
  then show "oh_active h'" "canonical_op (oh_record h')" "or_request_id (oh_record h') = R"
    using step(1) h(1) by simp_all
  have mem: "change r \<in> set ?new" using r(1,2) by (force simp: change_one_def)
  have can': "\<forall>r \<in> set ?new. canonical_op r" by (rule change_one_canonical [OF k can])
  have dis': "distinct (map or_request_id ?new)" using dis by (simp only: change_one_ids [OF k])
  have new: "\<exists>r0. change r = change r0 \<and> or_status r0 = operationStatusRunning" using r(3) by blast
  show "\<exists>rs r. canonical_journal j' rs \<and> r \<in> set rs \<and> canonical_op r \<and> or_request_id r = R
       \<and> (io_write io \<noteq> Write_ok \<and> or_status r = operationStatusRunning
          \<or> (\<exists>r0. r = change r0 \<and> or_status r0 = operationStatusRunning))"
  proof (cases "io_write io = Write_ok")
    case True
    then have "canonical_journal j' ?new" using step(2) can' dis' by (simp add: canonical_journal_def)
    with mem c new show ?thesis by blast
  next
    case False
    have "canonical_journal j' rs \<or> canonical_journal j' ?new"
      by (rule canonical_journal_write [OF cj can' dis', of "io_write io"])
        (use io step(2) in \<open>simp_all add: sound_io_def\<close>)
    with False r can mem c new show ?thesis by blast
  qed
qed

lemma tracked_stage:
  assumes t: "tracked R h j" and io: "sound_io io"
  shows "tracked R (fst (UpdateStage io st h j)) (snd (UpdateStage io st h j))"
proof -
  let ?k = "\<lambda>r. r\<lparr>or_stage := st, or_updated_at := io_now io\<rparr>"
  obtain h' j' where rw: "rewriteRecord io ?k h j = (h', j')" by (metis surj_pair)
  have k: "keeps_identity ?k" using io by (intro keeps_identity_changes(4)) (simp add: sound_io_def)
  note rt = tracked_rewrite [OF t io k rw]
  from rt(4) obtain rs r where "canonical_journal j' rs" "r \<in> set rs" "or_request_id r = R"
    "or_status r = operationStatusRunning" by auto
  then have "runs_in R j'" by (auto simp: runs_in_def)
  moreover have "oh_active h" using t by (simp add: tracked_def)
  ultimately show ?thesis using rt(1-3) rw by (simp add: UpdateStage_def tracked_def)
qed

text \<open>
  Completing it: the journal has the completed record, or, when the write failed, perhaps
  still the running one.
\<close>

lemma complete_outcome:
  assumes t: "tracked R h j" and io: "sound_io io"
  shows "\<exists>rs r. canonical_journal (snd (Complete io result h j)) rs \<and> r \<in> set rs
     \<and> canonical_op r \<and> or_request_id r = R
     \<and> (io_write io \<noteq> Write_ok \<and> or_status r = operationStatusRunning
        \<or> (\<exists>r0. r = completeRecord (io_now io) result r0 \<and> or_status r0 = operationStatusRunning))"
proof -
  obtain h' j' where rw: "rewriteRecord io (completeRecord (io_now io) result) h j = (h', j')"
    by (metis surj_pair)
  have k: "keeps_identity (completeRecord (io_now io) result)"
    using io by (intro keeps_identity_changes(1)) (simp add: sound_io_def)
  have a: "oh_active h" using t by (simp add: tracked_def)
  have "jn_file (snd (Complete io result h j)) = jn_file j'"
    by (simp add: Complete_steps [OF a rw] release_def)
  then have "canonical_journal (snd (Complete io result h j)) rs = canonical_journal j' rs" for rs
    by (simp add: canonical_journal_def)
  with tracked_rewrite(4) [OF t io k rw] show ?thesis by simp
qed

lemma unwritten_completion:
  assumes t: "tracked R h j" and io: "sound_io io" and w: "io_write io = Open_fails e"
  shows "runs_in R (snd (Complete io result h j))"
proof -
  from t obtain rs r where cj: "canonical_journal j rs" and r: "r \<in> set rs" "or_request_id r = R"
      "or_status r = operationStatusRunning"
    and h: "oh_active h" "canonical_op (oh_record h)" "or_request_id (oh_record h) = R"
    by (auto simp: tracked_def runs_in_def)
  have k: "keeps_identity (completeRecord (io_now io) result)"
    using io by (intro keeps_identity_changes(1)) (simp add: sound_io_def)
  have id: "or_request_id r = or_request_id (oh_record h)" using r(2) h(3) by simp
  have "rewriteRecord io (completeRecord (io_now io) result) h j
      = (h\<lparr>oh_record := completeRecord (io_now io) result r\<rparr>, j\<lparr>jn_file := jn_file j\<rparr>)"
    using rewriteRecord_canonical [OF cj r(1) id h(2) k, of io] w by simp
  then have "jn_file (snd (Complete io result h j)) = jn_file j"
    by (simp add: Complete_steps [OF h(1)] release_def)
  with cj r show ?thesis by (auto simp: runs_in_def canonical_journal_def)
qed

text \<open>
  C27: round trip through the journal.  After an operation that started has completed and its
  record was written, every later request with the same id is answered with the completed
  record and the result that was given to \<^verbatim>\<open>Complete\<close>, and the module's lock is free again.
\<close>

theorem complete_replay:
  assumes cj: "canonical_journal j rs" and io: "sound_io io" and st: "stable_name m"
    and b: "beginOperation io a m rid j = (Started h, j1)"
    and io1: "sound_io io1" "io_write io1 = Write_ok"
    and m2: "normalizeModuleName m2 \<noteq> []" and ne: "trim_space rid \<noteq> []"
  shows "\<exists>r. beginOperation io2 a2 m2 rid (snd (Complete io1 result h j1))
             = (Replayed r, snd (Complete io1 result h j1))
     \<and> or_status r = operationStatusCompleted
     \<and> or_result r = normalizeOperationResultSnapshot result
     \<and> or_module r = normalizeModuleName m
     \<and> jn_locks (snd (Complete io1 result h j1)) (normalizeModuleName m) = None
     \<and> \<not> oh_active (fst (Complete io1 result h j1))"
proof -
  note bg = canonical_after_begin [OF cj io st b]
  let ?r = "completeRecord (io_now io1) result (oh_record h)" and ?c = "snd (Complete io1 result h j1)"
  have mem: "oh_record h \<in> set (rs @ [oh_record h])" by simp
  note k = complete_known [where result = result, OF bg(1) mem bg(2) io1]
  obtain rs2 where rs2: "canonical_journal ?c rs2" "lookup_items req_key (trim_space rid) rs2 = Some ?r"
    using k(1) bg(5) by auto
  have "beginOperation io2 a2 m2 rid ?c = (Replayed ?r, ?c)"
    by (rule replay_known [OF rs2 k(2) _ m2 ne]) (simp add: completeRecord_def)
  moreover have "jn_locks ?c (normalizeModuleName m) = None"
    using k(3) [of "normalizeModuleName m"] bg(4-7) by simp
  ultimately show ?thesis using k(4) bg(4) by (auto simp: completeRecord_def)
qed

subsection \<open>The hypotheses can hold\<close>

abbreviation empty_journal :: journal where
  "empty_journal \<equiv> \<lparr>jn_file = Missing, jn_locks = Map.empty\<rparr>"

definition sample_begin :: "begin_result \<times> journal" where
  "sample_begin = beginOperation (sample_io Write_ok) operationActionInstall ''UMS'' ''r1'' empty_journal"

lemma sample_sound: "sound_io (sample_io Write_ok)"
  by (simp add: sound_io_def sample_clock) (simp add: sample_io_def)

lemma sample_module: "normalizeModuleName ''UMS'' = ''ums''" "normalizeModuleName ''ums'' = ''ums''"
  "trim_space ''r1'' = ''r1''" "normalizeModuleName [] = []"
  by code_simp+

lemma sample_stable: "stable_name ''UMS''"
  by (simp add: stable_name_def sample_module)

lemma sample_begin_started:
  "\<exists>h. sample_begin = (Started h, snd sample_begin) \<and> or_module (oh_record h) = ''ums''
     \<and> or_request_id (oh_record h) = ''r1''"
proof -
  have "may_begin (sample_io Write_ok) ''UMS'' ''r1'' [] empty_journal"
    by (simp add: may_begin_def sample_module loadOperationRecords_def lookup_items_def module_running_def)
  then obtain j' where "beginOperation (sample_io Write_ok) operationActionInstall ''UMS'' ''r1'' empty_journal
      = (Started \<lparr>oh_record = newOperationRecord (io_now (sample_io Write_ok)) operationActionInstall ''ums'' ''r1'',
                  oh_active = True\<rparr>, j')"
    by (auto simp: beginOperation_started commitOperation_started sample_module sample_io_def)
  then show ?thesis by (simp add: sample_begin_def sample_module)
qed

lemma empty_canonical: "canonical_journal empty_journal []"
  by (simp add: canonical_journal_def)

definition sample_system :: system where
  "sample_system = began (fst sample_begin) (snd sample_begin) initial_system"

lemma sample_reachable: "reachable sample_system"
proof (rule reachable_step [OF reachable_init])
  have "beginOperation (sample_io Write_ok) operationActionInstall ''UMS'' ''r1'' (sy_journal initial_system)
      = (fst sample_begin, snd sample_begin)"
    by (simp add: sample_begin_def initial_system_def)
  then show "sys_step initial_system sample_system"
    unfolding sample_system_def by (rule step_begin [OF sample_sound sample_stable])
qed

lemma sample_system_parts: "length (sy_live sample_system) = 1" "sy_started sample_system = [''r1'']"
proof -
  obtain h where b: "sample_begin = (Started h, snd sample_begin)" "or_request_id (oh_record h) = ''r1''"
    using sample_begin_started by blast
  then have "fst sample_begin = Started h" by (metis fst_conv)
  then show "length (sy_live sample_system) = 1" "sy_started sample_system = [''r1'']"
    using b(2) by (simp_all add: sample_system_def began_def initial_system_def)
qed

theorem journal_mutual_exclusion_witness:
  "\<exists>lv. sy_live sample_system = [lv]
     \<and> jn_locks (sy_journal sample_system) (or_module (live_record lv)) = Some (or_request_id (live_record lv))"
proof -
  obtain lv where "sy_live sample_system = [lv]"
    using sample_system_parts(1) by (auto simp: length_Suc_conv)
  then show ?thesis
    using journal_mutual_exclusion [OF sample_reachable] by simp
qed

theorem journal_at_most_once_witness:
  "sy_started sample_system = [''r1'']
   \<and> (\<exists>rs. read_items (jn_file (sy_journal sample_system)) = Inr rs \<and> ''r1'' \<in> or_request_id ` set rs)"
  using journal_at_most_once [OF sample_reachable] sample_system_parts(2) by auto

text \<open>
  Why at most once needs durable writes: the write of the first stage is cut short after the
  truncation, the agent restarts, and the id that had started an operation starts another.
\<close>

lemma torn_write_repeats:
  "\<exists>h j1 j2 h3 j3.
     beginOperation (sample_io Write_ok) operationActionInstall ''UMS'' ''r1'' empty_journal = (Started h, j1)
   \<and> j2 = snd (UpdateStage (sample_io (Torn_blank ''EIO'')) StageApply h j1)
   \<and> beginOperation (sample_io Write_ok) operationActionInstall ''UMS'' ''r1''
       (snd (InitializeRuntimeState (sample_io Write_ok) (j2\<lparr>jn_locks := Map.empty\<rparr>))) = (Started h3, j3)"
proof -
  obtain h j1 where b: "beginOperation (sample_io Write_ok) operationActionInstall ''UMS'' ''r1'' empty_journal = (Started h, j1)"
    using sample_begin_started by (auto simp: sample_begin_def)
  note bg = canonical_after_begin [OF empty_canonical sample_sound sample_stable b]
  let ?j2 = "snd (UpdateStage (sample_io (Torn_blank ''EIO'')) StageApply h j1)"
  let ?j = "?j2\<lparr>jn_locks := Map.empty\<rparr>"
  have "clock_reading (io_now (sample_io (Torn_blank ''EIO'')))" by (rule sample_clock)
  then have "keeps_identity (\<lambda>r. r\<lparr>or_stage := StageApply, or_updated_at := io_now (sample_io (Torn_blank ''EIO''))\<rparr>)"
    by (rule keeps_identity_changes(4))
  from rewriteRecord_canonical [OF bg(1) _ refl bg(3) this, of "sample_io (Torn_blank ''EIO'')"]
  have f: "jn_file ?j2 = Blank"
    using bg(2) by (simp add: UpdateStage_def sample_io_def)
  then have i: "snd (InitializeRuntimeState (sample_io Write_ok) ?j) = ?j"
    by (simp add: InitializeRuntimeState_def loadOperationRecords_def)
  have "may_begin (sample_io Write_ok) ''UMS'' ''r1'' [] ?j"
    using f by (simp add: may_begin_def sample_module loadOperationRecords_def lookup_items_def module_running_def)
  then obtain h3 j3 where "beginOperation (sample_io Write_ok) operationActionInstall ''UMS'' ''r1'' ?j = (Started h3, j3)"
    by (auto simp: beginOperation_started commitOperation_started sample_module sample_io_def)
  with b i show ?thesis by metis
qed

theorem restart_unblocks_witness:
  "\<exists>h j'. beginOperation (sample_io Write_ok) operationActionInstall ''UMS'' ''r1''
             (sy_journal (restarted (sample_io Write_ok) initial_system)) = (Started h, j')
    \<and> or_module (oh_record h) = ''ums'' \<and> or_request_id (oh_record h) = ''r1''"
proof -
  have w: "io_write (sample_io Write_ok) = Write_ok" by (simp add: sample_io_def)
  show ?thesis
    using restart_unblocks [OF reachable_init sample_sound w sample_sound w sample_stable, of "''r1''"
        operationActionInstall]
    by (simp add: sample_module initial_system_def)
qed

theorem beginOperation_repeat_witness:
  "\<exists>rs. rs \<noteq> [] \<and> loadOperationRecords (sample_io Write_ok) (snd sample_begin) = Inr rs
     \<and> snd (beginOperation (sample_io Write_ok) operationActionRestart ''db'' '' r1 '' (snd sample_begin))
         = snd sample_begin"
proof -
  obtain h where b: "sample_begin = (Started h, snd sample_begin)" "or_request_id (oh_record h) = ''r1''"
    using sample_begin_started by blast
  note bg = canonical_after_begin [OF empty_canonical sample_sound sample_stable b(1) [unfolded sample_begin_def]]
  have l: "loadOperationRecords (sample_io Write_ok) (snd sample_begin) = Inr [oh_record h]"
    using load_canonical [OF bg(1)] by (simp add: sample_begin_def)
  have "req_key (oh_record h) = trim_space '' r1 ''"
    using b(2) by (simp add: req_key_def) code_simp
  then show ?thesis using beginOperation_repeat [OF l, of "oh_record h"] l by auto
qed

theorem beginOperation_refused_locks_witness:
  "jn_locks (snd (beginOperation (sample_io Write_ok) operationActionInstall [] ''r1'' empty_journal)) ''ums'' = None"
proof -
  obtain e where "beginOperation (sample_io Write_ok) operationActionInstall [] ''r1'' empty_journal
      = (Refused None e, empty_journal)"
    using beginOperation_blank [of "[]" "''r1''"] sample_module(4) by blast
  from beginOperation_refused_locks [OF this, of "''ums''"] this show ?thesis by auto
qed

theorem InitializeRuntimeState_interrupts_witness:
  "\<exists>after. length after = 1
     \<and> loadOperationRecords (sample_io Write_ok) (snd (InitializeRuntimeState (sample_io Write_ok) (snd sample_begin))) = Inr after
     \<and> (\<forall>r \<in> set after. or_status r \<noteq> operationStatusRunning)"
proof -
  obtain h where b: "sample_begin = (Started h, snd sample_begin)" using sample_begin_started by blast
  note bg = canonical_after_begin [OF empty_canonical sample_sound sample_stable b [unfolded sample_begin_def]]
  have l: "loadOperationRecords (sample_io Write_ok) (snd sample_begin) = Inr [oh_record h]"
    using load_canonical [OF bg(1)] by (simp add: sample_begin_def)
  have "fst (InitializeRuntimeState (sample_io Write_ok) (snd sample_begin)) = Inr ()"
    using l by (simp add: InitializeRuntimeState_def write_items_ok_iff) (simp add: sample_io_def)
  from InitializeRuntimeState_interrupts [OF l this, of "sample_io Write_ok"]
  obtain after where a: "loadOperationRecords (sample_io Write_ok)
      (snd (InitializeRuntimeState (sample_io Write_ok) (snd sample_begin))) = Inr after"
    and k: "map req_key after = map req_key [oh_record h]"
    and r: "\<forall>r \<in> set after. or_status r \<noteq> operationStatusRunning" by blast
  have "length after = 1" using arg_cong [OF k, of length] by simp
  with a r show ?thesis by blast
qed

theorem complete_replay_witness:
  "\<exists>h j1 r j2. beginOperation (sample_io Write_ok) operationActionInstall ''UMS'' ''r1'' empty_journal = (Started h, j1)
     \<and> beginOperation (sample_io Write_ok) operationActionInstall ''UMS'' ''r1'' j2 = (Replayed r, j2)
     \<and> j2 = snd (Complete (sample_io Write_ok) None h j1)
     \<and> or_status r = operationStatusCompleted"
proof -
  obtain h j1 where b: "beginOperation (sample_io Write_ok) operationActionInstall ''UMS'' ''r1'' empty_journal = (Started h, j1)"
    using sample_begin_started by (auto simp: sample_begin_def)
  have w: "io_write (sample_io Write_ok) = Write_ok" by (simp add: sample_io_def)
  have "normalizeModuleName ''UMS'' \<noteq> []" "trim_space ''r1'' \<noteq> []" by (simp_all add: sample_module)
  from complete_replay [OF empty_canonical sample_sound sample_stable b sample_sound w this] b
  show ?thesis by blast
qed

end
