(* ===== verification/Redaction.thy ===== *)
theory Redaction
  imports Module_Types "HOL-Library.Multiset"
begin

text \<open>
  Secret redaction (\<^verbatim>\<open>internal/agent/install/redaction.go\<close>): log lines and error texts of an
  install lose their PEM blocks and every value of a sensitive environment variable or
  inline file.  Go sorts the secrets with an unstable sort by length; the model sorts
  stably, and the order among secrets of one length is that of the maps' iteration.
\<close>

subsection \<open>PEM blocks\<close>

text \<open>
  \<^verbatim>\<open>-----BEGIN [^-]+-----\<close> or \<^verbatim>\<open>-----END [^-]+-----\<close> at the front of a string: what follows it.
\<close>

definition match_tag :: "string \<Rightarrow> string \<Rightarrow> string option" where
  "match_tag tag s =
     (if prefix tag s
      then let t = drop (length tag) s;
               label = takeWhile (\<lambda>c. c \<noteq> CHR ''-'') t;
               r = dropWhile (\<lambda>c. c \<noteq> CHR ''-'') t
           in if label \<noteq> [] \<and> prefix ''-----'' r then Some (drop 5 r) else None
      else None)"

text \<open>\<^verbatim>\<open>[\s\S]*?\<close> is lazy: the first closing line ends the block.\<close>

fun find_end :: "string \<Rightarrow> string option" where
  "find_end [] = None"
| "find_end (c # s) =
     (case match_tag ''-----END '' (c # s) of Some rest \<Rightarrow> Some rest | None \<Rightarrow> find_end s)"

definition match_pem :: "string \<Rightarrow> string option" where
  "match_pem s = Option.bind (match_tag ''-----BEGIN '' s) find_end"

lemma match_tag_shorter: "match_tag tag s = Some rest \<Longrightarrow> length rest < length s"
proof -
  assume m: "match_tag tag s = Some rest"
  let ?t = "drop (length tag) s" and ?r = "dropWhile (\<lambda>c. c \<noteq> CHR ''-'') (drop (length tag) s)"
  from m have r: "rest = drop 5 ?r" "prefix ''-----'' ?r"
    by (auto simp: match_tag_def Let_def split: if_splits)
  have "5 \<le> length ?r" using prefix_length_le [OF r(2)] by simp
  moreover have "length ?r \<le> length s"
    using length_dropWhile_le [of "\<lambda>c. c \<noteq> CHR ''-''" ?t] by simp
  ultimately show ?thesis using r(1) by simp
qed

lemma find_end_shorter: "find_end s = Some rest \<Longrightarrow> length rest < length s"
proof (induction s)
  case (Cons c s)
  then show ?case by (auto split: option.splits dest: match_tag_shorter)
qed simp

lemma match_pem_shorter: "match_pem s = Some rest \<Longrightarrow> length rest < length s"
proof -
  assume "match_pem s = Some rest"
  then obtain r where "match_tag ''-----BEGIN '' s = Some r" "find_end r = Some rest"
    by (auto simp: match_pem_def Option.bind_eq_Some_conv)
  then show ?thesis using match_tag_shorter find_end_shorter by fastforce
qed

text \<open>\<^verbatim>\<open>pemBlockPattern.ReplaceAllString(text, "[REDACTED_PEM]")\<close>\<close>

function redact_pem :: "string \<Rightarrow> string" where
  "redact_pem s =
     (case match_pem s of
        Some rest \<Rightarrow> ''[REDACTED_PEM]'' @ redact_pem rest
      | None \<Rightarrow> (case s of [] \<Rightarrow> [] | c # t \<Rightarrow> c # redact_pem t))"
  by pat_completeness auto
termination
  by (relation "measure length") (auto dest: match_pem_shorter)

declare redact_pem.simps [simp del]

subsection \<open>Secrets of a request\<close>

definition sensitiveParts :: "string list" where
  "sensitiveParts =
     [''secret'', ''token'', ''password'', ''passwd'', ''private'', ''cert'', ''key'', ''pem'', ''ca'']"

definition isSensitiveInstallKey :: "string \<Rightarrow> bool" where
  "isSensitiveInstallKey raw =
     (let key = to_lower (trim_space raw) in
      if key = [] then False else list_ex (\<lambda>part. sublist part key) sensitiveParts)"

definition looksSensitiveInstallValue :: "string \<Rightarrow> bool" where
  "looksSensitiveInstallValue raw =
     (let value = trim_space raw in
      if value = [] then False
      else if sublist ''-----BEGIN '' value then True
      else 32 \<le> length value
           \<and> list_all (\<lambda>c. c \<notin> set [CHR 0x20, CHR 0x09, CHR 0x0D, CHR 0x0A]) value)"

text \<open>
  The two loops share \<^verbatim>\<open>seen\<close> and \<^verbatim>\<open>out\<close>, so they are one loop over the entries of both maps.
\<close>

definition sensitive_entry :: "string \<times> string \<Rightarrow> bool" where
  "sensitive_entry e = (isSensitiveInstallKey (fst e) \<or> looksSensitiveInstallValue (snd e))"

definition collectInstallSecrets :: "install_request \<Rightarrow> string list" where
  "collectInstallSecrets req =
     sort_key (\<lambda>s. - int (length s))
       (collect_unique trim_space []
          (map snd (filter sensitive_entry (ir_env req @ ir_files req))))"

abbreviation redacted_mark :: string where "redacted_mark \<equiv> ''[REDACTED]''"

fun redact_secrets :: "string list \<Rightarrow> string \<Rightarrow> string" where
  "redact_secrets [] body = body"
| "redact_secrets (secret # secrets) body =
     redact_secrets secrets
       (if secret = [] then body else replace_all secret redacted_mark body)"

definition redactInstallText :: "string \<Rightarrow> install_request \<Rightarrow> string" where
  "redactInstallText raw req =
     (let body = trim_space raw in
      if body = [] then []
      else trim_space (redact_secrets (collectInstallSecrets req) (redact_pem body)))"

subsection \<open>The secrets that are collected\<close>

lemma set_collectInstallSecrets:
  "set (collectInstallSecrets req) =
     (\<lambda>e. trim_space (snd e)) ` {e \<in> set (ir_env req) \<union> set (ir_files req). sensitive_entry e} - {[]}"
  by (auto simp: collectInstallSecrets_def set_collect_unique image_iff)

text \<open>
  the secrets of a request are exactly the non-blank trimmed values whose key or value is
  sensitive, each listed once, the longest first, so that a secret that contains a shorter
  one is masked whole.
\<close>

theorem collectInstallSecrets_spec:
  "set (collectInstallSecrets req) =
     (\<lambda>e. trim_space (snd e)) ` {e \<in> set (ir_env req) \<union> set (ir_files req). sensitive_entry e} - {[]}
   \<and> distinct (collectInstallSecrets req)
   \<and> sorted (map (\<lambda>s. - int (length s)) (collectInstallSecrets req))"
  by (simp add: set_collectInstallSecrets)
    (simp add: collectInstallSecrets_def distinct_collect_unique)

subsection \<open>No secret survives\<close>

lemma sublist_around_char:
  "sublist x (a @ c # b) \<Longrightarrow> c \<notin> set x \<Longrightarrow> sublist x a \<or> sublist x b"
  by (auto simp: sublist_append sublist_Cons_right prefix_Cons intro: suffix_imp_sublist)

lemma prefix_replace_all_mark:
  "prefix x (replace_all old redacted_mark s) \<Longrightarrow> CHR ''['' \<notin> set x \<Longrightarrow> prefix x s"
proof (induction old redacted_mark s arbitrary: x rule: replace_all.induct)
  case (1 old s)
  show ?case
  proof (cases "old = [] \<or> s = []")
    case True
    with 1(3) show ?thesis by (auto simp: replace_all.simps [of old _ s])
  next
    case False
    show ?thesis
    proof (cases "prefix old s")
      case True
      with 1(3) False obtain r where "prefix x (CHR ''['' # r)"
        by (auto simp: replace_all.simps [of old _ s])
      with 1(4) have "x = []" by (cases x) auto
      then show ?thesis by simp
    next
      case np: False
      then obtain c t where s: "s = c # t" using False by (cases s) auto
      show ?thesis
      proof (cases x)
        case (Cons d y)
        with 1(3,4) False np s have "prefix y (replace_all old redacted_mark t)" "d = c" "CHR ''['' \<notin> set y"
          by (auto simp: replace_all_Cons)
        then show ?thesis using 1(2) False np s Cons by simp
      qed simp
    qed
  qed
qed

lemma sublist_replace_all_mark:
  assumes "sublist x (replace_all old redacted_mark s)"
    and "CHR ''['' \<notin> set x" "CHR '']'' \<notin> set x" "\<not> sublist x ''REDACTED''"
  shows "sublist x s \<and> x \<noteq> old"
  using assms
proof (induction old redacted_mark s rule: replace_all.induct)
  case (1 old s)
  have ne: "x \<noteq> []" using 1(6) by auto
  show ?case
  proof (cases "old = [] \<or> s = []")
    case True
    with 1(3) ne show ?thesis by (auto simp: replace_all.simps [of old _ s])
  next
    case False
    show ?thesis
    proof (cases "prefix old s")
      case True
      let ?rest = "replace_all old redacted_mark (drop (length old) s)"
      have "sublist x ([] @ CHR ''['' # ''REDACTED'' @ CHR '']'' # ?rest)"
        using 1(3) False True by (simp add: replace_all.simps [of old _ s])
      then have "sublist x (''REDACTED'' @ CHR '']'' # ?rest)"
        using sublist_around_char [OF _ 1(4)] ne by fastforce
      then have "sublist x ?rest"
        using sublist_around_char [OF _ 1(5)] 1(6) by blast
      then have "sublist x (drop (length old) s) \<and> x \<noteq> old"
        using 1(1) False True 1(4-6) by blast
      then show ?thesis
        using sublist_order.order.trans [OF _ suffix_imp_sublist [OF suffix_drop]] by blast
    next
      case np: False
      then obtain c t where s: "s = c # t" using False by (cases s) auto
      have "sublist x (c # replace_all old redacted_mark t)"
        using 1(3) False np s by (simp add: replace_all_Cons)
      then consider "prefix x (replace_all old redacted_mark s)" | "sublist x (replace_all old redacted_mark t)"
        using False np s by (auto simp: sublist_Cons_right replace_all_Cons)
      then show ?thesis
      proof cases
        case 1
        then have "prefix x s" using prefix_replace_all_mark assms(2) by blast
        with np show ?thesis by (auto intro: prefix_imp_sublist)
      next
        case 2
        then have "sublist x t \<and> x \<noteq> old" using 1(2) False np s 1(4-6) by simp
        with s show ?thesis by (auto simp: sublist_Cons_right)
      qed
    qed
  qed
qed

definition maskable :: "string \<Rightarrow> bool" where
  "maskable x \<longleftrightarrow> CHR ''['' \<notin> set x \<and> CHR '']'' \<notin> set x \<and> \<not> sublist x ''REDACTED''"

lemma redact_secrets_absent:
  "maskable x \<Longrightarrow> sublist x (redact_secrets secrets body) \<Longrightarrow> sublist x body \<and> x \<notin> set secrets"
proof (induction secrets arbitrary: body)
  case (Cons secret secrets)
  let ?t = "if secret = [] then body else replace_all secret redacted_mark body"
  from Cons.prems have "sublist x ?t \<and> x \<notin> set secrets" using Cons.IH [of ?t] by simp
  moreover have "x \<noteq> []" using Cons.prems(1) by (auto simp: maskable_def)
  ultimately show ?case
    using sublist_replace_all_mark [of x secret body] Cons.prems(1)
    by (auto simp: maskable_def split: if_splits)
qed simp

lemma sublist_trim_space: "sublist (trim_space s) s"
proof -
  have "suffix (trim_left s) s" by (simp add: trim_left_def suffix_strip_seqs)
  then show ?thesis
    unfolding trim_space_def
    by (metis prefix_imp_sublist prefix_trim_right sublist_order.order.trans suffix_imp_sublist)
qed

lemma redact_hides:
  assumes "secret \<in> set (collectInstallSecrets req)"
    and "maskable secret"
  shows "\<not> sublist secret (redactInstallText raw req)"
proof
  let ?t = "redact_secrets (collectInstallSecrets req) (redact_pem (trim_space raw))"
  assume s: "sublist secret (redactInstallText raw req)"
  have "secret \<noteq> []" using assms(2) by (auto simp: maskable_def)
  with s have "sublist secret (trim_space ?t)"
    by (auto simp: redactInstallText_def Let_def split: if_splits)
  then have "sublist secret ?t" using sublist_trim_space sublist_order.order.trans by blast
  then show False using redact_secrets_absent [OF assms(2)] assms(1) by blast
qed

lemma trim_space_hides: "\<not> sublist x s \<Longrightarrow> \<not> sublist x (trim_space s)"
  using sublist_trim_space sublist_order.order.trans by blast

text \<open>
  no secret of the request occurs in the redacted text.  The secret must not contain a
  bracket and must not be part of the word REDACTED itself, since the mask would show those
  characters again.
\<close>

theorem redactInstallText_hides:
  assumes "secret \<in> set (collectInstallSecrets req)"
    and "maskable secret"
  shows "\<not> sublist secret (redactInstallText raw req)"
  using redact_hides [OF assms] .

definition secret_request :: install_request where
  "secret_request =
     \<lparr>ir_api_version = [], ir_request_id = ''r1'', ir_module = ''ums'', ir_version = ''v1'',
      ir_artifact_url = [], ir_artifact_checksum = [], ir_app_host = [], ir_app_port = 1,
      ir_env = [(''API_TOKEN'', '' abc '')], ir_files = []\<rparr>"

theorem redactInstallText_hides_witness:
  "sublist ''abc'' ''put abc'' \<and> \<not> sublist ''abc'' (redactInstallText ''put abc'' secret_request)"
proof -
  have "sensitive_entry (''API_TOKEN'', '' abc '')" "trim_space '' abc '' = ''abc''" by code_simp+
  then have "''abc'' \<in> set (collectInstallSecrets secret_request)"
    by (simp add: set_collectInstallSecrets secret_request_def)
  moreover have "maskable ''abc''" by code_simp
  moreover have "sublist ''abc'' ''put abc''" by code_simp
  ultimately show ?thesis using redactInstallText_hides by blast
qed

end
