(* ===== verification/Audit_Trail.thy ===== *)
theory Audit_Trail
  imports Policy
begin

text \<open>
  The audit trail (\<^verbatim>\<open>internal/agent/install/audit.go\<close>): one JSON line per finished install,
  restart or uninstall, appended to the file the policy names.  The model keeps the lines
  that were written; whether an append succeeds is decided by the caller's environment.
\<close>

record audit_event =
  au_timestamp :: string
  au_action :: string
  au_request_id :: string
  au_module :: string
  au_version :: string
  au_runtime :: string
  au_artifact_url :: string
  au_artifact_checksum :: string
  au_status :: string
  au_ok :: bool
  au_error_text :: string

text \<open>
  A step that can fail (directory, open, write) has its error text, if any, in the first
  argument; callers ignore the result.
\<close>

definition appendAuditEvent ::
    "string option \<Rightarrow> string \<Rightarrow> policy \<Rightarrow> audit_event \<Rightarrow> audit_event list \<Rightarrow> string option \<times> audit_event list" where
  "appendAuditEvent failure now installPolicy event trail =
     (let path = trim_space (pol_audit_log_path (clonePolicy installPolicy)) in
      if path = [] then (None, trail)
      else
        let stamp = trim_space (au_timestamp event);
            event' = event\<lparr>au_timestamp := (if stamp = [] then now else stamp)\<rparr>
        in case failure of
             Some e \<Rightarrow> (Some e, trail)
           | None \<Rightarrow> (None, trail @ [event']))"

lemma appendAuditEvent_grows:
  "snd (appendAuditEvent f now p e trail) = trail
   \<or> (\<exists>t. snd (appendAuditEvent f now p e trail) = trail @ [e\<lparr>au_timestamp := t\<rparr>])"
  by (auto simp: appendAuditEvent_def Let_def split: option.splits)

end
