(* ===== verification/Rpc_Service.thy ===== *)
theory Rpc_Service
  imports Journal Redaction Audit_Trail
begin

text \<open>
  The installer's RPC handlers (\<^verbatim>\<open>internal/agent/install/rpc_service.go\<close>): install (unary and
  streamed), restart, uninstall and list, each whole, over the journal, the inventory, the
  audit trail and the commands and removals it performs.  What the operating system answers
  is the environment \<open>ext\<close>, one answer per call; the engine that does the install is a
  component of it too, and is modelled in theory Engine.
\<close>

subsection \<open>The agent and its environment\<close>

text \<open>A run of the install engine: what it logged, in order, and its result or error text.\<close>

record engine_run =
  er_logs :: "log_entry list"
  er_outcome :: "string + install_result"

text \<open>
  The answers of the environment, indexed by the number of calls made so far: clock and state
  file writes, a command's failure text, a removal's failure text, an audit append's failure
  text, a stream sender's failure text.
\<close>

record ext =
  ext_io :: "nat \<Rightarrow> io"
  ext_command :: "nat \<Rightarrow> string option"
  ext_remove :: "nat \<Rightarrow> string option"
  ext_audit :: "nat \<Rightarrow> string option"
  ext_send :: "nat \<Rightarrow> string option"
  ext_engine :: "nat \<Rightarrow> install_request \<Rightarrow> engine_run"

record agent =
  ag_journal :: journal
  ag_inventory :: inventory
  ag_policy :: policy
  ag_audit :: "audit_event list"
  ag_commands :: "string list list"
  ag_removed :: "string list"
  ag_tick :: nat

definition now_of :: "ext \<Rightarrow> agent \<Rightarrow> string" where
  "now_of ext ag = io_now (ext_io ext (ag_tick ag))"

definition tick :: "agent \<Rightarrow> agent" where
  "tick ag = ag\<lparr>ag_tick := Suc (ag_tick ag)\<rparr>"

definition onJournal :: "ext \<Rightarrow> (io \<Rightarrow> journal \<Rightarrow> 'a \<times> journal) \<Rightarrow> agent \<Rightarrow> 'a \<times> agent" where
  "onJournal ext f ag =
     (case f (ext_io ext (ag_tick ag)) (ag_journal ag) of
        (x, j) \<Rightarrow> (x, tick (ag\<lparr>ag_journal := j\<rparr>)))"

definition onInventory :: "ext \<Rightarrow> (io \<Rightarrow> inventory \<Rightarrow> 'a \<times> inventory) \<Rightarrow> agent \<Rightarrow> 'a \<times> agent" where
  "onInventory ext f ag =
     (case f (ext_io ext (ag_tick ag)) (ag_inventory ag) of
        (x, i) \<Rightarrow> (x, tick (ag\<lparr>ag_inventory := i\<rparr>)))"

definition audit :: "ext \<Rightarrow> audit_event \<Rightarrow> agent \<Rightarrow> agent" where
  "audit ext event ag =
     tick (ag\<lparr>ag_audit := snd (appendAuditEvent (ext_audit ext (ag_tick ag)) (now_of ext ag)
                              (ag_policy ag) event (ag_audit ag))\<rparr>)"

text \<open>
  \<^verbatim>\<open>execCommandRunner.Run\<close>, \<^verbatim>\<open>runSystemctl\<close> and \<^verbatim>\<open>runExec\<close> build the same text; the
  environment's answer is the trimmed output, or the error of \<^verbatim>\<open>exec\<close> when that is empty.
\<close>

definition runCommand :: "ext \<Rightarrow> string list \<Rightarrow> agent \<Rightarrow> string option \<times> agent" where
  "runCommand ext args ag =
     (map_option (\<lambda>out. join '' '' args @ '' failed: '' @ out) (ext_command ext (ag_tick ag)),
      tick (ag\<lparr>ag_commands := ag_commands ag @ [args]\<rparr>))"

definition runSystemctl :: "ext \<Rightarrow> string list \<Rightarrow> agent \<Rightarrow> string option \<times> agent" where
  "runSystemctl ext args = runCommand ext (''systemctl'' # args)"

definition checkSystemdServiceActive :: "ext \<Rightarrow> string \<Rightarrow> agent \<Rightarrow> string option \<times> agent" where
  "checkSystemdServiceActive ext serviceName ag =
     (if trim_space serviceName = [] then (Some ''service name is required for healthcheck'', ag)
      else runSystemctl ext [''is-active'', ''--quiet'', trim_space serviceName] ag)"

definition removePathIfExists :: "ext \<Rightarrow> string \<Rightarrow> agent \<Rightarrow> string option \<times> agent" where
  "removePathIfExists ext path ag =
     (if trim_space path = [] then (None, ag)
      else (map_option (\<lambda>e. ''remove '' @ trim_space path @ '' failed: '' @ e) (ext_remove ext (ag_tick ag)),
            tick (ag\<lparr>ag_removed := ag_removed ag @ [trim_space path]\<rparr>)))"

definition reloadNginx :: "ext \<Rightarrow> agent \<Rightarrow> string option \<times> agent" where
  "reloadNginx ext ag =
     (case runCommand ext [''nginx'', ''-t''] ag of
        (Some e, ag1) \<Rightarrow> (Some e, ag1)
      | (None, ag1) \<Rightarrow> runSystemctl ext [''reload'', ''nginx''] ag1)"

definition updateStage :: "ext \<Rightarrow> install_stage \<Rightarrow> op_handle \<Rightarrow> agent \<Rightarrow> op_handle \<times> agent" where
  "updateStage ext stage h = onJournal ext (\<lambda>io. UpdateStage io stage h)"

definition complete :: "ext \<Rightarrow> op_snapshot \<Rightarrow> op_handle \<Rightarrow> agent \<Rightarrow> agent" where
  "complete ext snap h ag = snd (onJournal ext (\<lambda>io. Complete io (Some snap) h) ag)"

definition failOp :: "ext \<Rightarrow> string \<Rightarrow> op_handle \<Rightarrow> agent \<Rightarrow> op_handle \<times> agent" where
  "failOp ext err h = onJournal ext (\<lambda>io. Fail io err h)"

subsection \<open>Results of failed and repeated requests\<close>

definition failedInstallResult :: "install_request \<Rightarrow> install_result" where
  "failedInstallResult req =
     \<lparr>is_api_version = InstallerRPCVersionV1, is_module = trim_space (ir_module req),
      is_version = trim_space (ir_version req), is_runtime = RuntimeLinuxSystemd,
      is_service_name = [], is_unit_path = [], is_binary_path = [], is_env_file_path = [],
      is_nginx_site_path = [], is_asset_paths = [], is_endpoint = [],
      is_status = InstallStatusFailed, is_health = ModuleHealthUnknown,
      is_manifest_schema_version = [],
      is_capabilities = normalizeArtifactCapabilities no_capabilities None\<rparr>"

definition failedServiceResult :: "string \<Rightarrow> string \<Rightarrow> string \<Rightarrow> service_result" where
  "failedServiceResult module serviceName runtime =
     \<lparr>sr_api_version = InstallerRPCVersionV1, sr_module = trim_space module, sr_runtime = runtime,
      sr_service_name = trim_space serviceName, sr_status = InstallStatusFailed,
      sr_health = ModuleHealthUnknown\<rparr>"

definition failedRestartResult :: "restart_request \<Rightarrow> string \<Rightarrow> service_result" where
  "failedRestartResult req runtime = failedServiceResult (rr_module req) (rr_service_name req) runtime"

definition failedUninstallResult :: "uninstall_request \<Rightarrow> string \<Rightarrow> service_result" where
  "failedUninstallResult req runtime = failedServiceResult (ur_module req) (ur_service_name req) runtime"

definition mkResponse :: "string \<Rightarrow> bool \<Rightarrow> 'r option \<Rightarrow> log_entry list \<Rightarrow> string \<Rightarrow> 'r response" where
  "mkResponse version ok result logs err =
     \<lparr>rsp_api_version = version, rsp_ok = ok, rsp_result = result, rsp_logs = logs, rsp_error_text = err\<rparr>"

definition replayInstallModuleResponse :: "install_request \<Rightarrow> op_record \<Rightarrow> install_result response" where
  "replayInstallModuleResponse req r =
     (let base = failedInstallResult req;
          result = (case or_result r of
              None \<Rightarrow> base
            | Some s \<Rightarrow>
                base\<lparr>is_version := trim_space (os_version s),
                     is_service_name := trim_space (os_service_name s),
                     is_endpoint := trim_space (os_endpoint s),
                     is_status := firstNonEmpty [trim_space (os_status s), is_status base],
                     is_health := firstNonEmpty [trim_space (os_health s), is_health base]\<rparr>)
      in if or_status r = operationStatusCompleted
         then mkResponse [] True (Some result) [] []
         else mkResponse [] False (Some result) [] (trim_space (or_error_text r)))"

definition replayServiceResponse :: "service_result \<Rightarrow> op_record \<Rightarrow> service_result response" where
  "replayServiceResponse base r =
     (let result = (case or_result r of
              None \<Rightarrow> base
            | Some s \<Rightarrow>
                base\<lparr>sr_service_name := firstNonEmpty [trim_space (os_service_name s), sr_service_name base],
                     sr_status := firstNonEmpty [trim_space (os_status s), sr_status base],
                     sr_health := firstNonEmpty [trim_space (os_health s), sr_health base]\<rparr>)
      in if or_status r = operationStatusCompleted
         then mkResponse [] True (Some result) [] []
         else mkResponse [] False (Some result) [] (trim_space (or_error_text r)))"

definition replayRestartModuleResponse :: "restart_request \<Rightarrow> op_record \<Rightarrow> service_result response" where
  "replayRestartModuleResponse req = replayServiceResponse (failedRestartResult req RuntimeLinuxSystemd)"

definition replayUninstallModuleResponse :: "uninstall_request \<Rightarrow> op_record \<Rightarrow> service_result response" where
  "replayUninstallModuleResponse req = replayServiceResponse (failedUninstallResult req RuntimeLinuxSystemd)"

subsection \<open>Install\<close>

definition install_event :: "install_request \<Rightarrow> string \<Rightarrow> string \<Rightarrow> string \<Rightarrow> string \<Rightarrow> bool \<Rightarrow> string \<Rightarrow> audit_event" where
  "install_event req module version runtime status ok err =
     \<lparr>au_timestamp = [], au_action = ''install'', au_request_id = trim_space (ir_request_id req),
      au_module = module, au_version = version, au_runtime = runtime,
      au_artifact_url = trim_space (ir_artifact_url req),
      au_artifact_checksum = trim_space (ir_artifact_checksum req),
      au_status = status, au_ok = ok, au_error_text = err\<rparr>"

definition installed_of :: "string \<Rightarrow> install_result \<Rightarrow> installed_record" where
  "installed_of now r =
     \<lparr>in_api_version = InstallerRPCVersionV1, in_module = is_module r, in_version = is_version r,
      in_runtime = is_runtime r, in_service_name = is_service_name r, in_unit_path = is_unit_path r,
      in_binary_path = is_binary_path r, in_env_file_path = is_env_file_path r,
      in_nginx_site_path = is_nginx_site_path r, in_asset_paths = is_asset_paths r,
      in_endpoint = is_endpoint r, in_status = is_status r, in_health = is_health r,
      in_observed_at = now, in_manifest_schema_version = is_manifest_schema_version r,
      in_capabilities = is_capabilities r\<rparr>"

definition snapshot_of :: "install_result \<Rightarrow> op_snapshot" where
  "snapshot_of r =
     \<lparr>os_version = is_version r, os_service_name = is_service_name r, os_endpoint = is_endpoint r,
      os_status = is_status r, os_health = is_health r\<rparr>"

text \<open>
  The engine's log callback runs while the engine works; it only touches the handler's own
  state, so the calls are folded over the engine's log in order.
\<close>

definition executeInstallModule ::
    "ext \<Rightarrow> install_request \<Rightarrow> (install_stage \<Rightarrow> string \<Rightarrow> 's \<times> agent \<Rightarrow> 's \<times> agent) \<Rightarrow> 's \<times> agent
       \<Rightarrow> (string + install_result) \<times> 's \<times> agent" where
  "executeInstallModule ext req onLog s0 =
     (let run = ext_engine ext (ag_tick (snd s0)) req;
          s1 = fold (\<lambda>e. onLog (le_stage e) (redactInstallText (le_message e) req))
                 (er_logs run) (fst s0, tick (snd s0))
      in case er_outcome run of
           Inl err \<Rightarrow>
             (let errorText = redactInstallText err req in
              (Inl errorText, fst s1,
               audit ext (install_event req (trim_space (ir_module req)) (trim_space (ir_version req))
                 RuntimeLinuxSystemd InstallStatusFailed False errorText) (snd s1)))
         | Inr result \<Rightarrow>
             (let ag2 = snd (onInventory ext
                    (\<lambda>io. upsertInstalledModule io (installed_of (now_of ext (snd s1)) result)) (snd s1))
              in (Inr result, fst s1,
                  audit ext (install_event req (is_module result) (is_version result) (is_runtime result)
                    (is_status result) True []) ag2)))"

definition logUnary ::
    "ext \<Rightarrow> install_stage \<Rightarrow> string \<Rightarrow> (op_handle \<times> log_entry list) \<times> agent
       \<Rightarrow> (op_handle \<times> log_entry list) \<times> agent" where
  "logUnary ext stage message s =
     (case s of ((h, logs), ag) \<Rightarrow>
        case updateStage ext stage h ag of
          (h', ag') \<Rightarrow> ((h', logs @ [\<lparr>le_stage = stage, le_message = trim_space message\<rparr>]), ag'))"

definition InstallModule ::
    "ext \<Rightarrow> install_request option \<Rightarrow> agent \<Rightarrow> install_result response \<times> agent" where
  "InstallModule ext reqOpt ag =
     (case reqOpt of
        None \<Rightarrow> (mkResponse InstallerRPCVersionV1 False None [] ''install request is required'', ag)
      | Some req0 \<Rightarrow>
          case validateInstallerAPIVersion (ir_api_version req0) of
            Inl e \<Rightarrow>
              (mkResponse InstallerRPCVersionV1 False
                 (Some (failedInstallResult (req0\<lparr>ir_api_version := []\<rparr>))) [] e, ag)
          | Inr version \<Rightarrow>
              (let req = req0\<lparr>ir_api_version := version\<rparr> in
               case onJournal ext (\<lambda>io. beginOperation io operationActionInstall (ir_module req) (ir_request_id req)) ag of
                 (Refused existing err, ag1) \<Rightarrow>
                   (mkResponse InstallerRPCVersionV1 False (Some (failedInstallResult req)) []
                      (journal_error_text err), ag1)
               | (Replayed r, ag1) \<Rightarrow> (replayInstallModuleResponse req r, ag1)
               | (Started h, ag1) \<Rightarrow>
                   (case executeInstallModule ext req (logUnary ext) ((h, []), ag1) of
                      (Inl err, (h2, logs), ag2) \<Rightarrow>
                        (mkResponse [] False (Some (failedInstallResult req)) logs
                           (redactInstallText err req),
                         snd (failOp ext err h2 ag2))
                    | (Inr result, (h2, logs), ag2) \<Rightarrow>
                        (mkResponse InstallerRPCVersionV1 True (Some result) logs [],
                         complete ext (snapshot_of result) h2 ag2))))"

subsection \<open>Streamed install\<close>

definition stream_of :: "string \<Rightarrow> string \<Rightarrow> install_stage \<Rightarrow> string \<Rightarrow> install_result option \<Rightarrow> string \<Rightarrow> stream_event" where
  "stream_of version kind stage message result err =
     \<lparr>ev_api_version = version, ev_type = kind, ev_stage = stage, ev_message = message,
      ev_result = result, ev_error_text = err\<rparr>"

text \<open>Every event handed to the sender, delivered or not, and the sender's error.\<close>

definition sendEvent :: "ext \<Rightarrow> stream_event \<Rightarrow> stream_event list \<times> agent \<Rightarrow> string option \<times> stream_event list \<times> agent" where
  "sendEvent ext e s = (ext_send ext (ag_tick (snd s)), fst s @ [e], tick (snd s))"

definition logStream ::
    "ext \<Rightarrow> install_stage \<Rightarrow> string \<Rightarrow> (op_handle \<times> stream_event list) \<times> agent
       \<Rightarrow> (op_handle \<times> stream_event list) \<times> agent" where
  "logStream ext stage message s =
     (case s of ((h, sent), ag) \<Rightarrow>
        case updateStage ext stage h ag of
          (h', ag1) \<Rightarrow>
            (case sendEvent ext (stream_of InstallerRPCVersionV1 ''log'' stage (trim_space message) None []) (sent, ag1) of
               (_, sent', ag2) \<Rightarrow> ((h', sent'), ag2)))"

text \<open>The first argument says whether the caller passed a sender (\<^verbatim>\<open>send == nil\<close>).\<close>

definition InstallModuleStream ::
    "bool \<Rightarrow> ext \<Rightarrow> install_request option \<Rightarrow> agent \<Rightarrow> string option \<times> stream_event list \<times> agent" where
  "InstallModuleStream hasSender ext reqOpt ag =
     (let v1 = InstallerRPCVersionV1 in
      case reqOpt of
        None \<Rightarrow> sendEvent ext (stream_of v1 ''error'' [] [] None ''install request is required'') ([], ag)
      | Some req0 \<Rightarrow>
          if \<not> hasSender then (Some ''install stream sender is required'', [], ag)
          else case validateInstallerAPIVersion (ir_api_version req0) of
            Inl e \<Rightarrow>
              sendEvent ext (stream_of v1 ''error'' [] []
                (Some (failedInstallResult (req0\<lparr>ir_api_version := []\<rparr>))) e) ([], ag)
          | Inr version \<Rightarrow>
              (let req = req0\<lparr>ir_api_version := version\<rparr> in
               case onJournal ext (\<lambda>io. beginOperation io operationActionInstall (ir_module req) (ir_request_id req)) ag of
                 (Refused existing err, ag1) \<Rightarrow>
                   sendEvent ext (stream_of v1 ''error'' [] [] (Some (failedInstallResult req))
                     (journal_error_text err)) ([], ag1)
               | (Replayed r, ag1) \<Rightarrow>
                   (let replayRes = replayInstallModuleResponse req r in
                    if rsp_ok replayRes
                    then sendEvent ext (stream_of v1 ''result'' [] ''operation replayed from journal''
                           (rsp_result replayRes) []) ([], ag1)
                    else sendEvent ext (stream_of v1 ''error'' [] [] (rsp_result replayRes)
                           (rsp_error_text replayRes)) ([], ag1))
               | (Started h, ag1) \<Rightarrow>
                   (case executeInstallModule ext req (logStream ext) ((h, []), ag1) of
                      (Inl err, (h2, sent), ag2) \<Rightarrow>
                        sendEvent ext (stream_of v1 ''error'' [] [] (Some (failedInstallResult req))
                          (redactInstallText err req)) (sent, snd (failOp ext err h2 ag2))
                    | (Inr result, (h2, sent), ag2) \<Rightarrow>
                        sendEvent ext (stream_of v1 ''result'' [] ''module install completed'' (Some result) [])
                          (sent, complete ext (snapshot_of result) h2 ag2))))"

subsection \<open>Restart\<close>

definition service_event :: "string \<Rightarrow> string \<Rightarrow> string \<Rightarrow> string \<Rightarrow> bool \<Rightarrow> string \<Rightarrow> audit_event" where
  "service_event action requestID module status ok err =
     \<lparr>au_timestamp = [], au_action = action, au_request_id = trim_space requestID,
      au_module = trim_space module, au_version = [], au_runtime = RuntimeLinuxSystemd,
      au_artifact_url = [], au_artifact_checksum = [], au_status = status, au_ok = ok,
      au_error_text = err\<rparr>"

abbreviation state_error_text :: "file_error \<Rightarrow> string" where
  "state_error_text \<equiv> file_error_text ''installed modules state''"

definition getRecord :: "ext \<Rightarrow> string \<Rightarrow> agent \<Rightarrow> (file_error + installed_record option) \<times> agent" where
  "getRecord ext module =
     onInventory ext (\<lambda>io inv. (getInstalledModule io (trim_space module) RuntimeLinuxSystemd inv, inv))"

text \<open>The record a restart writes: the old record's paths, but no version and no endpoint.\<close>

definition restartedRecord :: "string \<Rightarrow> restart_request \<Rightarrow> string \<Rightarrow> installed_record option \<Rightarrow> installed_record" where
  "restartedRecord now req serviceName record =
     \<lparr>in_api_version = InstallerRPCVersionV1, in_module = trim_space (rr_module req), in_version = [],
      in_runtime = RuntimeLinuxSystemd, in_service_name = serviceName,
      in_unit_path = (case record of Some r \<Rightarrow> in_unit_path r | None \<Rightarrow> []),
      in_binary_path = (case record of Some r \<Rightarrow> in_binary_path r | None \<Rightarrow> []),
      in_env_file_path = (case record of Some r \<Rightarrow> in_env_file_path r | None \<Rightarrow> []),
      in_nginx_site_path = (case record of Some r \<Rightarrow> in_nginx_site_path r | None \<Rightarrow> []),
      in_asset_paths = (case record of Some r \<Rightarrow> in_asset_paths r | None \<Rightarrow> []),
      in_endpoint = [], in_status = InstallStatusInstalled, in_health = ModuleHealthHealthy,
      in_observed_at = now,
      in_manifest_schema_version = (case record of Some r \<Rightarrow> in_manifest_schema_version r | None \<Rightarrow> []),
      in_capabilities = (case record of Some r \<Rightarrow> in_capabilities r
                         | None \<Rightarrow> normalizeArtifactCapabilities no_capabilities None)\<rparr>"

text \<open>\<^verbatim>\<open>handle.Fail(err)\<close>, the audit line and the failed response.\<close>

definition failService ::
    "ext \<Rightarrow> string \<Rightarrow> string \<Rightarrow> string \<Rightarrow> string \<Rightarrow> op_handle \<Rightarrow> agent \<Rightarrow> op_handle \<times> agent" where
  "failService ext action requestID module err h ag =
     (case failOp ext err h ag of
        (h', ag1) \<Rightarrow>
          (h', audit ext (service_event action requestID module InstallStatusFailed False (trim_space err)) ag1))"

definition restartStarted ::
    "ext \<Rightarrow> restart_request \<Rightarrow> op_handle \<Rightarrow> agent \<Rightarrow> service_result response \<times> agent" where
  "restartStarted ext req h ag =
     (let v1 = InstallerRPCVersionV1;
          failed = Some (failedRestartResult req RuntimeLinuxSystemd);
          serviceName = trim_space (rr_service_name req);
          giveUp = failService ext ''restart'' (rr_request_id req) (rr_module req)
      in case getRecord ext (rr_module req) ag of
        (Inl e, ag1) \<Rightarrow>
          (mkResponse v1 False failed [] (trim_space (state_error_text e)),
           snd (failOp ext (state_error_text e) h ag1))
      | (Inr record, ag1) \<Rightarrow>
          if record \<noteq> None \<and> \<not> cap_restart (in_capabilities (the record))
          then (let err = ''module restart is not allowed by installed artifact capabilities'' in
                (mkResponse v1 False failed [] err, snd (failOp ext err h ag1)))
          else if serviceName = []
          then (mkResponse v1 False failed [] ''service_name is required'',
                snd (giveUp ''service_name is required'' h ag1))
          else
            (let log1 = [\<lparr>le_stage = StageApply, le_message = ''restarting systemd service''\<rparr>] in
             case updateStage ext StageApply h ag1 of (h2, ag2) \<Rightarrow>
             case runSystemctl ext [''restart'', serviceName] ag2 of
               (Some err, ag3) \<Rightarrow>
                 (mkResponse v1 False failed
                    (log1 @ [\<lparr>le_stage = StageApply, le_message = trim_space err\<rparr>]) (trim_space err),
                  snd (giveUp err h2 ag3))
             | (None, ag3) \<Rightarrow>
                 (let log2 = log1 @ [\<lparr>le_stage = StageHealth, le_message = ''checking systemd service health''\<rparr>] in
                  case updateStage ext StageHealth h2 ag3 of (h3, ag4) \<Rightarrow>
                  case checkSystemdServiceActive ext serviceName ag4 of
                    (Some err, ag5) \<Rightarrow>
                      (mkResponse [] False failed
                         (log2 @ [\<lparr>le_stage = StageHealth, le_message = trim_space err\<rparr>]) (trim_space err),
                       snd (giveUp err h3 ag5))
                  | (None, ag5) \<Rightarrow>
                      (let result = \<lparr>sr_api_version = v1, sr_module = trim_space (rr_module req),
                             sr_runtime = RuntimeLinuxSystemd, sr_service_name = serviceName,
                             sr_status = ''restarted'', sr_health = ModuleHealthHealthy\<rparr>;
                           ag6 = snd (onInventory ext (\<lambda>io. upsertInstalledModule io
                                   (restartedRecord (now_of ext ag5) req serviceName record)) ag5);
                           ag7 = audit ext (service_event ''restart'' (rr_request_id req) (rr_module req)
                                   (sr_status result) True []) ag6;
                           ag8 = complete ext \<lparr>os_version = [], os_service_name = serviceName,
                                   os_endpoint = [], os_status = sr_status result,
                                   os_health = sr_health result\<rparr> h3 ag7
                       in (mkResponse v1 True (Some result)
                             (log2 @ [\<lparr>le_stage = StageCompleted, le_message = ''module restart completed''\<rparr>]) [],
                           ag8)))))"

definition RestartModule ::
    "ext \<Rightarrow> restart_request option \<Rightarrow> agent \<Rightarrow> service_result response \<times> agent" where
  "RestartModule ext reqOpt ag =
     (case reqOpt of
        None \<Rightarrow> (mkResponse InstallerRPCVersionV1 False None [] ''restart request is required'', ag)
      | Some req0 \<Rightarrow>
          case validateInstallerAPIVersion (rr_api_version req0) of
            Inl e \<Rightarrow>
              (mkResponse InstallerRPCVersionV1 False
                 (Some (failedRestartResult (req0\<lparr>rr_api_version := []\<rparr>) RuntimeLinuxSystemd)) [] e, ag)
          | Inr version \<Rightarrow>
              (let req = req0\<lparr>rr_api_version := version\<rparr> in
               case onJournal ext (\<lambda>io. beginOperation io operationActionRestart (rr_module req) (rr_request_id req)) ag of
                 (Refused existing err, ag1) \<Rightarrow>
                   (mkResponse InstallerRPCVersionV1 False
                      (Some (failedRestartResult req RuntimeLinuxSystemd)) [] (journal_error_text err), ag1)
               | (Replayed r, ag1) \<Rightarrow> (replayRestartModuleResponse req r, ag1)
               | (Started h, ag1) \<Rightarrow> restartStarted ext req h ag1))"

subsection \<open>Uninstall and list\<close>

fun remove_paths :: "ext \<Rightarrow> string list \<Rightarrow> agent \<Rightarrow> string option \<times> agent" where
  "remove_paths ext [] ag = (None, ag)"
| "remove_paths ext (path # paths) ag =
     (case removePathIfExists ext path ag of
        (Some e, ag') \<Rightarrow> (Some e, ag')
      | (None, ag') \<Rightarrow> remove_paths ext paths ag')"

text \<open>
  How an uninstall that has started gives up: \<open>ended\<close> says whether the code calls
  \<^verbatim>\<open>handle.Fail\<close> there.  It does after the unit file, \<^verbatim>\<open>daemon-reload\<close> and nginx, and does not
  in the two loops that remove the module's files, where the audit line also lacks the
  request id.
\<close>

definition uninstallFailed ::
    "bool \<Rightarrow> string \<Rightarrow> ext \<Rightarrow> uninstall_request \<Rightarrow> string \<Rightarrow> op_handle \<times> log_entry list \<Rightarrow> agent
       \<Rightarrow> service_result response \<times> agent" where
  "uninstallFailed ended version ext req err hl ag =
     (case (if ended then failOp ext err (fst hl) ag else (fst hl, ag)) of
        (h1, ag1) \<Rightarrow>
          (let ag2 = audit ext (service_event ''uninstall'' (if ended then ur_request_id req else [])
                       (ur_module req) InstallStatusFailed False (trim_space err)) ag1
           in case logUnary ext StageApply err ((h1, snd hl), ag2) of
                ((h3, logs), ag3) \<Rightarrow>
                  (mkResponse version False (Some (failedUninstallResult req RuntimeLinuxSystemd)) logs
                     (trim_space err), ag3)))"

definition uninstallDone ::
    "ext \<Rightarrow> uninstall_request \<Rightarrow> string \<Rightarrow> op_handle \<times> log_entry list \<Rightarrow> agent
       \<Rightarrow> service_result response \<times> agent" where
  "uninstallDone ext req serviceName hl ag =
     (let result = \<lparr>sr_api_version = InstallerRPCVersionV1, sr_module = trim_space (ur_module req),
            sr_runtime = RuntimeLinuxSystemd, sr_service_name = serviceName,
            sr_status = ''uninstalled'', sr_health = ModuleHealthUnknown\<rparr>;
          ag1 = snd (onInventory ext (\<lambda>io. removeInstalledModule io (trim_space (ur_module req))
                  RuntimeLinuxSystemd) ag);
          ag2 = audit ext (service_event ''uninstall'' (ur_request_id req) (ur_module req)
                  (sr_status result) True []) ag1;
          h_ag = onJournal ext (\<lambda>io. Complete io (Some \<lparr>os_version = [], os_service_name = serviceName,
                   os_endpoint = [], os_status = sr_status result, os_health = sr_health result\<rparr>) (fst hl)) ag2
      in case logUnary ext StageCompleted ''module uninstall completed'' ((fst h_ag, snd hl), snd h_ag) of
           ((h4, logs), ag4) \<Rightarrow> (mkResponse InstallerRPCVersionV1 True (Some result) logs [], ag4))"

text \<open>The module's files, then nginx: the part after the systemd unit is gone.\<close>

definition uninstallFiles ::
    "ext \<Rightarrow> uninstall_request \<Rightarrow> string \<Rightarrow> op_handle \<times> log_entry list \<Rightarrow> agent
       \<Rightarrow> service_result response \<times> agent" where
  "uninstallFiles ext req serviceName hl ag =
     (case remove_paths ext (filter (\<lambda>p. p \<noteq> [])
              [trim_space (ur_binary_path req), trim_space (ur_env_file_path req),
               trim_space (ur_nginx_site_path req)]) ag of
        (Some e, ag1) \<Rightarrow> uninstallFailed False InstallerRPCVersionV1 ext req e hl ag1
      | (None, ag1) \<Rightarrow>
          case remove_paths ext (ur_asset_paths req) ag1 of
            (Some e, ag2) \<Rightarrow> uninstallFailed False InstallerRPCVersionV1 ext req e hl ag2
          | (None, ag2) \<Rightarrow>
              if trim_space (ur_nginx_site_path req) = [] then uninstallDone ext req serviceName hl ag2
              else case logUnary ext StageApply ''reloading nginx'' (hl, ag2) of
                (hl3, ag3) \<Rightarrow>
                  (case reloadNginx ext ag3 of
                     (Some e, ag4) \<Rightarrow> uninstallFailed True InstallerRPCVersionV1 ext req e hl3 ag4
                   | (None, ag4) \<Rightarrow> uninstallDone ext req serviceName hl3 ag4))"

definition uninstallService ::
    "ext \<Rightarrow> uninstall_request \<Rightarrow> string \<Rightarrow> op_handle \<Rightarrow> agent \<Rightarrow> service_result response \<times> agent" where
  "uninstallService ext req serviceName h ag =
     (let unitPath = (if trim_space (ur_unit_path req) = []
                      then path_join [''/etc/systemd/system'', serviceName]
                      else trim_space (ur_unit_path req))
      in case logUnary ext StageApply ''stopping systemd service'' ((h, []), ag) of
        (hl1, ag1) \<Rightarrow>
          (let ag2 = snd (runSystemctl ext [''stop'', serviceName] ag1) in
           case logUnary ext StageApply ''disabling systemd service'' (hl1, ag2) of
             (hl3, ag3) \<Rightarrow>
               (let ag4 = snd (runSystemctl ext [''disable'', serviceName] ag3) in
                case removePathIfExists ext unitPath ag4 of
                  (Some e, ag5) \<Rightarrow> uninstallFailed True InstallerRPCVersionV1 ext req e hl3 ag5
                | (None, ag5) \<Rightarrow>
                    (case runSystemctl ext [''daemon-reload''] ag5 of
                       (Some e, ag6) \<Rightarrow> uninstallFailed True [] ext req e hl3 ag6
                     | (None, ag6) \<Rightarrow> uninstallFiles ext req serviceName hl3 ag6))))"

definition uninstallStarted ::
    "ext \<Rightarrow> uninstall_request \<Rightarrow> op_handle \<Rightarrow> agent \<Rightarrow> service_result response \<times> agent" where
  "uninstallStarted ext req h ag =
     (let v1 = InstallerRPCVersionV1;
          failed = Some (failedUninstallResult req RuntimeLinuxSystemd);
          serviceName = trim_space (ur_service_name req)
      in case getRecord ext (ur_module req) ag of
        (Inl e, ag1) \<Rightarrow>
          (mkResponse v1 False failed [] (trim_space (state_error_text e)),
           snd (failOp ext (state_error_text e) h ag1))
      | (Inr record, ag1) \<Rightarrow>
          if record \<noteq> None \<and> \<not> cap_uninstall (in_capabilities (the record))
          then (let err = ''module uninstall is not allowed by installed artifact capabilities'' in
                (mkResponse v1 False failed [] err, snd (failOp ext err h ag1)))
          else if serviceName = []
          then (mkResponse v1 False failed [] ''service_name is required'',
                snd (failService ext ''uninstall'' (ur_request_id req) (ur_module req)
                       ''service_name is required'' h ag1))
          else uninstallService ext req serviceName h ag1)"

definition UninstallModule ::
    "ext \<Rightarrow> uninstall_request option \<Rightarrow> agent \<Rightarrow> service_result response \<times> agent" where
  "UninstallModule ext reqOpt ag =
     (case reqOpt of
        None \<Rightarrow> (mkResponse InstallerRPCVersionV1 False None [] ''uninstall request is required'', ag)
      | Some req0 \<Rightarrow>
          case validateInstallerAPIVersion (ur_api_version req0) of
            Inl e \<Rightarrow>
              (mkResponse InstallerRPCVersionV1 False
                 (Some (failedUninstallResult (req0\<lparr>ur_api_version := []\<rparr>) RuntimeLinuxSystemd)) [] e, ag)
          | Inr version \<Rightarrow>
              (let req = req0\<lparr>ur_api_version := version\<rparr> in
               case onJournal ext (\<lambda>io. beginOperation io operationActionUninstall (ur_module req) (ur_request_id req)) ag of
                 (Refused existing err, ag1) \<Rightarrow>
                   (mkResponse InstallerRPCVersionV1 False
                      (Some (failedUninstallResult req RuntimeLinuxSystemd)) [] (journal_error_text err), ag1)
               | (Replayed r, ag1) \<Rightarrow> (replayUninstallModuleResponse req r, ag1)
               | (Started h, ag1) \<Rightarrow> uninstallStarted ext req h ag1))"

text \<open>The argument is the request's API version, if there is a request.\<close>

definition ListInstalledModules ::
    "ext \<Rightarrow> string option \<Rightarrow> agent \<Rightarrow> installed_record list response \<times> agent" where
  "ListInstalledModules ext version ag =
     (case validateInstallerAPIVersion (case version of None \<Rightarrow> [] | Some v \<Rightarrow> v) of
        Inl e \<Rightarrow> (mkResponse InstallerRPCVersionV1 False None [] e, ag)
      | Inr _ \<Rightarrow>
          case onInventory ext (\<lambda>io inv. (listInstalledModules io inv, inv)) ag of
            (Inl e, ag1) \<Rightarrow> (mkResponse InstallerRPCVersionV1 False None [] (trim_space (state_error_text e)), ag1)
          | (Inr items, ag1) \<Rightarrow> (mkResponse InstallerRPCVersionV1 True (Some items) [] [], ag1))"

subsection \<open>What each step leaves alone\<close>

lemma tick_simps [simp]:
  "ag_journal (tick ag) = ag_journal ag" "ag_inventory (tick ag) = ag_inventory ag"
  "ag_policy (tick ag) = ag_policy ag" "ag_audit (tick ag) = ag_audit ag"
  "ag_commands (tick ag) = ag_commands ag" "ag_removed (tick ag) = ag_removed ag"
  "ag_tick (tick ag) = Suc (ag_tick ag)"
  by (simp_all add: tick_def)

lemma onJournal_frame [simp]:
  "ag_inventory (snd (onJournal ext f ag)) = ag_inventory ag"
  "ag_policy (snd (onJournal ext f ag)) = ag_policy ag"
  "ag_audit (snd (onJournal ext f ag)) = ag_audit ag"
  "ag_commands (snd (onJournal ext f ag)) = ag_commands ag"
  "ag_removed (snd (onJournal ext f ag)) = ag_removed ag"
  "ag_tick (snd (onJournal ext f ag)) = Suc (ag_tick ag)"
  "ag_journal (snd (onJournal ext f ag)) = snd (f (ext_io ext (ag_tick ag)) (ag_journal ag))"
  "fst (onJournal ext f ag) = fst (f (ext_io ext (ag_tick ag)) (ag_journal ag))"
  by (simp_all add: onJournal_def split: prod.splits)

lemma onInventory_frame [simp]:
  "ag_journal (snd (onInventory ext f ag)) = ag_journal ag"
  "ag_policy (snd (onInventory ext f ag)) = ag_policy ag"
  "ag_audit (snd (onInventory ext f ag)) = ag_audit ag"
  "ag_commands (snd (onInventory ext f ag)) = ag_commands ag"
  "ag_removed (snd (onInventory ext f ag)) = ag_removed ag"
  "ag_tick (snd (onInventory ext f ag)) = Suc (ag_tick ag)"
  "ag_inventory (snd (onInventory ext f ag)) = snd (f (ext_io ext (ag_tick ag)) (ag_inventory ag))"
  "fst (onInventory ext f ag) = fst (f (ext_io ext (ag_tick ag)) (ag_inventory ag))"
  by (simp_all add: onInventory_def split: prod.splits)

lemma audit_frame [simp]:
  "ag_journal (audit ext e ag) = ag_journal ag" "ag_inventory (audit ext e ag) = ag_inventory ag"
  "ag_policy (audit ext e ag) = ag_policy ag" "ag_commands (audit ext e ag) = ag_commands ag"
  "ag_removed (audit ext e ag) = ag_removed ag" "ag_tick (audit ext e ag) = Suc (ag_tick ag)"
  by (simp_all add: audit_def)

lemma runCommand_frame [simp]:
  "ag_journal (snd (runCommand ext args ag)) = ag_journal ag"
  "ag_inventory (snd (runCommand ext args ag)) = ag_inventory ag"
  "ag_policy (snd (runCommand ext args ag)) = ag_policy ag"
  "ag_audit (snd (runCommand ext args ag)) = ag_audit ag"
  "ag_removed (snd (runCommand ext args ag)) = ag_removed ag"
  "ag_commands (snd (runCommand ext args ag)) = ag_commands ag @ [args]"
  "ag_tick (snd (runCommand ext args ag)) = Suc (ag_tick ag)"
  by (simp_all add: runCommand_def)

lemma checkSystemdServiceActive_frame [simp]:
  "ag_journal (snd (checkSystemdServiceActive ext s ag)) = ag_journal ag"
  "ag_inventory (snd (checkSystemdServiceActive ext s ag)) = ag_inventory ag"
  "ag_policy (snd (checkSystemdServiceActive ext s ag)) = ag_policy ag"
  "ag_audit (snd (checkSystemdServiceActive ext s ag)) = ag_audit ag"
  "ag_removed (snd (checkSystemdServiceActive ext s ag)) = ag_removed ag"
  by (simp_all add: checkSystemdServiceActive_def runSystemctl_def)

lemma removePathIfExists_frame [simp]:
  "ag_journal (snd (removePathIfExists ext p ag)) = ag_journal ag"
  "ag_inventory (snd (removePathIfExists ext p ag)) = ag_inventory ag"
  "ag_policy (snd (removePathIfExists ext p ag)) = ag_policy ag"
  "ag_audit (snd (removePathIfExists ext p ag)) = ag_audit ag"
  "ag_commands (snd (removePathIfExists ext p ag)) = ag_commands ag"
  by (simp_all add: removePathIfExists_def)

lemma remove_paths_frame [simp]:
  "ag_journal (snd (remove_paths ext ps ag)) = ag_journal ag"
  "ag_inventory (snd (remove_paths ext ps ag)) = ag_inventory ag"
  "ag_policy (snd (remove_paths ext ps ag)) = ag_policy ag"
  "ag_audit (snd (remove_paths ext ps ag)) = ag_audit ag"
  "ag_commands (snd (remove_paths ext ps ag)) = ag_commands ag"
  by (induction ext ps ag rule: remove_paths.induct)
    (auto split: prod.splits option.splits dest: arg_cong [of _ _ snd] simp: prod_eq_iff)

subsection \<open>A started operation and its lock\<close>

text \<open>
  What a handler knows of its handle while it works: module \<open>M\<close> and request \<open>R\<close> (both in
  normal form), in the handle and in whatever the journal file holds under that request.
\<close>

definition holds :: "string \<Rightarrow> string \<Rightarrow> op_handle \<Rightarrow> journal \<Rightarrow> bool" where
  "holds M R h j \<longleftrightarrow>
     oh_active h \<and> M \<noteq> [] \<and> normalizeModuleName M = M
   \<and> normalizeModuleName (or_module (oh_record h)) = M \<and> req_key (oh_record h) = R
   \<and> (\<forall>rs. read_items (jn_file j) = Inr rs \<longrightarrow>
        (\<forall>r \<in> set rs. req_key r = R \<longrightarrow> normalizeModuleName (or_module r) = M))
   \<and> (\<exists>l. jn_locks j M = Some l \<and> trim_space l = R)"

lemma or_module_normalize [simp]:
  "or_module (normalizeOperationRecord now r) = normalizeModuleName (or_module r)"
  by (simp add: normalizeOperationRecord_def Let_def)

lemma holds_begin:
  assumes "stable_name m" and "beginOperation io a m rid j = (Started h, j')"
  shows "holds (normalizeModuleName m) (trim_space rid) h j'"
proof -
  from assms(2) obtain records where mb: "may_begin io m rid records j"
    and c: "commitOperation io a (normalizeModuleName m) (trim_space rid) records j = (Started h, j')"
    by (auto simp: beginOperation_started)
  have MM: "normalizeModuleName (normalizeModuleName m) = normalizeModuleName m"
    using assms(1) by (simp add: stable_name_def)
  have "trim_space rid \<notin> req_key ` set records"
    using mb by (simp add: may_begin_def lookup_items_None)
  then have "r \<in> set records \<Longrightarrow> req_key r \<noteq> trim_space rid" for r by (metis image_eqI)
  with mb c MM show ?thesis
    by (auto simp: holds_def commitOperation_started may_begin_def req_key_def [of "newOperationRecord _ _ _ _"])
qed

lemma rewriteRecord_locks [simp]: "jn_locks (snd (rewriteRecord io change h j)) = jn_locks j"
  by (auto simp: rewriteRecord_def split: sum.splits option.splits)

lemma holds_rewrite:
  assumes h: "holds M R h j"
    and k: "\<And>r. or_module (change r) = or_module r" "\<And>r. req_key (change r) = req_key r"
  shows "holds M R (fst (rewriteRecord io change h j)) (snd (rewriteRecord io change h j))"
proof (cases "read_items (jn_file j)")
  case (Inl e)
  then show ?thesis using h by (simp add: rewriteRecord_def loadOperationRecords_def)
next
  case (Inr items)
  let ?rs = "map (normalizeOperationRecord (io_now io)) items"
  have MM: "normalizeModuleName M = M" and mods: "r \<in> set items \<Longrightarrow> req_key r = R \<Longrightarrow> normalizeModuleName (or_module r) = M" for r
    using h Inr by (auto simp: holds_def)
  have load: "loadOperationRecords io j = Inr ?rs" using Inr by (simp add: loadOperationRecords_def)
  show ?thesis
  proof (cases "lookup_items req_key (req_key (oh_record h)) ?rs")
    case None
    then show ?thesis using h load by (simp add: rewriteRecord_def)
  next
    case (Some r)
    then have r: "r \<in> set ?rs" "req_key r = R" using lookup_items_Some [OF Some] h by (auto simp: holds_def)
    let ?new = "update_first (\<lambda>r. req_key r = req_key (oh_record h)) change ?rs"
    let ?saved = "map (normalizeOperationRecord (io_now io)) ?new"
    have rm: "normalizeModuleName (or_module r) = M" using r mods MM by auto
    have nm: "normalizeModuleName (or_module x) = M" if "x \<in> set ?saved" "req_key x = R" for x
    proof -
      from that obtain y where y: "y \<in> set ?new" "x = normalizeOperationRecord (io_now io) y" by auto
      from set_update_first [OF y(1)] obtain z where "z \<in> set ?rs" "y = z \<or> y = change z" by auto
      with y(2) that(2) k mods MM show ?thesis by auto
    qed
    have rw: "rewriteRecord io change h j
        = (h\<lparr>oh_record := normalizeOperationRecord (io_now io) (change r)\<rparr>,
           snd (saveOperationRecords io ?new j))"
      using Some load by (simp add: rewriteRecord_def)
    have "normalizeModuleName (or_module x) = M"
      if "read_items (jn_file (snd (rewriteRecord io change h j))) = Inr xs" "x \<in> set xs" "req_key x = R" for xs x
      using write_items_set [of "io_write io" ?saved "jn_file j" xs] that nm mods Inr rw by auto
    then show ?thesis using h r(2) rm MM rw k by (auto simp: holds_def)
  qed
qed

lemma holds_stage:
  "holds M R h j \<Longrightarrow> holds M R (fst (UpdateStage io st h j)) (snd (UpdateStage io st h j))"
  by (simp add: UpdateStage_def holds_rewrite req_key_def)

lemma release_frees:
  assumes "holds M R h j"
  shows "jn_locks (snd (release h j)) = (jn_locks j)(M := None)" "\<not> oh_active (fst (release h j))"
proof -
  have "trim_space (or_request_id (oh_record h)) = R" using assms by (simp add: holds_def req_key_def)
  with assms show "jn_locks (snd (release h j)) = (jn_locks j)(M := None)"
    by (auto simp: fun_eq_iff release_def releaseModuleLock_locks holds_def)
  show "\<not> oh_active (fst (release h j))" by (simp add: release_def)
qed

lemma finish_frees:
  assumes "holds M R h j"
  shows "jn_locks (snd (Complete io res h j)) = (jn_locks j)(M := None)"
    and "jn_locks (snd (Fail io err h j)) = (jn_locks j)(M := None)"
    and "\<not> oh_active (fst (Fail io err h j))"
proof -
  have a: "oh_active h" using assms by (simp add: holds_def)
  note c = holds_rewrite [OF assms, of "completeRecord (io_now io) res" io]
    and f = holds_rewrite [OF assms, of "failRecord (io_now io) err" io]
  show "jn_locks (snd (Complete io res h j)) = (jn_locks j)(M := None)"
    using a release_frees(1) [OF c] by (simp add: Complete_def completeRecord_def req_key_def case_prod_beta)
  show "jn_locks (snd (Fail io err h j)) = (jn_locks j)(M := None)" "\<not> oh_active (fst (Fail io err h j))"
    using a release_frees [OF f] by (simp_all add: Fail_def failRecord_def req_key_def case_prod_beta)
qed

lemma updateStage_journal:
  "fst (updateStage ext st h ag) = fst (UpdateStage (ext_io ext (ag_tick ag)) st h (ag_journal ag))"
  "ag_journal (snd (updateStage ext st h ag))
     = snd (UpdateStage (ext_io ext (ag_tick ag)) st h (ag_journal ag))"
  by (simp_all add: updateStage_def)

lemma updateStage_frame [simp]:
  "ag_inventory (snd (updateStage ext st h ag)) = ag_inventory ag"
  "ag_policy (snd (updateStage ext st h ag)) = ag_policy ag"
  "ag_audit (snd (updateStage ext st h ag)) = ag_audit ag"
  "ag_commands (snd (updateStage ext st h ag)) = ag_commands ag"
  "ag_removed (snd (updateStage ext st h ag)) = ag_removed ag"
  by (simp_all add: updateStage_def)

lemma UpdateStage_locks [simp]: "jn_locks (snd (UpdateStage io st h j)) = jn_locks j"
  by (simp add: UpdateStage_def)

lemma logUnary_simps [simp]:
  "fst (fst (logUnary ext st msg s)) = fst (updateStage ext st (fst (fst s)) (snd s))"
  "snd (fst (logUnary ext st msg s)) = snd (fst s) @ [\<lparr>le_stage = st, le_message = trim_space msg\<rparr>]"
  "snd (logUnary ext st msg s) = snd (updateStage ext st (fst (fst s)) (snd s))"
  by (simp_all add: logUnary_def split: prod.splits)

lemma logStream_simps [simp]:
  "fst (fst (logStream ext st msg s)) = fst (updateStage ext st (fst (fst s)) (snd s))"
  "snd (logStream ext st msg s) = tick (snd (updateStage ext st (fst (fst s)) (snd s)))"
  by (simp_all add: logStream_def sendEvent_def split: prod.splits)

text \<open>
  What the two log callbacks share: they work on a handle and an agent through
  \<^verbatim>\<open>UpdateStage\<close> only.  The engine's run is followed once, for both handlers.
\<close>

locale stage_logger =
  fixes ext :: ext
    and onLog :: "install_stage \<Rightarrow> string \<Rightarrow> 's \<times> agent \<Rightarrow> 's \<times> agent"
    and handle :: "'s \<Rightarrow> op_handle"
  assumes log_handle: "handle (fst (onLog st msg s)) = fst (updateStage ext st (handle (fst s)) (snd s))"
    and log_journal: "ag_journal (snd (onLog st msg s)) = ag_journal (snd (updateStage ext st (handle (fst s)) (snd s)))"
    and log_inventory: "ag_inventory (snd (onLog st msg s)) = ag_inventory (snd s)"
    and log_audit: "ag_audit (snd (onLog st msg s)) = ag_audit (snd s)"
    and log_policy: "ag_policy (snd (onLog st msg s)) = ag_policy (snd s)"
begin

definition run :: "install_request \<Rightarrow> log_entry list \<Rightarrow> 's \<times> agent \<Rightarrow> 's \<times> agent" where
  "run req logs s = fold (\<lambda>e. onLog (le_stage e) (redactInstallText (le_message e) req)) logs s"

lemma run_frame:
  "ag_inventory (snd (run req logs s)) = ag_inventory (snd s)"
  "ag_audit (snd (run req logs s)) = ag_audit (snd s)"
  "ag_policy (snd (run req logs s)) = ag_policy (snd s)"
  "jn_locks (ag_journal (snd (run req logs s))) = jn_locks (ag_journal (snd s))"
  by (induction logs arbitrary: s)
    (simp_all add: run_def log_inventory log_audit log_policy log_journal updateStage_journal)

lemma run_holds:
  "holds M R (handle (fst s)) (ag_journal (snd s)) \<Longrightarrow>
   holds M R (handle (fst (run req logs s))) (ag_journal (snd (run req logs s)))"
proof (induction logs arbitrary: s)
  case (Cons e logs)
  then have "holds M R (handle (fst (onLog (le_stage e) (redactInstallText (le_message e) req) s)))
      (ag_journal (snd (onLog (le_stage e) (redactInstallText (le_message e) req) s)))"
    by (simp add: log_handle log_journal updateStage_journal holds_stage)
  from Cons.IH [OF this] show ?case by (simp add: run_def)
qed (simp add: run_def)

lemma execute_run:
  "executeInstallModule ext req onLog s0 =
     (let run = run req (er_logs (ext_engine ext (ag_tick (snd s0)) req)) (fst s0, tick (snd s0))
      in case er_outcome (ext_engine ext (ag_tick (snd s0)) req) of
           Inl err \<Rightarrow>
             (Inl (redactInstallText err req), fst run,
              audit ext (install_event req (trim_space (ir_module req)) (trim_space (ir_version req))
                RuntimeLinuxSystemd InstallStatusFailed False (redactInstallText err req)) (snd run))
         | Inr result \<Rightarrow>
             (Inr result, fst run,
              audit ext (install_event req (is_module result) (is_version result) (is_runtime result)
                (is_status result) True [])
               (snd (onInventory ext (\<lambda>io. upsertInstalledModule io
                  (installed_of (now_of ext (snd run)) result)) (snd run)))))"
  by (simp add: executeInstallModule_def run_def Let_def split: sum.splits)

lemma execute_holds:
  assumes "holds M R (handle (fst s0)) (ag_journal (snd s0))"
    and "executeInstallModule ext req onLog s0 = (res, st, ag)"
  shows "holds M R (handle st) (ag_journal ag)" "jn_locks (ag_journal ag) = jn_locks (ag_journal (snd s0))"
  using assms(2) run_holds [of M R "(fst s0, tick (snd s0))" req] assms(1)
  by (auto simp: execute_run Let_def run_frame split: sum.splits)

end

interpretation unary: stage_logger ext "logUnary ext" "fst :: op_handle \<times> log_entry list \<Rightarrow> op_handle" for ext
  by unfold_locales simp_all

interpretation stream: stage_logger ext "logStream ext" "fst :: op_handle \<times> stream_event list \<Rightarrow> op_handle" for ext
  by unfold_locales simp_all

subsection \<open>Repeated requests\<close>

definition same_state :: "agent \<Rightarrow> agent \<Rightarrow> bool" where
  "same_state ag ag' \<longleftrightarrow>
     ag_journal ag' = ag_journal ag \<and> ag_inventory ag' = ag_inventory ag
   \<and> ag_audit ag' = ag_audit ag \<and> ag_commands ag' = ag_commands ag
   \<and> ag_removed ag' = ag_removed ag"

definition knows :: "ext \<Rightarrow> agent \<Rightarrow> string \<Rightarrow> bool" where
  "knows ext ag rid \<longleftrightarrow>
     (\<exists>records r. loadOperationRecords (ext_io ext (ag_tick ag)) (ag_journal ag) = Inr records
        \<and> r \<in> set records \<and> req_key r = trim_space rid)"

lemma knows_begin:
  assumes "knows ext ag rid"
  shows "same_state ag (snd (onJournal ext (\<lambda>io. beginOperation io a m rid) ag))"
    and "fst (onJournal ext (\<lambda>io. beginOperation io a m rid) ag) \<noteq> Started h"
  using assms beginOperation_known_no_start by (auto simp: knows_def same_state_def)

lemma same_state_trans: "same_state ag ag1 \<Longrightarrow> ag2 = tick ag1 \<or> ag2 = ag1 \<Longrightarrow> same_state ag ag2"
  by (auto simp: same_state_def)

lemma same_state_refl: "same_state ag ag"
  by (simp add: same_state_def)

lemma sendEvent_agent [simp]: "snd (snd (sendEvent ext e s)) = tick (snd s)"
  by (simp add: sendEvent_def)

text \<open>
  C33: idempotence of the RPC interface.  A request whose id the journal knows runs no command,
  removes nothing, changes neither inventory, journal, locks nor audit trail and does not
  start the engine, in all four handlers.
\<close>

theorem known_request_no_effects:
  assumes "knows ext ag rid"
  shows "(ir_request_id ireq = rid \<longrightarrow> same_state ag (snd (InstallModule ext (Some ireq) ag))
           \<and> same_state ag (snd (snd (InstallModuleStream b ext (Some ireq) ag))))
    \<and> (rr_request_id rreq = rid \<longrightarrow> same_state ag (snd (RestartModule ext (Some rreq) ag)))
    \<and> (ur_request_id ureq = rid \<longrightarrow> same_state ag (snd (UninstallModule ext (Some ureq) ag)))"
proof -
  let ?b = "\<lambda>a m. onJournal ext (\<lambda>io. beginOperation io a m rid) ag"
  have s: "same_state ag (snd (?b a m))" "same_state ag (tick (snd (?b a m)))" for a m
    using knows_begin(1) [OF assms] by (auto intro: same_state_trans)
  have n: "fst (?b a m) \<noteq> Started h" for a m h by (rule knows_begin(2) [OF assms])
  have t: "same_state ag (tick ag)" by (simp add: same_state_def)
  have i: "same_state ag (snd (InstallModule ext (Some ireq) ag))" if "ir_request_id ireq = rid"
    using s [of operationActionInstall "ir_module ireq"] n [of operationActionInstall "ir_module ireq"] that
    by (cases "?b operationActionInstall (ir_module ireq)")
      (auto simp: InstallModule_def Let_def same_state_refl split: sum.splits begin_result.splits)
  have st: "same_state ag (snd (snd (InstallModuleStream b ext (Some ireq) ag)))" if "ir_request_id ireq = rid"
    using s [of operationActionInstall "ir_module ireq"] n [of operationActionInstall "ir_module ireq"] that t
    by (cases "?b operationActionInstall (ir_module ireq)")
      (auto simp: InstallModuleStream_def Let_def same_state_refl split: sum.splits begin_result.splits)
  have r: "same_state ag (snd (RestartModule ext (Some rreq) ag))" if "rr_request_id rreq = rid"
    using s [of operationActionRestart "rr_module rreq"] n [of operationActionRestart "rr_module rreq"] that
    by (cases "?b operationActionRestart (rr_module rreq)")
      (auto simp: RestartModule_def Let_def same_state_refl split: sum.splits begin_result.splits)
  have u: "same_state ag (snd (UninstallModule ext (Some ureq) ag))" if "ur_request_id ureq = rid"
    using s [of operationActionUninstall "ur_module ureq"] n [of operationActionUninstall "ur_module ureq"] that
    by (cases "?b operationActionUninstall (ur_module ureq)")
      (auto simp: UninstallModule_def Let_def same_state_refl split: sum.splits begin_result.splits)
  show ?thesis using i st r u by blast
qed

subsection \<open>Operations end and locks are released\<close>

lemma failOp_frees:
  assumes "holds M R h (ag_journal ag)"
  shows "jn_locks (ag_journal (snd (failOp ext err h ag))) = (jn_locks (ag_journal ag))(M := None)"
  using finish_frees(2) [OF assms] by (simp add: failOp_def)

lemma failService_frees:
  assumes "holds M R h (ag_journal ag)"
  shows "jn_locks (ag_journal (snd (failService ext a r m err h ag))) = (jn_locks (ag_journal ag))(M := None)"
  using failOp_frees [OF assms] by (simp add: failService_def case_prod_beta)

lemma complete_frees:
  assumes "holds M R h (ag_journal ag)"
  shows "jn_locks (ag_journal (complete ext snap h ag)) = (jn_locks (ag_journal ag))(M := None)"
  using finish_frees(1) [OF assms] by (simp add: complete_def)

lemma holds_updateStage:
  assumes "holds M R h (ag_journal ag)"
  shows "holds M R (fst (updateStage ext st h ag)) (ag_journal (snd (updateStage ext st h ag)))"
    and "jn_locks (ag_journal (snd (updateStage ext st h ag))) = jn_locks (ag_journal ag)"
  using holds_stage [OF assms] by (simp_all add: updateStage_journal)

lemma getRecord_frame [simp]: "ag_journal (snd (getRecord ext m ag)) = ag_journal ag"
  "ag_commands (snd (getRecord ext m ag)) = ag_commands ag"
  "ag_inventory (snd (getRecord ext m ag)) = ag_inventory ag"
  "ag_removed (snd (getRecord ext m ag)) = ag_removed ag"
  "ag_audit (snd (getRecord ext m ag)) = ag_audit ag"
  "ag_tick (snd (getRecord ext m ag)) = Suc (ag_tick ag)"
  by (simp_all add: getRecord_def)

lemma runSystemctl_frame [simp]:
  "ag_journal (snd (runSystemctl ext args ag)) = ag_journal ag"
  "ag_inventory (snd (runSystemctl ext args ag)) = ag_inventory ag"
  "ag_removed (snd (runSystemctl ext args ag)) = ag_removed ag"
  "ag_audit (snd (runSystemctl ext args ag)) = ag_audit ag"
  "ag_policy (snd (runSystemctl ext args ag)) = ag_policy ag"
  "ag_commands (snd (runSystemctl ext args ag)) = ag_commands ag @ [''systemctl'' # args]"
  by (simp_all add: runSystemctl_def)

lemma restartStarted_frees:
  assumes h: "holds M R h (ag_journal ag)"
  shows "jn_locks (ag_journal (snd (restartStarted ext req h ag))) = (jn_locks (ag_journal ag))(M := None)"
proof -
  have h1: "holds M R h (ag_journal (snd (getRecord ext (rr_module req) ag)))" using h by simp
  have f1: "jn_locks (ag_journal (snd (failOp ext err h (snd (getRecord ext (rr_module req) ag)))))
      = (jn_locks (ag_journal ag))(M := None)"
    "jn_locks (ag_journal (snd (failService ext a r m err h (snd (getRecord ext (rr_module req) ag)))))
      = (jn_locks (ag_journal ag))(M := None)" for err a r m
    using failOp_frees [OF h1] failService_frees [OF h1] by simp_all
  let ?u2 = "updateStage ext StageApply h (snd (getRecord ext (rr_module req) ag))"
  let ?a3 = "snd (runSystemctl ext [''restart'', trim_space (rr_service_name req)] (snd ?u2))"
  have h2: "holds M R (fst ?u2) (ag_journal ?a3)" and l2: "jn_locks (ag_journal ?a3) = jn_locks (ag_journal ag)"
    using holds_updateStage [OF h1] by simp_all
  have f2: "jn_locks (ag_journal (snd (failService ext a r m err (fst ?u2) ?a3)))
      = (jn_locks (ag_journal ag))(M := None)" for err a r m
    using failService_frees [OF h2] l2 by simp
  let ?u4 = "updateStage ext StageHealth (fst ?u2) ?a3"
  let ?a5 = "snd (checkSystemdServiceActive ext (trim_space (rr_service_name req)) (snd ?u4))"
  have h3: "holds M R (fst ?u4) (ag_journal ?a5)" and l3: "jn_locks (ag_journal ?a5) = jn_locks (ag_journal ag)"
    using holds_updateStage [OF h2] l2 by simp_all
  have f3: "jn_locks (ag_journal (snd (failService ext a r m err (fst ?u4) ?a5)))
      = (jn_locks (ag_journal ag))(M := None)" for err a r m
    using failService_frees [OF h3] l3 by simp
  have f4: "jn_locks (ag_journal (complete ext snap (fst ?u4) (audit ext e (snd (onInventory ext f ?a5)))))
      = (jn_locks (ag_journal ag))(M := None)" for snap e and f :: "io \<Rightarrow> inventory \<Rightarrow> 'z \<times> inventory"
    using complete_frees [of M R "fst ?u4" "audit ext e (snd (onInventory ext f ?a5))"] h3 l3 by simp
  show ?thesis
    by (simp add: restartStarted_def Let_def case_prod_beta f1 f2 f3 f4 split: sum.splits option.splits)
qed

lemma onJournal_result:
  "onJournal ext f ag = (x, ag1) \<Longrightarrow> f (ext_io ext (ag_tick ag)) (ag_journal ag) = (x, ag_journal ag1)"
  using onJournal_frame(7,8) [of ext f ag] by (simp add: prod_eq_iff)

lemma onJournal_state:
  "onJournal ext f ag = (x, ag1) \<Longrightarrow> ag_inventory ag1 = ag_inventory ag \<and> ag_tick ag1 = Suc (ag_tick ag)"
  using onJournal_frame(1,6) [of ext f ag] by simp

lemma begin_holds:
  assumes "stable_name m" and "onJournal ext (\<lambda>io. beginOperation io a m rid) ag = (Started h, ag1)"
  shows "holds (normalizeModuleName m) (trim_space rid) h (ag_journal ag1)"
    and "jn_locks (ag_journal ag1) = (jn_locks (ag_journal ag))(normalizeModuleName m \<mapsto> trim_space rid)"
proof -
  from assms(2) have b: "beginOperation (ext_io ext (ag_tick ag)) a m rid (ag_journal ag) = (Started h, ag_journal ag1)"
    by (rule onJournal_result)
  show "holds (normalizeModuleName m) (trim_space rid) h (ag_journal ag1)"
    by (rule holds_begin [OF assms(1) b])
  show "jn_locks (ag_journal ag1) = (jn_locks (ag_journal ag))(normalizeModuleName m \<mapsto> trim_space rid)"
  proof -
    from b obtain records where
      "commitOperation (ext_io ext (ag_tick ag)) a (normalizeModuleName m) (trim_space rid) records (ag_journal ag)
         = (Started h, ag_journal ag1)"
      unfolding beginOperation_started by blast
    then show ?thesis using assms(1) by (simp add: commitOperation_started stable_name_def)
  qed
qed

lemma unary_execute_holds:
  assumes "holds M R h (ag_journal ag)"
    and "executeInstallModule ext req (logUnary ext) ((h, []), ag) = (res, (h', logs), ag')"
  shows "holds M R h' (ag_journal ag')" "jn_locks (ag_journal ag') = jn_locks (ag_journal ag)"
  using unary.execute_holds [of M R "((h, []), ag)" ext req res "(h', logs)" ag'] assms by simp_all

lemma stream_execute_holds:
  assumes "holds M R h (ag_journal ag)"
    and "executeInstallModule ext req (logStream ext) ((h, []), ag) = (res, (h', sent), ag')"
  shows "holds M R h' (ag_journal ag')" "jn_locks (ag_journal ag') = jn_locks (ag_journal ag)"
  using stream.execute_holds [of M R "((h, []), ag)" ext req res "(h', sent)" ag'] assms by simp_all

lemma install_finish_frees:
  assumes "holds M R h (ag_journal ag)"
  shows "jn_locks (ag_journal (snd (case executeInstallModule ext req (logUnary ext) ((h, []), ag) of
           (Inl err, (h2, logs), ag2) \<Rightarrow>
             (mkResponse [] False (Some (failedInstallResult req)) logs (redactInstallText err req),
              snd (failOp ext err h2 ag2))
         | (Inr result, (h2, logs), ag2) \<Rightarrow>
             (mkResponse InstallerRPCVersionV1 True (Some result) logs [],
              complete ext (snapshot_of result) h2 ag2)))) = (jn_locks (ag_journal ag))(M := None)"
proof -
  obtain res h2 logs ag2 where e: "executeInstallModule ext req (logUnary ext) ((h, []), ag) = (res, (h2, logs), ag2)"
    by (metis surj_pair)
  note f = unary_execute_holds [OF assms e]
  show ?thesis
    by (cases res) (simp_all add: e failOp_frees [OF f(1)] complete_frees [OF f(1)] f(2))
qed

lemma stream_finish_frees:
  assumes "holds M R h (ag_journal ag)"
  shows "jn_locks (ag_journal (snd (snd (case executeInstallModule ext req (logStream ext) ((h, []), ag) of
           (Inl err, (h2, sent), ag2) \<Rightarrow>
             sendEvent ext (stream_of v ''error'' [] [] (Some (failedInstallResult req))
               (redactInstallText err req)) (sent, snd (failOp ext err h2 ag2))
         | (Inr result, (h2, sent), ag2) \<Rightarrow>
             sendEvent ext (stream_of v ''result'' [] ''module install completed'' (Some result) [])
               (sent, complete ext (snapshot_of result) h2 ag2))))) = (jn_locks (ag_journal ag))(M := None)"
proof -
  obtain res h2 sent ag2 where e: "executeInstallModule ext req (logStream ext) ((h, []), ag) = (res, (h2, sent), ag2)"
    by (metis surj_pair)
  note f = stream_execute_holds [OF assms e]
  show ?thesis
    by (cases res) (simp_all add: e failOp_frees [OF f(1)] complete_frees [OF f(1)] f(2))
qed

lemma begin_refused_locks:
  assumes "onJournal ext (\<lambda>io. beginOperation io a m rid) ag = (res, ag1)" and "\<And>h. res \<noteq> Started h"
  shows "jn_locks (ag_journal ag1) k = jn_locks (ag_journal ag) k \<or> jn_locks (ag_journal ag1) k = None"
proof -
  from assms(1) have "beginOperation (ext_io ext (ag_tick ag)) a m rid (ag_journal ag) = (res, ag_journal ag1)"
    by (rule onJournal_result)
  from beginOperation_refused_frees [OF this assms(2), of k] show ?thesis by auto
qed

text \<open>
  C30: an install (unary or streamed) or a restart leaves no module lock behind: whatever the
  commands, the engine and the file writes did, after the handler every lock is as it was
  before, or free.  The modules have stable names.
\<close>

theorem install_restart_release_locks:
  assumes "stable_name (ir_module ireq)" and "stable_name (rr_module rreq)"
  shows "(let after = jn_locks (ag_journal (snd (InstallModule ext (Some ireq) ag)));
              before = jn_locks (ag_journal ag)
          in after k = before k \<or> after k = None)
    \<and> (let after = jn_locks (ag_journal (snd (snd (InstallModuleStream b ext (Some ireq) ag))));
              before = jn_locks (ag_journal ag)
          in after k = before k \<or> after k = None)
    \<and> (let after = jn_locks (ag_journal (snd (RestartModule ext (Some rreq) ag)));
              before = jn_locks (ag_journal ag)
          in after k = before k \<or> after k = None)"
proof -
  let ?b = "\<lambda>a m rid. onJournal ext (\<lambda>io. beginOperation io a m rid) ag"
  have i: "jn_locks (ag_journal (snd (InstallModule ext (Some ireq) ag))) k \<in> {jn_locks (ag_journal ag) k, None}"
    and st: "jn_locks (ag_journal (snd (snd (InstallModuleStream b ext (Some ireq) ag)))) k
      \<in> {jn_locks (ag_journal ag) k, None}"
  proof -
    obtain res ag1 where p: "?b operationActionInstall (ir_module ireq) (ir_request_id ireq) = (res, ag1)"
      by (metis surj_pair)
    show "jn_locks (ag_journal (snd (InstallModule ext (Some ireq) ag))) k \<in> {jn_locks (ag_journal ag) k, None}"
      "jn_locks (ag_journal (snd (snd (InstallModuleStream b ext (Some ireq) ag)))) k
        \<in> {jn_locks (ag_journal ag) k, None}"
    proof (atomize (full), cases res)
      case (Started h)
      note g = begin_holds [OF assms(1) p [unfolded Started]]
      show "jn_locks (ag_journal (snd (InstallModule ext (Some ireq) ag))) k \<in> {jn_locks (ag_journal ag) k, None}
        \<and> jn_locks (ag_journal (snd (snd (InstallModuleStream b ext (Some ireq) ag)))) k
        \<in> {jn_locks (ag_journal ag) k, None}"
        using p Started install_finish_frees [OF g(1)] stream_finish_frees [OF g(1)] g(2)
        by (simp add: InstallModule_def InstallModuleStream_def Let_def sendEvent_def split: sum.splits)
    qed (use p begin_refused_locks [OF p, of k] in
        \<open>simp_all add: InstallModule_def InstallModuleStream_def Let_def sendEvent_def split: sum.splits\<close>)
  qed
  have r: "jn_locks (ag_journal (snd (RestartModule ext (Some rreq) ag))) k \<in> {jn_locks (ag_journal ag) k, None}"
  proof -
    obtain res ag1 where p: "?b operationActionRestart (rr_module rreq) (rr_request_id rreq) = (res, ag1)"
      by (metis surj_pair)
    show ?thesis
    proof (cases res)
      case (Started h)
      note g = begin_holds [OF assms(2) p [unfolded Started]]
      show ?thesis
        using p Started restartStarted_frees [OF g(1)] g(2)
        by (simp add: RestartModule_def Let_def split: sum.splits)
    qed (use p begin_refused_locks [OF p, of k] in \<open>simp_all add: RestartModule_def Let_def split: sum.splits\<close>)
  qed
  show ?thesis using i st r by (simp add: Let_def)
qed

subsection \<open>Exactly once, end to end\<close>

definition reliable :: "ext \<Rightarrow> bool" where
  "reliable ext \<longleftrightarrow> (\<forall>n. sound_io (ext_io ext n) \<and> io_write (ext_io ext n) = Write_ok)"

context stage_logger
begin

lemma run_tracked:
  assumes r: "\<And>n. sound_io (ext_io ext n)" and t: "tracked R (handle (fst s)) (ag_journal (snd s))"
  shows "tracked R (handle (fst (run req logs s))) (ag_journal (snd (run req logs s)))"
  using t
proof (induction logs arbitrary: s)
  case (Cons e logs)
  then have "tracked R (handle (fst (onLog (le_stage e) (redactInstallText (le_message e) req) s)))
      (ag_journal (snd (onLog (le_stage e) (redactInstallText (le_message e) req) s)))"
    using r by (simp add: log_handle log_journal updateStage_journal tracked_stage)
  from Cons.IH [OF this] show ?case by (simp add: run_def)
qed (simp add: run_def)

lemma execute_tracked:
  assumes "\<And>n. sound_io (ext_io ext n)" and "tracked R (handle (fst s0)) (ag_journal (snd s0))"
    and "executeInstallModule ext req onLog s0 = (res, st, ag)"
  shows "tracked R (handle st) (ag_journal ag)"
  using assms(3) run_tracked [of R "(fst s0, tick (snd s0))" req] assms(1,2)
  by (auto simp: execute_run Let_def split: sum.splits)

text \<open>The inventory is written once, at the last tick but one of a successful run.\<close>

lemma execute_inventory:
  assumes "executeInstallModule ext req onLog s0 = (Inr result, st, ag)"
  shows "ag_inventory ag = snd (upsertInstalledModule (ext_io ext (ag_tick ag - 2))
           (installed_of (io_now (ext_io ext (ag_tick ag - 2))) result) (ag_inventory (snd s0)))"
    and "2 \<le> ag_tick ag"
  using assms by (auto simp: execute_run Let_def run_frame now_of_def split: sum.splits)

end

lemma unary_install_started:
  assumes "onJournal ext (\<lambda>io. beginOperation io operationActionInstall (ir_module req) (ir_request_id req)) ag
             = (Started h, ag1)"
    and "InstallModule ext (Some req) ag = (rsp, ag')" and "rsp_ok rsp"
  obtains v result h2 logs ag2 where "validateInstallerAPIVersion (ir_api_version req) = Inr v"
    "executeInstallModule ext (req\<lparr>ir_api_version := v\<rparr>) (logUnary ext) ((h, []), ag1)
       = (Inr result, (h2, logs), ag2)"
    "rsp = mkResponse InstallerRPCVersionV1 True (Some result) logs []"
    "ag' = complete ext (snapshot_of result) h2 ag2"
proof (cases "validateInstallerAPIVersion (ir_api_version req)")
  case (Inl e)
  with assms show ?thesis by (auto simp: InstallModule_def mkResponse_def)
next
  case (Inr v)
  obtain res h2 logs ag2 where e: "executeInstallModule ext (req\<lparr>ir_api_version := v\<rparr>) (logUnary ext) ((h, []), ag1)
      = (res, (h2, logs), ag2)" by (metis surj_pair)
  from assms Inr e obtain result where "res = Inr result"
    by (cases res) (auto simp: InstallModule_def mkResponse_def Let_def)
  with assms Inr e that show ?thesis by (auto simp: InstallModule_def Let_def)
qed

text \<open>The answer to a repeated install that repeats what the first one answered.\<close>

definition repeats :: "install_result \<Rightarrow> install_result response \<Rightarrow> bool" where
  "repeats first rsp \<longleftrightarrow>
     rsp_ok rsp
   \<and> (\<exists>second. rsp_result rsp = Some second
        \<and> is_version second = trim_space (is_version first)
        \<and> is_service_name second = trim_space (is_service_name first)
        \<and> is_endpoint second = trim_space (is_endpoint first))"

lemma mkResponse_simps [simp]:
  "rsp_ok (mkResponse v ok r logs err) = ok" "rsp_logs (mkResponse v ok r logs err) = logs"
  "rsp_result (mkResponse v ok r logs err) = r" "rsp_error_text (mkResponse v ok r logs err) = err"
  "rsp_api_version (mkResponse v ok r logs err) = v"
  by (simp_all add: mkResponse_def)

lemma replay_repeats:
  "repeats result (replayInstallModuleResponse req (completeRecord now (Some (snapshot_of result)) r))"
  by (simp add: repeats_def replayInstallModuleResponse_def Let_def completeRecord_def
      normalizeOperationResultSnapshot_def snapshot_of_def)

text \<open>How a request is answered whose id the journal knows.\<close>

lemma install_known:
  assumes "canonical_journal (ag_journal ag) rs" and "r \<in> set rs" and "canonical_op r"
    and "or_request_id r = trim_space (ir_request_id req)" and "trim_space (ir_request_id req) \<noteq> []"
    and "normalizeModuleName (ir_module req) \<noteq> []"
    and "validateInstallerAPIVersion (ir_api_version req) = Inr v"
  shows "same_state ag (snd (InstallModule ext (Some req) ag))"
    and "fst (InstallModule ext (Some req) ag) =
      (if or_status r = operationStatusRunning
       then mkResponse InstallerRPCVersionV1 False
              (Some (failedInstallResult (req\<lparr>ir_api_version := v\<rparr>))) []
              (journal_error_text (AlreadyRunning (trim_space (ir_request_id req))))
       else replayInstallModuleResponse (req\<lparr>ir_api_version := v\<rparr>) r)"
proof -
  have l: "lookup_items req_key (trim_space (ir_request_id req)) rs = Some r"
    using lookup_canonical [OF assms(1,2)] assms(4) by simp
  have b: "onJournal ext (\<lambda>io. beginOperation io operationActionInstall (ir_module req) (ir_request_id req)) ag
      = (if or_status r = operationStatusRunning
         then Refused (Some r) (AlreadyRunning (trim_space (ir_request_id req))) else Replayed r,
         tick (ag\<lparr>ag_journal := ag_journal ag\<rparr>))"
    using beginOperation_known [OF assms(6,5) load_canonical [OF assms(1)] l, of "ext_io ext (ag_tick ag)"]
    by (simp add: onJournal_def canonical_op_fixed [OF assms(3)])
  show "same_state ag (snd (InstallModule ext (Some req) ag))"
    by (simp add: InstallModule_def assms(7) b same_state_def)
  show "fst (InstallModule ext (Some req) ag) =
      (if or_status r = operationStatusRunning
       then mkResponse InstallerRPCVersionV1 False
              (Some (failedInstallResult (req\<lparr>ir_api_version := v\<rparr>))) []
              (journal_error_text (AlreadyRunning (trim_space (ir_request_id req))))
       else replayInstallModuleResponse (req\<lparr>ir_api_version := v\<rparr>) r)"
    by (simp add: InstallModule_def assms(7) b)
qed

text \<open>
  C5: exactly once, when the journal's writes are durable (each happens or leaves the old
  records), the journal is one the agent wrote and the module name is stable.  After an
  install that reported success, a request with the same id, a module and a supported version
  has no effect, whatever its other fields are.  It is answered from the journal with the
  success and the version, service and endpoint of the first answer, if the write that
  completed the operation, the last of the first request, worked; the code drops the error of
  that write, and when it failed the repeat may also be refused because the operation still
  counts as running.
\<close>

theorem install_exactly_once:
  assumes "\<And>n. sound_io (ext_io ext n)" and "canonical_journal (ag_journal ag) rs"
    and "stable_name (ir_module req)"
    and "onJournal ext (\<lambda>io. beginOperation io operationActionInstall (ir_module req) (ir_request_id req)) ag
           = (Started h, ag1)"
    and "InstallModule ext (Some req) ag = (rsp, ag')" and "rsp_ok rsp"
    and "trim_space (ir_request_id again) = trim_space (ir_request_id req)"
    and "normalizeModuleName (ir_module again) \<noteq> []"
    and "validateInstallerAPIVersion (ir_api_version again) = Inr v"
  shows "\<exists>first. rsp_result rsp = Some first
    \<and> same_state ag' (snd (InstallModule ext (Some again) ag'))
    \<and> (let answer = fst (InstallModule ext (Some again) ag') in
       if io_write (ext_io ext (ag_tick ag' - 1)) = Write_ok then repeats first answer
       else repeats first answer
          \<or> rsp_error_text answer
              = ''operation '' @ trim_space (ir_request_id req) @ '' is already running'')"
proof -
  let ?R = "trim_space (ir_request_id req)"
  obtain w result h2 logs ag2 where
    e: "executeInstallModule ext (req\<lparr>ir_api_version := w\<rparr>) (logUnary ext) ((h, []), ag1) = (Inr result, (h2, logs), ag2)"
    and rsp: "rsp = mkResponse InstallerRPCVersionV1 True (Some result) logs []"
    and ag': "ag' = complete ext (snapshot_of result) h2 ag2"
    using unary_install_started [OF assms(4-6)] .
  note b = onJournal_result [OF assms(4)]
  have "tracked ?R h (ag_journal ag1)" by (rule tracked_begin [OF assms(2,1,3) b])
  then have t: "tracked ?R h2 (ag_journal ag2)"
    using unary.execute_tracked [OF assms(1) _ e, of ?R] by simp
  let ?io = "ext_io ext (ag_tick ag2)"
  have tk: "ag_tick ag' - 1 = ag_tick ag2"
    and j': "ag_journal ag' = snd (Complete ?io (Some (snapshot_of result)) h2 (ag_journal ag2))"
    by (simp_all add: ag' complete_def)
  obtain rs2 r where r: "canonical_journal (ag_journal ag') rs2" "r \<in> set rs2" "canonical_op r"
      "or_request_id r = ?R"
    and out: "io_write ?io \<noteq> Write_ok \<and> or_status r = operationStatusRunning
      \<or> (\<exists>r0. r = completeRecord (io_now ?io) (Some (snapshot_of result)) r0)"
    using complete_outcome [OF t assms(1)] unfolding j' by blast
  have ne: "?R \<noteq> []" using b by (auto simp: beginOperation_started may_begin_def)
  have id: "or_request_id r = trim_space (ir_request_id again)" "trim_space (ir_request_id again) \<noteq> []"
    using r(4) ne assms(7) by simp_all
  note k = install_known [OF r(1-3) id assms(8,9), of ext]
  from out show ?thesis
  proof (elim disjE exE)
    fix r0 assume "r = completeRecord (io_now ?io) (Some (snapshot_of result)) r0"
    moreover from this have "or_status r \<noteq> operationStatusRunning" by (simp add: completeRecord_def)
    ultimately show ?thesis using k rsp replay_repeats by simp
  next
    assume "io_write ?io \<noteq> Write_ok \<and> or_status r = operationStatusRunning"
    then show ?thesis using k rsp tk assms(7) by simp
  qed
qed

text \<open>
  C29: an install that started and reports success has put exactly its result into the inventory, under
  its module and runtime and with every other record kept, if the one write of the inventory,
  the third call before the end, worked.  The code drops the error of that write: when it
  failed, success was reported and the inventory is the old one or the new one, or, after a
  write that was cut short, empty or unreadable; when it could not be read, it stays as it is.
\<close>

theorem install_success_recorded:
  assumes "clock_reading (io_now (ext_io ext (ag_tick ag' - 3)))"
    and "onJournal ext (\<lambda>io. beginOperation io operationActionInstall (ir_module req) (ir_request_id req)) ag
           = (Started h, ag1)"
    and "InstallModule ext (Some req) ag = (rsp, ag')" and "rsp_ok rsp"
  shows "\<exists>result. rsp_result rsp = Some result
    \<and> (let io = ext_io ext (ag_tick ag' - 3); now = io_now io in
       inventory_outcome (io_write io)
         (\<lambda>M. M(installedModuleKey (is_module result) (is_runtime result)
                  \<mapsto> canonicalRecord now (installed_of now result)))
         now later (ag_inventory ag) (ag_inventory ag'))"
proof -
  obtain w result h2 logs ag2 where
    e: "executeInstallModule ext (req\<lparr>ir_api_version := w\<rparr>) (logUnary ext) ((h, []), ag1) = (Inr result, (h2, logs), ag2)"
    and rsp: "rsp = mkResponse InstallerRPCVersionV1 True (Some result) logs []"
    and ag': "ag' = complete ext (snapshot_of result) h2 ag2"
    using unary_install_started [OF assms(2-4)] .
  have inv1: "ag_inventory ag1 = ag_inventory ag" using onJournal_state [OF assms(2)] by simp
  have tk: "ag_tick ag' - 3 = ag_tick ag2 - 2" by (simp add: ag' complete_def)
  have "ag_inventory ag' = ag_inventory ag2" by (simp add: ag' complete_def)
  with unary.execute_inventory(1) [OF e] inv1 tk
  have up: "ag_inventory ag' = snd (upsertInstalledModule (ext_io ext (ag_tick ag' - 3))
      (installed_of (io_now (ext_io ext (ag_tick ag' - 3))) result) (ag_inventory ag))" by simp
  from upsert_outcome [OF assms(1), of "installed_of (io_now (ext_io ext (ag_tick ag' - 3))) result" later "ag_inventory ag"]
  show ?thesis by (simp add: up rsp Let_def record_key_def installed_of_def)
qed

subsection \<open>No secret leaves the agent\<close>



lemma audit_error_text:
  assumes "e \<in> set (ag_audit (audit ext ev ag))" and "e \<notin> set (ag_audit ag)"
  shows "au_error_text e = au_error_text ev"
  using assms appendAuditEvent_grows [of "ext_audit ext (ag_tick ag)" "now_of ext ag" "ag_policy ag" ev "ag_audit ag"]
  by (auto simp: audit_def)

context stage_logger
begin

text \<open>The error of a run is redacted, and the one audit line it adds carries that error or none.\<close>

lemma execute_errors:
  assumes "executeInstallModule ext req onLog s0 = (res, st, ag)"
  shows "res = Inl err \<Longrightarrow> \<exists>raw. err = redactInstallText raw req"
    and "e \<in> set (ag_audit ag) - set (ag_audit (snd s0)) \<Longrightarrow>
         au_error_text e = [] \<or> (\<exists>raw. au_error_text e = redactInstallText raw req)"
proof -
  show "\<exists>raw. err = redactInstallText raw req" if "res = Inl err"
    using assms that by (auto simp: execute_run Let_def split: sum.splits)
  show "au_error_text e = [] \<or> (\<exists>raw. au_error_text e = redactInstallText raw req)"
    if "e \<in> set (ag_audit ag) - set (ag_audit (snd s0))"
  proof (cases "er_outcome (ext_engine ext (ag_tick (snd s0)) req)")
    case (Inl raw)
    with assms obtain ag1 ev where "ag = audit ext ev ag1" "ag_audit ag1 = ag_audit (snd s0)"
      "au_error_text ev = redactInstallText raw req"
      by (auto simp: execute_run Let_def run_frame install_event_def)
    with that audit_error_text [of e ext ev ag1] show ?thesis by auto
  next
    case (Inr result)
    with assms obtain ag1 ev where "ag = audit ext ev ag1" "ag_audit ag1 = ag_audit (snd s0)"
      "au_error_text ev = []"
      by (auto simp: execute_run Let_def run_frame install_event_def)
    with that audit_error_text [of e ext ev ag1] show ?thesis by auto
  qed
qed

lemma execute_state:
  assumes "executeInstallModule ext req onLog s0 = (res, st, ag)"
  shows "st = fst (run req (er_logs (ext_engine ext (ag_tick (snd s0)) req)) (fst s0, tick (snd s0)))"
  using assms by (auto simp: execute_run Let_def split: sum.splits)

end


subsection \<open>Capabilities of the installed artifact\<close>

lemma failOp_frame [simp]:
  "ag_commands (snd (failOp ext err h ag)) = ag_commands ag"
  "ag_removed (snd (failOp ext err h ag)) = ag_removed ag"
  "ag_inventory (snd (failOp ext err h ag)) = ag_inventory ag"
  "ag_audit (snd (failOp ext err h ag)) = ag_audit ag"
  by (simp_all add: failOp_def)

text \<open>
  C34: an installed artifact that does not grant the capability is neither restarted nor
  uninstalled: the handler fails without running a command or removing a path, and the
  inventory stays as it is.  The artifact is the one recorded under the trimmed name of the request.
\<close>

theorem capabilities_respected:
  assumes "inventory_abs (io_now (ext_io ext (ag_tick ag))) (ag_inventory ag) = Some M"
    and "M (installedModuleKey (trim_space m) RuntimeLinuxSystemd) = Some r"
  shows "(rr_module rreq = m \<and> \<not> cap_restart (in_capabilities r) \<longrightarrow>
           \<not> rsp_ok (fst (restartStarted ext rreq h ag))
           \<and> ag_commands (snd (restartStarted ext rreq h ag)) = ag_commands ag
           \<and> ag_inventory (snd (restartStarted ext rreq h ag)) = ag_inventory ag)
    \<and> (ur_module ureq = m \<and> \<not> cap_uninstall (in_capabilities r) \<longrightarrow>
           \<not> rsp_ok (fst (uninstallStarted ext ureq h ag))
           \<and> ag_commands (snd (uninstallStarted ext ureq h ag)) = ag_commands ag
           \<and> ag_removed (snd (uninstallStarted ext ureq h ag)) = ag_removed ag
           \<and> ag_inventory (snd (uninstallStarted ext ureq h ag)) = ag_inventory ag)"
proof -
  have "fst (getRecord ext m ag) = Inr (Some r)"
    using assms by (simp add: getRecord_def get_refines)
  then obtain ag1 where g: "getRecord ext m ag = (Inr (Some r), ag1)" by (metis prod.collapse)
  have "ag_commands ag1 = ag_commands ag" "ag_removed ag1 = ag_removed ag" "ag_inventory ag1 = ag_inventory ag"
    using getRecord_frame [of ext m ag] g by simp_all
  then show ?thesis
    using g by (auto simp: restartStarted_def uninstallStarted_def Let_def)
qed

subsection \<open>What a restart writes\<close>

text \<open>
  a restart keeps the paths and capabilities of the inventory record and loses its version
  and its endpoint: the record it writes has both empty, whatever they were.
\<close>

theorem restart_loses_version:
  assumes "reliable ext" and "inventory_abs (io_now (ext_io ext (ag_tick ag))) (ag_inventory ag) = Some M"
    and "restartStarted ext req h ag = (rsp, ag')" and "rsp_ok rsp"
  shows "\<exists>r. (case inventory_abs later (ag_inventory ag') of
             None \<Rightarrow> None
           | Some M' \<Rightarrow> M' (installedModuleKey (rr_module req) RuntimeLinuxSystemd)) = Some r
     \<and> in_version r = [] \<and> in_endpoint r = [] \<and> in_status r = InstallStatusInstalled
     \<and> (\<forall>old. M (installedModuleKey (rr_module req) RuntimeLinuxSystemd) = Some old \<longrightarrow>
          in_binary_path r = trim_space (in_binary_path old)
          \<and> in_unit_path r = trim_space (in_unit_path old))"
proof -
  let ?key = "installedModuleKey (rr_module req) RuntimeLinuxSystemd"
  have key: "installedModuleKey (trim_space (rr_module req)) RuntimeLinuxSystemd = ?key"
    by (simp add: installedModuleKey_def)
  have io: "clock_reading (io_now (ext_io ext n))" "io_write (ext_io ext n) = Write_ok" for n
    using assms(1) by (simp_all add: reliable_def sound_io_def)
  obtain items where items: "read_items (ag_inventory ag) = Inr items"
    using assms(2) by (auto simp: inventory_abs_def split: sum.splits)
  let ?sn = "trim_space (rr_service_name req)"
  let ?ag1 = "snd (getRecord ext (rr_module req) ag)"
  have g: "fst (getRecord ext (rr_module req) ag) = Inr (M ?key)"
    using assms(2) key by (simp add: getRecord_def get_refines)
  have "\<exists>n. ag_inventory ag' = snd (upsertInstalledModule (ext_io ext n)
      (restartedRecord (io_now (ext_io ext n)) req ?sn (M ?key)) (ag_inventory ag))"
    using assms(3,4) g
    by (auto simp: restartStarted_def Let_def case_prod_beta now_of_def complete_def
        split: sum.splits option.splits if_splits)
  then obtain n where up: "ag_inventory ag' = snd (upsertInstalledModule (ext_io ext n)
      (restartedRecord (io_now (ext_io ext n)) req ?sn (M ?key)) (ag_inventory ag))" by blast
  let ?new = "restartedRecord (io_now (ext_io ext n)) req ?sn (M ?key)"
  let ?M = "items_map record_key (map (canonicalRecord (io_now (ext_io ext n))) items)"
  have "inventory_abs later (ag_inventory ag')
      = Some (?M(record_key ?new \<mapsto> canonicalRecord (io_now (ext_io ext n)) ?new))"
    unfolding up
    by (rule upsert_refines [OF _ io(1)])
      (use items io(2) in \<open>simp_all add: inventory_abs_def upsertInstalledModule_alt\<close>)
  moreover have "record_key ?new = ?key"
    by (simp add: record_key_def restartedRecord_def installedModuleKey_def)
  moreover have "normalizeInstalledModuleStatus InstallStatusInstalled = InstallStatusInstalled"
    by code_simp
  ultimately show ?thesis
    by (auto simp: canonicalRecord_def normalizeInstalledModuleRecord_def restartedRecord_def
        normalizeInstalledModuleStatus_idem api_version_fixed split: option.splits)
qed

subsection \<open>What an uninstall does\<close>

text \<open>The paths an uninstall removes after the unit file, in order.\<close>

definition uninstall_paths :: "uninstall_request \<Rightarrow> string list" where
  "uninstall_paths req =
     filter (\<lambda>p. p \<noteq> [])
       (map trim_space ([ur_binary_path req, ur_env_file_path req, ur_nginx_site_path req] @ ur_asset_paths req))"

definition uninstall_unit :: "uninstall_request \<Rightarrow> string" where
  "uninstall_unit req =
     (if trim_space (ur_unit_path req) = []
      then path_join [''/etc/systemd/system'', trim_space (ur_service_name req)]
      else trim_space (ur_unit_path req))"

lemma remove_paths_ok:
  "fst (remove_paths ext ps ag) = None \<Longrightarrow>
   ag_removed (snd (remove_paths ext ps ag)) = ag_removed ag @ filter (\<lambda>p. p \<noteq> []) (map trim_space ps)"
proof (induction ext ps ag rule: remove_paths.induct)
  case (2 ext path paths ag)
  obtain x ag' where p: "removePathIfExists ext path ag = (x, ag')" by (metis surj_pair)
  with 2(2) have "x = None" by (cases x) auto
  with 2 p have "ag_removed (snd (remove_paths ext paths ag')) = ag_removed ag' @ filter (\<lambda>p. p \<noteq> []) (map trim_space paths)"
    by simp
  moreover have "ag_removed ag' = ag_removed ag @ (if trim_space path = [] then [] else [trim_space path])"
    using p by (auto simp: removePathIfExists_def split: if_splits)
  ultimately show ?case using p \<open>x = None\<close> by simp
qed simp

lemma remove_paths_result:
  "remove_paths ext ps ag = (x, ag') \<Longrightarrow>
   ag_commands ag' = ag_commands ag \<and> ag_inventory ag' = ag_inventory ag \<and> ag_journal ag' = ag_journal ag
   \<and> (x = None \<longrightarrow> ag_removed ag' = ag_removed ag @ filter (\<lambda>p. p \<noteq> []) (map trim_space ps))"
  using remove_paths_frame [of ext ps ag] remove_paths_ok [of ext ps ag] by simp

lemma uninstallFailed_not_ok: "\<not> rsp_ok (fst (uninstallFailed ended v ext req e hl ag))"
  by (simp add: uninstallFailed_def Let_def case_prod_beta)

lemma uninstallDone_frame:
  "rsp_ok (fst (uninstallDone ext req sn hl ag))"
  "ag_commands (snd (uninstallDone ext req sn hl ag)) = ag_commands ag"
  "ag_removed (snd (uninstallDone ext req sn hl ag)) = ag_removed ag"
  "ag_inventory (snd (uninstallDone ext req sn hl ag)) =
     snd (removeInstalledModule (ext_io ext (ag_tick (snd (uninstallDone ext req sn hl ag)) - 4))
            (trim_space (ur_module req)) RuntimeLinuxSystemd (ag_inventory ag))"
  by (auto simp: uninstallDone_def Let_def case_prod_beta updateStage_def)

lemma reloadNginx_ok:
  "fst (reloadNginx ext ag) = None \<Longrightarrow>
   ag_commands (snd (reloadNginx ext ag)) = ag_commands ag @ [[''nginx'', ''-t''], [''systemctl'', ''reload'', ''nginx'']]
   \<and> ag_removed (snd (reloadNginx ext ag)) = ag_removed ag
   \<and> ag_inventory (snd (reloadNginx ext ag)) = ag_inventory ag"
  by (auto simp: reloadNginx_def runSystemctl_def runCommand_def split: option.splits prod.splits)

lemma uninstallFiles_ok:
  assumes "rsp_ok (fst (uninstallFiles ext req sn hl ag))"
  shows "ag_removed (snd (uninstallFiles ext req sn hl ag)) = ag_removed ag @ uninstall_paths req"
    and "ag_commands (snd (uninstallFiles ext req sn hl ag)) = ag_commands ag @
           (if trim_space (ur_nginx_site_path req) = [] then []
            else [[''nginx'', ''-t''], [''systemctl'', ''reload'', ''nginx'']])"
    and "ag_inventory (snd (uninstallFiles ext req sn hl ag)) =
       snd (removeInstalledModule (ext_io ext (ag_tick (snd (uninstallFiles ext req sn hl ag)) - 4))
              (trim_space (ur_module req)) RuntimeLinuxSystemd (ag_inventory ag))"
proof -
  let ?ps = "filter (\<lambda>p. p \<noteq> []) [trim_space (ur_binary_path req), trim_space (ur_env_file_path req),
      trim_space (ur_nginx_site_path req)]"
  obtain x ag1 where r1: "remove_paths ext ?ps ag = (x, ag1)" by (metis surj_pair)
  have x: "x = None"
    using assms r1 uninstallFailed_not_ok by (cases x) (auto simp: uninstallFiles_def)
  obtain y ag2 where r2: "remove_paths ext (ur_asset_paths req) ag1 = (y, ag2)" by (metis surj_pair)
  have y: "y = None"
    using assms r1 r2 x uninstallFailed_not_ok by (cases y) (auto simp: uninstallFiles_def)
  have rem: "ag_removed ag2 = ag_removed ag @ uninstall_paths req"
    using remove_paths_result [OF r1] remove_paths_result [OF r2] x y by (auto simp: uninstall_paths_def)
  have fr: "ag_commands ag2 = ag_commands ag" "ag_inventory ag2 = ag_inventory ag"
    using remove_paths_result [OF r1] remove_paths_result [OF r2] by simp_all
  have "ag_removed (snd (uninstallFiles ext req sn hl ag)) = ag_removed ag @ uninstall_paths req
    \<and> ag_commands (snd (uninstallFiles ext req sn hl ag)) = ag_commands ag @
           (if trim_space (ur_nginx_site_path req) = [] then []
            else [[''nginx'', ''-t''], [''systemctl'', ''reload'', ''nginx'']])
    \<and> ag_inventory (snd (uninstallFiles ext req sn hl ag)) =
       snd (removeInstalledModule (ext_io ext (ag_tick (snd (uninstallFiles ext req sn hl ag)) - 4))
              (trim_space (ur_module req)) RuntimeLinuxSystemd (ag_inventory ag))"
  proof (cases "trim_space (ur_nginx_site_path req) = []")
    case True
    then have "uninstallFiles ext req sn hl ag = uninstallDone ext req sn hl ag2"
      using r1 r2 x y by (simp add: uninstallFiles_def)
    then show ?thesis
      using True rem fr uninstallDone_frame(2-4) [of ext req sn hl ag2] by simp
  next
    case False
    obtain hl3 ag3 where l: "logUnary ext StageApply ''reloading nginx'' (hl, ag2) = (hl3, ag3)" by (metis surj_pair)
    have l3: "ag_commands ag3 = ag_commands ag2" "ag_removed ag3 = ag_removed ag2" "ag_inventory ag3 = ag_inventory ag2"
      using logUnary_simps(3) [of ext StageApply "''reloading nginx''" "(hl, ag2)"] l by simp_all
    obtain z ag4 where n: "reloadNginx ext ag3 = (z, ag4)" by (metis surj_pair)
    have z: "z = None"
      using assms r1 r2 x y l n False uninstallFailed_not_ok by (cases z) (auto simp: uninstallFiles_def)
    then have "uninstallFiles ext req sn hl ag = uninstallDone ext req sn hl3 ag4"
      using r1 r2 x y l n False by (simp add: uninstallFiles_def)
    then show ?thesis
      using False rem fr l3 z n reloadNginx_ok [of ext ag3] uninstallDone_frame(2-4) [of ext req sn hl3 ag4] by simp
  qed
  then show "ag_removed (snd (uninstallFiles ext req sn hl ag)) = ag_removed ag @ uninstall_paths req"
    and "ag_commands (snd (uninstallFiles ext req sn hl ag)) = ag_commands ag @
           (if trim_space (ur_nginx_site_path req) = [] then []
            else [[''nginx'', ''-t''], [''systemctl'', ''reload'', ''nginx'']])"
    and "ag_inventory (snd (uninstallFiles ext req sn hl ag)) =
       snd (removeInstalledModule (ext_io ext (ag_tick (snd (uninstallFiles ext req sn hl ag)) - 4))
              (trim_space (ur_module req)) RuntimeLinuxSystemd (ag_inventory ag))"
    by blast+
qed

text \<open>A successful uninstall comes through the unit file and the reload of systemd to its files.\<close>

lemma uninstallService_ok:
  assumes "uninstallService ext req sn h ag = (rsp, ag')" and "rsp_ok rsp"
    and "sn = trim_space (ur_service_name req)"
  shows "\<exists>hl ag6. uninstallFiles ext req sn hl ag6 = (rsp, ag')
    \<and> ag_commands ag6 = ag_commands ag
        @ [[''systemctl'', ''stop'', sn], [''systemctl'', ''disable'', sn], [''systemctl'', ''daemon-reload'']]
    \<and> ag_removed ag6 = ag_removed ag @ filter (\<lambda>p. p \<noteq> []) [trim_space (uninstall_unit req)]
    \<and> ag_inventory ag6 = ag_inventory ag"
proof -
  obtain hl1 ag1 where l1: "logUnary ext StageApply ''stopping systemd service'' ((h, []), ag) = (hl1, ag1)"
    by (metis surj_pair)
  let ?ag2 = "snd (runSystemctl ext [''stop'', sn] ag1)"
  obtain hl3 ag3 where l3: "logUnary ext StageApply ''disabling systemd service'' (hl1, ?ag2) = (hl3, ag3)"
    by (metis surj_pair)
  let ?ag4 = "snd (runSystemctl ext [''disable'', sn] ag3)"
  have c1: "ag_commands ag1 = ag_commands ag" "ag_removed ag1 = ag_removed ag" "ag_inventory ag1 = ag_inventory ag"
    using logUnary_simps(3) [of ext StageApply "''stopping systemd service''" "((h, []), ag)"] l1 by simp_all
  have c3: "ag_commands ag3 = ag_commands ?ag2" "ag_removed ag3 = ag_removed ?ag2" "ag_inventory ag3 = ag_inventory ?ag2"
    using logUnary_simps(3) [of ext StageApply "''disabling systemd service''" "(hl1, ?ag2)"] l3 by simp_all
  obtain x ag5 where u: "removePathIfExists ext (uninstall_unit req) ?ag4 = (x, ag5)" by (metis surj_pair)
  have ser: "uninstallService ext req sn h ag = (case x of
        Some e \<Rightarrow> uninstallFailed True InstallerRPCVersionV1 ext req e hl3 ag5
      | None \<Rightarrow> (case runSystemctl ext [''daemon-reload''] ag5 of
                (Some e, ag6) \<Rightarrow> uninstallFailed True [] ext req e hl3 ag6
              | (None, ag6) \<Rightarrow> uninstallFiles ext req sn hl3 ag6))"
    using l1 l3 u unfolding uninstallService_def Let_def uninstall_unit_def assms(3) [symmetric]
    by (simp split: option.splits)
  have x: "x = None"
  proof (rule ccontr)
    assume "x \<noteq> None"
    then obtain e where "x = Some e" by blast
    with ser assms(1) have "uninstallFailed True InstallerRPCVersionV1 ext req e hl3 ag5 = (rsp, ag')" by simp
    with uninstallFailed_not_ok [of True InstallerRPCVersionV1 ext req e hl3 ag5] assms(2) show False by simp
  qed
  obtain y ag6 where d: "runSystemctl ext [''daemon-reload''] ag5 = (y, ag6)" by (metis surj_pair)
  have "y = None"
  proof (rule ccontr)
    assume "y \<noteq> None"
    then obtain e where "y = Some e" by blast
    with ser x d assms(1) have "uninstallFailed True [] ext req e hl3 ag6 = (rsp, ag')" by simp
    with uninstallFailed_not_ok [of True "[]" ext req e hl3 ag6] assms(2) show False by simp
  qed
  with ser x d assms(1) have f: "uninstallFiles ext req sn hl3 ag6 = (rsp, ag')" by simp
  have c5: "ag_commands ag5 = ag_commands ?ag4" "ag_inventory ag5 = ag_inventory ?ag4"
    "ag_removed ag5 = ag_removed ?ag4 @ filter (\<lambda>p. p \<noteq> []) [trim_space (uninstall_unit req)]"
    using u by (auto simp: removePathIfExists_def split: if_splits)
  have c6: "ag_commands ag6 = ag_commands ag5 @ [[''systemctl'', ''daemon-reload'']]"
    "ag_inventory ag6 = ag_inventory ag5" "ag_removed ag6 = ag_removed ag5"
    using runSystemctl_frame [of ext "[''daemon-reload'']" ag5] d by simp_all
  have "ag_commands ag6 = ag_commands ag
      @ [[''systemctl'', ''stop'', sn], [''systemctl'', ''disable'', sn], [''systemctl'', ''daemon-reload'']]"
    and "ag_removed ag6 = ag_removed ag @ filter (\<lambda>p. p \<noteq> []) [trim_space (uninstall_unit req)]"
    and "ag_inventory ag6 = ag_inventory ag"
    using c1 c3 c5 c6 by simp_all
  with f show ?thesis by blast
qed

text \<open>
  C31: an uninstall reports success only after it ran the commands that stop and disable the
  service (whose failures it ignores), removed the unit file and every file of the request,
  each once and in the order of the code, and reloaded systemd (and nginx when a site was
  removed).  The module's record is gone from the inventory and every other record kept, if
  the one write of the inventory, the fourth call before the end, worked.  The code drops the
  error of that write: when it failed, success is reported and the inventory is the old one,
  record included, or the new one, or, after a write that was cut short, empty or unreadable;
  when it could not be read, it stays as it is.
\<close>

theorem uninstall_success_trace:
  assumes "uninstallService ext req sn h ag = (rsp, ag')" and "rsp_ok rsp"
    and "sn = trim_space (ur_service_name req)"
    and "clock_reading (io_now (ext_io ext (ag_tick ag' - 4)))"
  shows "ag_removed ag' = ag_removed ag @ filter (\<lambda>p. p \<noteq> []) [trim_space (uninstall_unit req)] @ uninstall_paths req
    \<and> ag_commands ag' = ag_commands ag
        @ [[''systemctl'', ''stop'', sn], [''systemctl'', ''disable'', sn], [''systemctl'', ''daemon-reload'']]
        @ (if trim_space (ur_nginx_site_path req) = [] then []
           else [[''nginx'', ''-t''], [''systemctl'', ''reload'', ''nginx'']])
    \<and> (let io = ext_io ext (ag_tick ag' - 4) in
       inventory_outcome (io_write io)
         (\<lambda>M. M(installedModuleKey (trim_space (ur_module req)) RuntimeLinuxSystemd := None))
         (io_now io) later (ag_inventory ag) (ag_inventory ag'))"
proof -
  obtain hl ag6 where f: "uninstallFiles ext req sn hl ag6 = (rsp, ag')"
    and c: "ag_commands ag6 = ag_commands ag
        @ [[''systemctl'', ''stop'', sn], [''systemctl'', ''disable'', sn], [''systemctl'', ''daemon-reload'']]"
    and r: "ag_removed ag6 = ag_removed ag @ filter (\<lambda>p. p \<noteq> []) [trim_space (uninstall_unit req)]"
    and i: "ag_inventory ag6 = ag_inventory ag"
    using uninstallService_ok [OF assms(1-3)] by blast
  have "ag_inventory ag' = snd (removeInstalledModule (ext_io ext (ag_tick ag' - 4))
      (trim_space (ur_module req)) RuntimeLinuxSystemd (ag_inventory ag))"
    using uninstallFiles_ok(3) [of ext req sn hl ag6] f assms(2) i by simp
  with remove_outcome [OF assms(4), of "trim_space (ur_module req)" RuntimeLinuxSystemd later "ag_inventory ag"]
  show ?thesis
    using uninstallFiles_ok(1,2) [of ext req sn hl ag6] f assms(2) c r by (simp add: Let_def)
qed







subsection \<open>The hypotheses can hold\<close>

definition sample_result :: install_result where
  "sample_result =
     \<lparr>is_api_version = InstallerRPCVersionV1, is_module = ''ums'', is_version = ''1.2.0'',
      is_runtime = RuntimeLinuxSystemd, is_service_name = ''aurora-ums.service'', is_unit_path = [],
      is_binary_path = ''/usr/bin/ums'', is_env_file_path = [], is_nginx_site_path = [],
      is_asset_paths = [], is_endpoint = ''https://h'', is_status = InstallStatusInstalled,
      is_health = ModuleHealthHealthy, is_manifest_schema_version = [],
      is_capabilities = no_capabilities\<rparr>"

definition sample_ext :: "string option \<Rightarrow> ext" where
  "sample_ext removal =
     \<lparr>ext_io = (\<lambda>_. sample_io Write_ok), ext_command = (\<lambda>_. None), ext_remove = (\<lambda>_. removal),
      ext_audit = (\<lambda>_. None), ext_send = (\<lambda>_. None),
      ext_engine = (\<lambda>_ _. \<lparr>er_logs = [\<lparr>le_stage = StageApply, le_message = ''put abc''\<rparr>],
                           er_outcome = Inr sample_result\<rparr>)\<rparr>"

definition sample_agent :: "journal \<Rightarrow> inventory \<Rightarrow> agent" where
  "sample_agent j store =
     \<lparr>ag_journal = j, ag_inventory = store, ag_policy = defaultPolicy, ag_audit = [],
      ag_commands = [], ag_removed = [], ag_tick = 0\<rparr>"

lemma sample_agent_simps [simp]:
  "ag_journal (sample_agent j store) = j" "ag_inventory (sample_agent j store) = store"
  "ag_tick (sample_agent j store) = 0"
  by (simp_all add: sample_agent_def)

definition sample_request :: install_request where
  "sample_request = secret_request\<lparr>ir_module := ''UMS''\<rparr>"

lemma sample_request_simps [simp]:
  "ir_module sample_request = ''UMS''" "ir_request_id sample_request = ''r1''" "ir_api_version sample_request = []"
  by (simp_all add: sample_request_def secret_request_def)

lemma sample_reliable: "reliable (sample_ext x)"
  using sample_sound by (simp add: reliable_def sample_ext_def) (simp add: sample_io_def)

lemma sample_version: "validateInstallerAPIVersion [] = Inr InstallerRPCVersionV1"
  by (simp add: validateInstallerAPIVersion_def normalizeInstallerAPIVersion_def api_version_fixed)

lemma sample_commands_succeed:
  "fst (runSystemctl (sample_ext x) args ag) = None"
  "s \<noteq> [] \<Longrightarrow> trim_space s = s \<Longrightarrow> fst (checkSystemdServiceActive (sample_ext x) s ag) = None"
  by (simp_all add: runSystemctl_def runCommand_def checkSystemdServiceActive_def sample_ext_def)

text \<open>An environment whose write number \<open>n\<close> does not happen.\<close>

definition failing_ext :: "nat \<Rightarrow> ext" where
  "failing_ext n =
     (sample_ext None)\<lparr>ext_io := (\<lambda>i. sample_io (if i = n then Open_fails ''ENOSPC'' else Write_ok))\<rparr>"

definition installs :: "ext \<Rightarrow> bool" where
  "installs ext \<longleftrightarrow>
     ext_io ext 0 = sample_io Write_ok \<and> ext_engine ext = ext_engine (sample_ext None)
   \<and> (\<forall>n. sound_io (ext_io ext n))"

lemma sample_envs_install: "installs (sample_ext x)" "n \<noteq> 0 \<Longrightarrow> installs (failing_ext n)"
  using sample_sound
  by (simp_all add: installs_def failing_ext_def sample_ext_def sound_io_def sample_clock) (simp add: sample_io_def)

lemma sample_starts:
  assumes "installs ext"
  obtains h ag1 where
    "onJournal ext (\<lambda>io. beginOperation io operationActionInstall ''UMS'' ''r1'')
       (sample_agent empty_journal store) = (Started h, ag1)" "ag_tick ag1 = 1"
proof -
  obtain h where h: "fst sample_begin = Started h" using sample_begin_started by (metis fst_conv)
  obtain x ag1 where b: "onJournal ext (\<lambda>io. beginOperation io operationActionInstall ''UMS'' ''r1'')
       (sample_agent empty_journal store) = (x, ag1)" by (metis surj_pair)
  have "x = Started h"
    using h onJournal_result [OF b] assms by (simp add: sample_begin_def installs_def)
  moreover have "ag_tick ag1 = 1" using onJournal_state [OF b] by simp
  ultimately show thesis using that b by simp
qed

text \<open>The calls of this install: begin, engine, stage, inventory, audit and completion, 0 to 5.\<close>

lemma sample_install:
  assumes "installs ext"
  obtains h ag1 h2 logs ag2 rsp ag' where
    "onJournal ext (\<lambda>io. beginOperation io operationActionInstall (ir_module sample_request)
       (ir_request_id sample_request)) (sample_agent empty_journal store) = (Started h, ag1)"
    "executeInstallModule ext (sample_request\<lparr>ir_api_version := InstallerRPCVersionV1\<rparr>) (logUnary ext) ((h, []), ag1)
       = (Inr sample_result, (h2, logs), ag2)"
    "ag_tick ag2 = 5" "ag' = complete ext (snapshot_of sample_result) h2 ag2"
    "InstallModule ext (Some sample_request) (sample_agent empty_journal store) = (rsp, ag')"
    "rsp_ok rsp"
proof -
  obtain h ag1 where b: "onJournal ext (\<lambda>io. beginOperation io operationActionInstall ''UMS'' ''r1'')
       (sample_agent empty_journal store) = (Started h, ag1)" "ag_tick ag1 = 1"
    by (rule sample_starts [OF assms])
  obtain h2 logs ag2 where e: "executeInstallModule ext
      (sample_request\<lparr>ir_api_version := InstallerRPCVersionV1\<rparr>) (logUnary ext) ((h, []), ag1)
      = (Inr sample_result, (h2, logs), ag2)" and t: "ag_tick ag2 = 5"
  proof -
    let ?x = "executeInstallModule ext (sample_request\<lparr>ir_api_version := InstallerRPCVersionV1\<rparr>)
        (logUnary ext) ((h, []), ag1)"
    have "fst ?x = Inr sample_result \<and> ag_tick (snd (snd ?x)) = 5"
      using assms b(2)
      by (simp add: unary.execute_run Let_def installs_def sample_ext_def unary.run_def updateStage_def)
    then show thesis using that by (metis prod.collapse)
  qed
  obtain rsp ag' where i: "InstallModule ext (Some sample_request) (sample_agent empty_journal store) = (rsp, ag')"
    by (metis surj_pair)
  have "rsp_ok rsp \<and> ag' = complete ext (snapshot_of sample_result) h2 ag2"
    using i by (auto simp: InstallModule_def sample_version b e)
  with that b(1) e t i show thesis by simp
qed

theorem known_request_no_effects_witness:
  "same_state (sample_agent (snd sample_begin) Missing)
     (snd (InstallModule (sample_ext None) (Some sample_request) (sample_agent (snd sample_begin) Missing)))"
proof -
  obtain h where b: "sample_begin = (Started h, snd sample_begin)" "or_request_id (oh_record h) = ''r1''"
    using sample_begin_started by blast
  note bg = canonical_after_begin [OF empty_canonical sample_sound sample_stable b(1) [unfolded sample_begin_def]]
  have "loadOperationRecords (sample_io Write_ok) (snd sample_begin) = Inr [oh_record h]"
    using load_canonical [OF bg(1)] by (simp add: sample_begin_def)
  then have "knows (sample_ext None) (sample_agent (snd sample_begin) Missing) ''r1''"
    using b(2) by (simp add: knows_def sample_ext_def sample_agent_def req_key_def)
  from known_request_no_effects [OF this, of sample_request] show ?thesis by simp
qed

theorem install_restart_release_locks_witness:
  "jn_locks (ag_journal (snd (InstallModule (sample_ext None) (Some sample_request)
     (sample_agent empty_journal Missing)))) ''ums'' = None"
  using install_restart_release_locks [of sample_request "\<lparr>rr_api_version = [], rr_request_id = [], rr_module = ''UMS'',
      rr_service_name = []\<rparr>" "sample_ext None" "sample_agent empty_journal Missing" "''ums''" True] sample_stable
  by (simp add: sample_agent_def Let_def)

theorem install_exactly_once_witness:
  "\<exists>rsp ag' first.
     InstallModule (sample_ext None) (Some sample_request) (sample_agent empty_journal Missing) = (rsp, ag')
     \<and> rsp_result rsp = Some first
     \<and> repeats first (fst (InstallModule (sample_ext None) (Some sample_request) ag'))
     \<and> same_state ag' (snd (InstallModule (sample_ext None) (Some sample_request) ag'))"
proof -
  obtain h ag1 h2 logs ag2 rsp ag' where r:
    "onJournal (sample_ext None) (\<lambda>io. beginOperation io operationActionInstall (ir_module sample_request)
       (ir_request_id sample_request)) (sample_agent empty_journal Missing) = (Started h, ag1)"
    "InstallModule (sample_ext None) (Some sample_request) (sample_agent empty_journal Missing) = (rsp, ag')"
    "rsp_ok rsp" by (rule sample_install [OF sample_envs_install(1)])
  have c: "canonical_journal (ag_journal (sample_agent empty_journal Missing)) []"
    by (simp add: sample_agent_def empty_canonical)
  have st: "stable_name (ir_module sample_request)" by (simp add: sample_stable)
  have io: "sound_io (ext_io (sample_ext None) n)" for n using sample_sound by (simp add: sample_ext_def)
  from install_exactly_once [OF io c st r refl, of InstallerRPCVersionV1] r(2) sample_module sample_version
  show ?thesis by (auto simp: Let_def sample_ext_def sample_io_def)
qed

text \<open>The refusal that a lost completion brings: success first, then still running.\<close>

lemma lost_completion_refused:
  "\<exists>rsp ag'. InstallModule (failing_ext 5) (Some sample_request) (sample_agent empty_journal Missing) = (rsp, ag')
     \<and> rsp_ok rsp
     \<and> \<not> rsp_ok (fst (InstallModule (failing_ext 5) (Some sample_request) ag'))"
proof -
  have ins: "installs (failing_ext 5)" by (rule sample_envs_install(2)) simp
  obtain h ag1 h2 logs ag2 rsp ag' where r:
    "onJournal (failing_ext 5) (\<lambda>io. beginOperation io operationActionInstall (ir_module sample_request)
       (ir_request_id sample_request)) (sample_agent empty_journal Missing) = (Started h, ag1)"
    "executeInstallModule (failing_ext 5) (sample_request\<lparr>ir_api_version := InstallerRPCVersionV1\<rparr>)
       (logUnary (failing_ext 5)) ((h, []), ag1) = (Inr sample_result, (h2, logs), ag2)"
    "ag_tick ag2 = 5" "ag' = complete (failing_ext 5) (snapshot_of sample_result) h2 ag2"
    "InstallModule (failing_ext 5) (Some sample_request) (sample_agent empty_journal Missing) = (rsp, ag')"
    "rsp_ok rsp" by (rule sample_install [OF ins])
  have io: "sound_io (ext_io (failing_ext 5) n)" for n using ins by (simp add: installs_def)
  have c: "canonical_journal (ag_journal (sample_agent empty_journal Missing)) []"
    by (simp add: sample_agent_def empty_canonical)
  have "tracked (trim_space ''r1'') h (ag_journal ag1)"
    by (rule tracked_begin [OF c io sample_stable]) (use onJournal_result [OF r(1)] in simp)
  then have t: "tracked ''r1'' h2 (ag_journal ag2)"
    using unary.execute_tracked [OF io _ r(2), of "''r1''"] by (simp add: sample_module)
  have w: "io_write (ext_io (failing_ext 5) (ag_tick ag2)) = Open_fails ''ENOSPC''"
    by (simp add: r(3) failing_ext_def sample_io_def)
  have "runs_in ''r1'' (ag_journal ag')"
    using unwritten_completion [OF t io w, of "Some (snapshot_of sample_result)"] by (simp add: r(4) complete_def)
  then obtain rs op where op: "canonical_journal (ag_journal ag') rs" "op \<in> set rs" "or_request_id op = ''r1''"
    "or_status op = operationStatusRunning" by (auto simp: runs_in_def)
  then have "canonical_op op" by (simp add: canonical_journal_def)
  from install_known(2) [OF op(1,2) this, of sample_request InstallerRPCVersionV1 "failing_ext 5"] op(3,4)
  have "\<not> rsp_ok (fst (InstallModule (failing_ext 5) (Some sample_request) ag'))"
    by (simp add: sample_module sample_version)
  with r(5,6) show ?thesis by blast
qed

theorem install_success_recorded_witness:
  "\<exists>rsp ag' result now M.
     InstallModule (sample_ext None) (Some sample_request) (sample_agent empty_journal Missing) = (rsp, ag')
     \<and> rsp_result rsp = Some result
     \<and> inventory_abs ''later'' (ag_inventory ag')
         = Some (M(installedModuleKey (is_module result) (is_runtime result)
                     \<mapsto> canonicalRecord now (installed_of now result)))"
proof -
  obtain h ag1 h2 logs ag2 rsp ag' where r:
    "onJournal (sample_ext None) (\<lambda>io. beginOperation io operationActionInstall (ir_module sample_request)
       (ir_request_id sample_request)) (sample_agent empty_journal Missing) = (Started h, ag1)"
    "InstallModule (sample_ext None) (Some sample_request) (sample_agent empty_journal Missing) = (rsp, ag')"
    "rsp_ok rsp" by (rule sample_install [OF sample_envs_install(1)])
  have e: "ext_io (sample_ext None) n = sample_io Write_ok" "io_write (sample_io Write_ok) = Write_ok" for n
    by (simp_all add: sample_ext_def sample_io_def)
  have i: "inventory_abs now (ag_inventory (sample_agent empty_journal Missing)) = Some Map.empty" for now
    by (simp add: sample_agent_def inventory_abs_def items_map_def lookup_items_def)
  have "clock_reading (io_now (ext_io (sample_ext None) (ag_tick ag' - 3)))"
    unfolding e by (rule sample_clock)
  from install_success_recorded [OF this r, of "''later''"] r(2) show ?thesis
    unfolding Let_def e inventory_outcome_def i by auto
qed

text \<open>Success is reported although the write of the inventory did not happen.\<close>

lemma success_not_recorded:
  "\<exists>rsp ag'. InstallModule (failing_ext 3) (Some sample_request) (sample_agent empty_journal Missing) = (rsp, ag')
     \<and> rsp_ok rsp \<and> ag_inventory ag' = Missing"
proof -
  have ins: "installs (failing_ext 3)" by (rule sample_envs_install(2)) simp
  obtain h ag1 h2 logs ag2 rsp ag' where r:
    "onJournal (failing_ext 3) (\<lambda>io. beginOperation io operationActionInstall (ir_module sample_request)
       (ir_request_id sample_request)) (sample_agent empty_journal Missing) = (Started h, ag1)"
    "executeInstallModule (failing_ext 3) (sample_request\<lparr>ir_api_version := InstallerRPCVersionV1\<rparr>)
       (logUnary (failing_ext 3)) ((h, []), ag1) = (Inr sample_result, (h2, logs), ag2)"
    "ag_tick ag2 = 5" "ag' = complete (failing_ext 3) (snapshot_of sample_result) h2 ag2"
    "InstallModule (failing_ext 3) (Some sample_request) (sample_agent empty_journal Missing) = (rsp, ag')"
    "rsp_ok rsp" by (rule sample_install [OF ins])
  have i: "ag_inventory ag1 = Missing" using onJournal_state [OF r(1)] by simp
  have "ag_inventory ag2 = Missing"
    using unary.execute_inventory(1) [OF r(2)]
    by (simp add: r(3) i upsertInstalledModule_alt) (simp add: failing_ext_def sample_io_def)
  with r show ?thesis by (simp add: complete_def)
qed


definition locked_record :: installed_record where
  "locked_record = (sample_installed ''ums'' ''1.2'')\<lparr>in_capabilities := no_capabilities\<lparr>cap_install := True\<rparr>\<rparr>"

definition sample_uninstall :: uninstall_request where
  "sample_uninstall =
     \<lparr>ur_api_version = [], ur_request_id = ''r2'', ur_module = ''ums'', ur_service_name = ''s'',
      ur_unit_path = ''/u'', ur_binary_path = [], ur_env_file_path = [], ur_nginx_site_path = [],
      ur_asset_paths = [''/a'']\<rparr>"

definition sample_restart :: restart_request where
  "sample_restart =
     \<lparr>rr_api_version = [], rr_request_id = ''r2'', rr_module = ''ums'', rr_service_name = ''s''\<rparr>"

definition idle_handle :: op_handle where
  "idle_handle = \<lparr>oh_record = newOperationRecord ''t'' [] [] [], oh_active = False\<rparr>"

theorem capabilities_respected_witness:
  "\<not> rsp_ok (fst (uninstallStarted (sample_ext None) sample_uninstall idle_handle
       (sample_agent empty_journal (Items [locked_record]))))"
proof -
  let ?ag = "sample_agent empty_journal (Items [locked_record])"
  let ?r = "canonicalRecord (io_now (sample_io Write_ok)) locked_record"
  let ?M = "items_map record_key [?r]"
  have M: "inventory_abs (io_now (ext_io (sample_ext None) (ag_tick ?ag))) (ag_inventory ?ag) = Some ?M"
    by (simp add: inventory_abs_def sample_ext_def sample_agent_def)
  have "record_key ?r = record_key locked_record" by (rule record_key_canonical)
  also have "\<dots> = installedModuleKey (trim_space ''ums'') RuntimeLinuxSystemd"
    by (simp add: locked_record_def sample_installed_def record_key_def installedModuleKey_def)
  finally have "record_key ?r = installedModuleKey (trim_space ''ums'') RuntimeLinuxSystemd" .
  then have r: "?M (installedModuleKey (trim_space ''ums'') RuntimeLinuxSystemd) = Some ?r"
    by (simp add: items_map_def lookup_items_def)
  have "\<not> cap_uninstall (in_capabilities ?r)"
    by (simp add: canonicalRecord_def normalizeInstalledModuleRecord_def locked_record_def
        normalizeArtifactCapabilities_def no_capabilities_def)
  with capabilities_respected [OF M r, of sample_restart idle_handle sample_uninstall] show ?thesis
    by (simp add: sample_uninstall_def)
qed

theorem restart_loses_version_witness:
  "\<exists>rsp ag'. restartStarted (sample_ext None) sample_restart idle_handle (sample_agent empty_journal Missing) = (rsp, ag')
     \<and> rsp_ok rsp \<and> (\<exists>M r. inventory_abs ''later'' (ag_inventory ag') = Some M
         \<and> M (installedModuleKey ''ums'' RuntimeLinuxSystemd) = Some r \<and> in_version r = [])"
proof -
  let ?ag = "sample_agent empty_journal Missing"
  obtain rsp ag' where s: "restartStarted (sample_ext None) sample_restart idle_handle ?ag = (rsp, ag')"
    by (metis surj_pair)
  have M: "inventory_abs (io_now (ext_io (sample_ext None) (ag_tick ?ag))) (ag_inventory ?ag) = Some Map.empty"
    by (simp add: inventory_abs_def sample_ext_def sample_agent_def items_map_def lookup_items_def)
  have "trim_space ''s'' = ''s''" by code_simp
  moreover have "fst (getRecord (sample_ext None) ''ums'' ?ag) = Inr None"
    using M by (simp add: getRecord_def get_refines)
  ultimately have "rsp_ok (fst (restartStarted (sample_ext None) sample_restart idle_handle ?ag))"
    by (simp add: restartStarted_def Let_def case_prod_beta sample_restart_def sample_commands_succeed)
  with s have ok: "rsp_ok rsp" by simp
  from restart_loses_version [OF sample_reliable M s ok, of "''later''"] s ok show ?thesis
    by (auto simp: sample_restart_def split: option.splits)
qed

lemma sample_removals:
  "fst (removePathIfExists (sample_ext None) p ag) = None"
  "fst (remove_paths (sample_ext None) ps ag) = None"
proof -
  show r: "fst (removePathIfExists (sample_ext None) p ag) = None" for p ag
    by (simp add: removePathIfExists_def sample_ext_def)
  show "fst (remove_paths (sample_ext None) ps ag) = None"
  proof (induction ps arbitrary: ag)
    case (Cons p ps)
    obtain x ag' where "removePathIfExists (sample_ext None) p ag = (x, ag')" by (metis surj_pair)
    with r [of p ag] Cons show ?case by simp
  qed simp
qed

theorem uninstall_success_trace_witness:
  "\<exists>rsp ag'. uninstallService (sample_ext None) sample_uninstall ''s'' idle_handle
       (sample_agent empty_journal (Items [locked_record])) = (rsp, ag') \<and> rsp_ok rsp
     \<and> ag_removed ag' = [''/u'', ''/a''] \<and> length (ag_commands ag') = 3
     \<and> (\<exists>M. inventory_abs ''later'' (ag_inventory ag') = Some M
          \<and> M (installedModuleKey ''ums'' RuntimeLinuxSystemd) = None)"
proof -
  let ?ag = "sample_agent empty_journal (Items [locked_record])"
  obtain rsp ag' where s: "uninstallService (sample_ext None) sample_uninstall ''s'' idle_handle ?ag = (rsp, ag')"
    by (metis surj_pair)
  have "rsp_ok (fst (uninstallService (sample_ext None) sample_uninstall ''s'' idle_handle ?ag))"
    by (simp add: uninstallService_def uninstallFiles_def Let_def case_prod_beta sample_commands_succeed
        sample_removals sample_uninstall_def api_version_fixed uninstallDone_frame)
  with s have ok: "rsp_ok rsp" by simp
  have t: "trim_space ''s'' = ''s''" "trim_space ''/u'' = ''/u''" "trim_space ''/a'' = ''/a''" "trim_space [] = []"
    "trim_space ''ums'' = ''ums''"
    by code_simp+
  have e: "ext_io (sample_ext None) n = sample_io Write_ok" "io_write (sample_io Write_ok) = Write_ok" for n
    by (simp_all add: sample_ext_def sample_io_def)
  have sn: "''s'' = trim_space (ur_service_name sample_uninstall)" by (simp add: sample_uninstall_def t)
  have c: "clock_reading (io_now (ext_io (sample_ext None) (ag_tick ag' - 4)))"
    unfolding e by (rule sample_clock)
  have i: "inventory_abs now (ag_inventory ?ag) = Some (items_map record_key (map (canonicalRecord now) [locked_record]))" for now
    by (simp add: sample_agent_def inventory_abs_def)
  note u = uninstall_success_trace [OF s ok sn c, of "''later''"]
  have "ag_removed ag' = [''/u'', ''/a'']" "length (ag_commands ag') = 3"
    using u t by (simp_all add: sample_uninstall_def uninstall_unit_def uninstall_paths_def sample_agent_def)
  moreover have "inventory_outcome Write_ok
      (\<lambda>M. M(installedModuleKey (trim_space (ur_module sample_uninstall)) RuntimeLinuxSystemd := None))
      (io_now (sample_io Write_ok)) ''later'' (ag_inventory ?ag) (ag_inventory ag')"
    using u unfolding Let_def e by blast
  then have "\<exists>M. inventory_abs ''later'' (ag_inventory ag') = Some M
      \<and> M (installedModuleKey ''ums'' RuntimeLinuxSystemd) = None"
    unfolding inventory_outcome_def Let_def i by (simp add: sample_uninstall_def t)
  ultimately show ?thesis using s ok by blast
qed


end
