(* ===== verification/Config.thy ===== *)
theory Config
  imports Prelude Go_Strings
begin

text \<open>
  The agent's configuration (\<^verbatim>\<open>internal/config/config.go\<close>): reading the environment with its
  defaults and aliases, and the checks a configuration has to pass.  The environment is a
  function from names to values (\<^verbatim>\<open>os.Getenv\<close> gives the empty string for an unset name);
  durations are counted in nanoseconds.  \<^verbatim>\<open>time.ParseDuration\<close>, \<^verbatim>\<open>os.Hostname\<close>, the
  architecture of the build and whether a path exists are arguments.
\<close>

type_synonym duration = int

definition millisecond :: duration where "millisecond = 1000000"
definition second :: duration where "second = 1000000000"
definition minute :: duration where "minute = 60 * second"
definition hour :: duration where "hour = 60 * minute"

lemmas duration_defs = millisecond_def second_def minute_def hour_def

record config =
  cfg_node_id :: string
  cfg_service_id :: string
  cfg_role :: string
  cfg_hostname :: string
  cfg_probe_listen_addr :: string
  cfg_health_interval :: duration
  cfg_shutdown_timeout :: duration
  cfg_admin_grpc_addr :: string
  cfg_admin_server_name :: string
  cfg_admin_client_cn :: string
  cfg_admin_client_service_id :: string
  cfg_admin_client_role :: string
  cfg_admin_server_ca_path :: string
  cfg_admin_client_ca_path :: string
  cfg_client_cert_path :: string
  cfg_client_key_path :: string
  cfg_server_cert_path :: string
  cfg_server_key_path :: string
  cfg_bootstrap_token :: string
  cfg_cluster_id :: string
  cfg_agent_ip :: string
  cfg_heartbeat_interval :: duration
  cfg_agent_grpc_endpoint :: string
  cfg_platform :: string
  cfg_architecture :: string
  cfg_agent_version :: string
  cfg_log_level :: string
  cfg_install_allowed_modules :: "string list"
  cfg_install_allowed_hosts :: "string list"
  cfg_install_audit_log_path :: string

subsection \<open>Reading the environment\<close>

record host_env =
  he_getenv :: "string \<Rightarrow> string"
  he_hostname :: "string option"
  he_arch :: string
  he_parse_duration :: "string \<Rightarrow> duration option"
  he_exists :: "string \<Rightarrow> bool"

definition env :: "host_env \<Rightarrow> string \<Rightarrow> string \<Rightarrow> string" where
  "env E key fallback =
     (let v = trim_space (he_getenv E key) in if v = [] then fallback else v)"

definition envDuration :: "host_env \<Rightarrow> string \<Rightarrow> duration \<Rightarrow> duration" where
  "envDuration E key fallback =
     (let v = trim_space (he_getenv E key) in
      if v = [] then fallback
      else case he_parse_duration E v of None \<Rightarrow> fallback | Some d \<Rightarrow> d)"

definition envCSV :: "host_env \<Rightarrow> string \<Rightarrow> string list \<Rightarrow> string list" where
  "envCSV E key fallback =
     (let raw = trim_space (he_getenv E key) in
      if raw = [] then fallback
      else let out = collect_unique (\<lambda>p. to_lower (trim_space p)) [] (split_on (CHR '','') raw)
           in if out = [] then fallback else out)"

definition fileExists :: "host_env \<Rightarrow> string \<Rightarrow> bool" where
  "fileExists E path = (if trim_space path = [] then False else he_exists E path)"

definition HardcodedVersion :: string where "HardcodedVersion = ''V0.3''"

subsection \<open>Checking a configuration\<close>

definition Validate :: "host_env \<Rightarrow> config \<Rightarrow> string + unit" where
  "Validate E c =
     (let blank = (\<lambda>s. trim_space s = []);
          hasClientFiles = (fileExists E (trim_space (cfg_client_cert_path c))
                            \<and> fileExists E (trim_space (cfg_client_key_path c)));
          hasServerFiles = (fileExists E (trim_space (cfg_server_cert_path c))
                            \<and> fileExists E (trim_space (cfg_server_key_path c)))
      in if cfg_node_id c = [] then Inl ''AURORA_NODE_ID is required''
      else if blank (cfg_service_id c) then Inl ''AURORA_AGENT_SERVICE_ID is required''
      else if blank (cfg_role c) then Inl ''AURORA_AGENT_ROLE is required''
      else if blank (cfg_agent_version c) then Inl ''agent version must not be empty''
      else if cfg_install_allowed_modules c = [] then Inl ''AURORA_INSTALL_ALLOWED_MODULES must not be empty''
      else if cfg_install_allowed_hosts c = [] then Inl ''AURORA_INSTALL_ALLOWED_ARTIFACT_HOSTS must not be empty''
      else if blank (cfg_install_audit_log_path c) then Inl ''AURORA_INSTALL_AUDIT_LOG_PATH is required''
      else if blank (cfg_architecture c) then Inl ''agent architecture must not be empty''
      else if blank (cfg_probe_listen_addr c) then Inl ''AURORA_AGENT_PROBE_ADDR is required''
      else if cfg_shutdown_timeout c \<le> 0 then Inl ''AURORA_SHUTDOWN_TIMEOUT must be > 0''
      else if blank (cfg_admin_grpc_addr c) then Inl ''AURORA_ADMIN_GRPC_ADDR is required''
      else if blank (cfg_admin_server_ca_path c) then Inl ''AURORA_ADMIN_SERVER_CA_PATH is required''
      else if blank (cfg_admin_client_ca_path c) then Inl ''AURORA_ADMIN_CLIENT_CA_PATH is required''
      else if blank (cfg_client_cert_path c) \<or> blank (cfg_client_key_path c)
      then Inl ''AURORA_ADMIN_TLS_CLIENT_CERT_PATH and AURORA_ADMIN_TLS_CLIENT_KEY_PATH are required''
      else if blank (cfg_server_cert_path c) \<or> blank (cfg_server_key_path c)
      then Inl ''AURORA_AGENT_TLS_SERVER_CERT_PATH and AURORA_AGENT_TLS_SERVER_KEY_PATH are required''
      else if (\<not> hasClientFiles \<or> \<not> hasServerFiles) \<and> blank (cfg_bootstrap_token c)
      then Inl ''mTLS cert/key files are missing and AURORA_AGENT_BOOTSTRAP_TOKEN is empty''
      else if cfg_heartbeat_interval c \<le> 0 then Inl ''AURORA_AGENT_HEARTBEAT_INTERVAL must be > 0''
      else Inr ())"

definition loadRaw :: "host_env \<Rightarrow> config" where
  "loadRaw E =
     (let hostname = (case he_hostname E of None \<Rightarrow> ''unknown-host'' | Some h \<Rightarrow> h);
          legacyCAPath = env E ''AURORA_ADMIN_TLS_CA_PATH'' []
      in \<lparr>cfg_node_id = env E ''AURORA_NODE_ID'' hostname,
          cfg_service_id = env E ''AURORA_AGENT_SERVICE_ID'' ''aurora-agent'',
          cfg_role = env E ''AURORA_AGENT_ROLE'' ''agent'',
          cfg_hostname = hostname,
          cfg_probe_listen_addr = env E ''AURORA_AGENT_PROBE_ADDR'' ''0.0.0.0:7443'',
          cfg_health_interval = envDuration E ''AURORA_HEALTH_INTERVAL'' (10 * second),
          cfg_shutdown_timeout = envDuration E ''AURORA_SHUTDOWN_TIMEOUT'' (20 * second),
          cfg_admin_grpc_addr = env E ''AURORA_ADMIN_GRPC_ADDR'' [],
          cfg_admin_server_name = env E ''AURORA_ADMIN_SERVER_NAME'' [],
          cfg_admin_client_cn = env E ''AURORA_AGENT_ADMIN_CLIENT_CN''
              (env E ''AURORA_ADMIN_SERVER_NAME'' ''admin.aurora.local''),
          cfg_admin_client_service_id = env E ''AURORA_AGENT_ADMIN_CLIENT_SERVICE_ID'' ''aurora-admin'',
          cfg_admin_client_role = env E ''AURORA_AGENT_ADMIN_CLIENT_ROLE'' ''control-plane'',
          cfg_admin_server_ca_path = env E ''AURORA_ADMIN_SERVER_CA_PATH'' legacyCAPath,
          cfg_admin_client_ca_path = env E ''AURORA_ADMIN_CLIENT_CA_PATH''
              (env E ''AURORA_ADMIN_SERVER_CA_PATH'' legacyCAPath),
          cfg_client_cert_path = env E ''AURORA_ADMIN_TLS_CLIENT_CERT_PATH'' (env E ''AURORA_ADMIN_TLS_CERT_PATH'' []),
          cfg_client_key_path = env E ''AURORA_ADMIN_TLS_CLIENT_KEY_PATH'' (env E ''AURORA_ADMIN_TLS_KEY_PATH'' []),
          cfg_server_cert_path = env E ''AURORA_AGENT_TLS_SERVER_CERT_PATH'' (env E ''AURORA_ADMIN_TLS_CERT_PATH'' []),
          cfg_server_key_path = env E ''AURORA_AGENT_TLS_SERVER_KEY_PATH'' (env E ''AURORA_ADMIN_TLS_KEY_PATH'' []),
          cfg_bootstrap_token = env E ''AURORA_AGENT_BOOTSTRAP_TOKEN'' [],
          cfg_cluster_id = env E ''AURORA_AGENT_CLUSTER_ID'' ''default'',
          cfg_agent_ip = env E ''AURORA_AGENT_IP'' [],
          cfg_heartbeat_interval = envDuration E ''AURORA_AGENT_HEARTBEAT_INTERVAL'' (15 * second),
          cfg_agent_grpc_endpoint = env E ''AURORA_AGENT_GRPC_ENDPOINT'' [],
          cfg_platform = env E ''AURORA_AGENT_PLATFORM'' ''linux'',
          cfg_architecture = env E ''AURORA_AGENT_ARCH'' (he_arch E),
          cfg_agent_version = HardcodedVersion,
          cfg_log_level = to_lower (env E ''AURORA_LOG_LEVEL'' ''info''),
          cfg_install_allowed_modules =
            envCSV E ''AURORA_INSTALL_ALLOWED_MODULES'' [''ums'', ''platform'', ''paas'', ''dbaas''],
          cfg_install_allowed_hosts =
            envCSV E ''AURORA_INSTALL_ALLOWED_ARTIFACT_HOSTS''
              [''github.com'', ''release-assets.githubusercontent.com'', ''objects.githubusercontent.com''],
          cfg_install_audit_log_path =
            env E ''AURORA_INSTALL_AUDIT_LOG_PATH'' ''/var/lib/aurora-agent/install_audit.jsonl''\<rparr>)"

definition Load :: "host_env \<Rightarrow> string + config" where
  "Load E = (let cfg = loadRaw E in case Validate E cfg of Inl e \<Rightarrow> Inl e | Inr _ \<Rightarrow> Inr cfg)"

subsection \<open>What a loaded configuration satisfies\<close>

definition blank :: "string \<Rightarrow> bool" where
  "blank s \<longleftrightarrow> trim_space s = []"

definition lower_set :: "string list \<Rightarrow> bool" where
  "lower_set xs \<longleftrightarrow> xs \<noteq> [] \<and> distinct xs \<and> list_all (\<lambda>x. x \<noteq> [] \<and> to_lower x = x) xs"

definition tls_usable :: "host_env \<Rightarrow> config \<Rightarrow> bool" where
  "tls_usable E c \<longleftrightarrow>
     list_all (\<lambda>p. he_exists E (trim_space p))
       [cfg_client_cert_path c, cfg_client_key_path c, cfg_server_cert_path c, cfg_server_key_path c]"

definition config_ok :: "host_env \<Rightarrow> config \<Rightarrow> bool" where
  "config_ok E c \<longleftrightarrow>
     cfg_node_id c \<noteq> []
     \<and> list_all (\<lambda>s. \<not> blank s)
         [cfg_service_id c, cfg_role c, cfg_agent_version c, cfg_install_audit_log_path c,
          cfg_architecture c, cfg_probe_listen_addr c, cfg_admin_grpc_addr c,
          cfg_admin_server_ca_path c, cfg_admin_client_ca_path c, cfg_client_cert_path c,
          cfg_client_key_path c, cfg_server_cert_path c, cfg_server_key_path c]
     \<and> 0 < cfg_shutdown_timeout c \<and> 0 < cfg_heartbeat_interval c
     \<and> lower_set (cfg_install_allowed_modules c) \<and> lower_set (cfg_install_allowed_hosts c)
     \<and> to_lower (cfg_log_level c) = cfg_log_level c
     \<and> (blank (cfg_bootstrap_token c) \<longrightarrow> tls_usable E c)"

lemma envCSV_lower_set:
  assumes "lower_set fallback"
  shows "lower_set (envCSV E key fallback)"
proof (cases "collect_unique (\<lambda>p. to_lower (trim_space p)) [] (split_on (CHR '','') (trim_space (he_getenv E key))) = []")
  case True
  then show ?thesis using assms by (simp add: envCSV_def Let_def)
next
  case False
  then show ?thesis using assms
    by (auto simp: envCSV_def Let_def lower_set_def distinct_collect_unique list_all_iff set_collect_unique)
qed

lemma fallback_lists:
  "lower_set [''ums'', ''platform'', ''paas'', ''dbaas'']"
  "lower_set [''github.com'', ''release-assets.githubusercontent.com'', ''objects.githubusercontent.com'']"
  by code_simp+

lemma loadRaw_lists:
  "lower_set (cfg_install_allowed_modules (loadRaw E))"
  "lower_set (cfg_install_allowed_hosts (loadRaw E))"
  "to_lower (cfg_log_level (loadRaw E)) = cfg_log_level (loadRaw E)"
  by (simp_all add: loadRaw_def Let_def envCSV_lower_set fallback_lists)

lemma Validate_Inr:
  assumes "Validate E c = Inr u"
  shows "cfg_node_id c \<noteq> []
     \<and> list_all (\<lambda>s. \<not> blank s)
         [cfg_service_id c, cfg_role c, cfg_agent_version c, cfg_install_audit_log_path c,
          cfg_architecture c, cfg_probe_listen_addr c, cfg_admin_grpc_addr c,
          cfg_admin_server_ca_path c, cfg_admin_client_ca_path c, cfg_client_cert_path c,
          cfg_client_key_path c, cfg_server_cert_path c, cfg_server_key_path c]
     \<and> 0 < cfg_shutdown_timeout c \<and> 0 < cfg_heartbeat_interval c
     \<and> (blank (cfg_bootstrap_token c) \<longrightarrow> tls_usable E c)"
  using assms
  by (simp add: Validate_def Let_def blank_def tls_usable_def fileExists_def not_le) auto

lemma Validate_ignores_health_interval: "Validate E (c\<lparr>cfg_health_interval := d\<rparr>) = Validate E c"
  by (simp add: Validate_def)

text \<open>
  C21: a configuration that loads has every mandatory value, positive shutdown and heartbeat
  periods, non-empty duplicate-free lower-case lists of modules and hosts, and either a
  bootstrap token or all four certificate and key files.
\<close>

theorem Load_config_ok:
  assumes "Load E = Inr c"
  shows "config_ok E c"
proof -
  have c: "c = loadRaw E" and v: "Validate E c = Inr ()"
    using assms by (auto simp: Load_def Let_def split: sum.splits)
  show ?thesis
    using Validate_Inr [OF v] loadRaw_lists [of E] by (simp only: config_ok_def c) simp
qed

definition sample_host :: host_env where
  "sample_host =
     \<lparr>he_getenv = (\<lambda>k. case map_of
         [(''AURORA_ADMIN_GRPC_ADDR'', ''admin:50544''), (''AURORA_ADMIN_SERVER_CA_PATH'', ''/ca''),
          (''AURORA_ADMIN_TLS_CERT_PATH'', ''/crt''), (''AURORA_ADMIN_TLS_KEY_PATH'', ''/key''),
          (''AURORA_AGENT_BOOTSTRAP_TOKEN'', '' t ''), (''AURORA_HEALTH_INTERVAL'', ''0s''),
          (''AURORA_INSTALL_ALLOWED_MODULES'', ''UMS, ,ums'')] k of None \<Rightarrow> [] | Some v \<Rightarrow> v),
      he_hostname = None, he_arch = ''amd64'',
      he_parse_duration = (\<lambda>s. if s = ''0s'' then Some 0 else None),
      he_exists = (\<lambda>_. False)\<rparr>"

lemma sample_host_loads: "Load sample_host = Inr (loadRaw sample_host)"
proof -
  have "is_ok (Load sample_host)" by code_simp
  then show ?thesis by (auto simp: Load_def Let_def is_ok_def split: sum.splits)
qed

theorem Load_config_ok_witness:
  "config_ok sample_host (loadRaw sample_host)
   \<and> cfg_install_allowed_modules (loadRaw sample_host) = [''ums'']
   \<and> cfg_health_interval (loadRaw sample_host) = 0"
proof -
  have "cfg_install_allowed_modules (loadRaw sample_host) = [''ums'']"
    "cfg_health_interval (loadRaw sample_host) = 0" by code_simp+
  with Load_config_ok [OF sample_host_loads] show ?thesis by simp
qed

end
