(* ===== verification/Command_Runner.thy ===== *)
theory Command_Runner
  imports Config Go_Strings
begin

text \<open>
  Commands on behalf of the control plane (\<^verbatim>\<open>internal/agent/install/install_service.go\<close>): one
  answer with the whole output, or a stream of events while two goroutines read the two pipes
  of the child.  \<^verbatim>\<open>bash\<close> is an argument: what it printed and how it ended.
\<close>

subsection \<open>Requests and answers\<close>

record run_request =
  rq_command :: string
  rq_timeout_seconds :: "32 word"
  rq_env :: "(string \<times> string) list"

record run_response =
  rp_ok :: bool
  rp_exit_code :: "32 word"
  rp_output :: string
  rp_error_text :: string

record run_event =
  re_type :: string
  re_stream :: string
  re_message :: string
  re_exit_code :: "32 word"
  re_error_text :: string

text \<open>
  An error of \<^verbatim>\<open>exec.Cmd\<close>: the exit code if it is an \<^verbatim>\<open>ExitError\<close>, whether the deadline of the
  context had passed, the message \<^verbatim>\<open>status.FromError\<close> finds, and the error's own text.
\<close>

record cmd_failure =
  cf_exit :: "int option"
  cf_deadline :: bool
  cf_status :: "string option"
  cf_text :: string

type_synonym shell = "duration \<Rightarrow> string list \<Rightarrow> string \<Rightarrow> string \<times> cmd_failure option"

subsection \<open>Timeout, environment, failure\<close>

definition commandTimeout :: "32 word \<Rightarrow> duration" where
  "commandTimeout secs =
     (let timeout = (if 0 < sint secs then wrap64 (sint secs * second) else 40 * minute)
      in if timeout \<le> 0 then 30 * second else timeout)"

definition envEntry :: "string \<times> string \<Rightarrow> string option" where
  "envEntry kv =
     (let trimmedKey = trim_space (fst kv) in
      if trimmedKey = [] then None else Some (trimmedKey @ ''='' @ snd kv))"

definition envList :: "string list \<Rightarrow> (string \<times> string) list \<Rightarrow> string list" where
  "envList environ vars = environ @ List.map_filter envEntry vars"

definition failureExit :: "cmd_failure \<Rightarrow> 32 word" where
  "failureExit f = (case cf_exit f of Some n \<Rightarrow> word_of_int n | None \<Rightarrow> -1)"

definition show_int :: "int \<Rightarrow> string" where
  "show_int i = (if i < 0 then CHR 0x2D # show_nat (nat (- i)) else show_nat (nat i))"

definition failureText :: "cmd_failure \<Rightarrow> string" where
  "failureText f =
     (let text = (if cf_deadline f then ''command timeout exceeded''
                  else case cf_status f of
                         Some msg \<Rightarrow> trim_space msg
                       | None \<Rightarrow> trim_space (cf_text f))
      in if text = [] then ''command failed exit_code='' @ show_int (sint (failureExit f)) else text)"

subsection \<open>One answer\<close>

definition RunCommand :: "shell \<Rightarrow> string list \<Rightarrow> run_request option \<Rightarrow> run_response" where
  "RunCommand sh environ req =
     (case req of
        None \<Rightarrow> \<lparr>rp_ok = False, rp_exit_code = -1, rp_output = [], rp_error_text = []\<rparr>
      | Some r \<Rightarrow>
          let command = trim_space (rq_command r) in
          if command = []
          then \<lparr>rp_ok = False, rp_exit_code = -1, rp_output = [], rp_error_text = ''command is required''\<rparr>
          else case sh (commandTimeout (rq_timeout_seconds r)) (envList environ (rq_env r)) command of
                 (out, None) \<Rightarrow>
                   \<lparr>rp_ok = True, rp_exit_code = 0, rp_output = out, rp_error_text = []\<rparr>
               | (out, Some f) \<Rightarrow>
                   \<lparr>rp_ok = False, rp_exit_code = failureExit f, rp_output = out,
                    rp_error_text = failureText f\<rparr>)"

subsection \<open>Two pipes\<close>

text \<open>
  What a goroutine can read from its pipe: the bytes until the pipe ends or \<^verbatim>\<open>cmd.Wait\<close> closes
  it, and the error of the last read if it is not the end of the file.  Lines of four MiB and
  more stop the scanner.
\<close>

type_synonym pipe_bytes = "string \<times> string option"

definition pipeBuffer :: int where "pipeBuffer = 4 * 1024 * 1024"

datatype reader = Reading "string list" "string option" | Finished

definition pipeReader :: "pipe_bytes \<Rightarrow> reader" where
  "pipeReader p = Reading (scan_upto pipeBuffer (fst p)) (scan_upto_error pipeBuffer (fst p) (snd p))"

record streaming =
  st_out :: reader
  st_err :: reader
  st_events :: "run_event list"
  st_done :: "string option list"

definition logEvent :: "string \<Rightarrow> string \<Rightarrow> run_event" where
  "logEvent streamName line =
     \<lparr>re_type = ''log'', re_stream = streamName, re_message = line, re_exit_code = 0, re_error_text = []\<rparr>"

text \<open>
  The sender gives the error of its \<open>n\<close>-th call.  One turn of a reader under \<^verbatim>\<open>sendMu\<close>: the
  reader afterwards, the events sent so far, and what it puts on the channel when it ends.
\<close>

fun readPipe :: "(nat \<Rightarrow> string option) \<Rightarrow> string \<Rightarrow> reader \<Rightarrow> run_event list
    \<Rightarrow> reader \<times> run_event list \<times> string option list" where
  "readPipe send streamName Finished evs = (Finished, evs, [])"
| "readPipe send streamName (Reading [] err) evs = (Finished, evs, [err])"
| "readPipe send streamName (Reading (line # rest) err) evs =
     (case send (length evs) of
        None \<Rightarrow> (Reading rest err, evs @ [logEvent streamName line], [])
      | Some e \<Rightarrow> (Finished, evs @ [logEvent streamName line], [Some e]))"

definition stepOut :: "(nat \<Rightarrow> string option) \<Rightarrow> streaming \<Rightarrow> streaming" where
  "stepOut send s =
     (case readPipe send ''stdout'' (st_out s) (st_events s) of
        (r, evs, fin) \<Rightarrow> s\<lparr>st_out := r, st_events := evs, st_done := st_done s @ fin\<rparr>)"

definition stepErr :: "(nat \<Rightarrow> string option) \<Rightarrow> streaming \<Rightarrow> streaming" where
  "stepErr send s =
     (case readPipe send ''stderr'' (st_err s) (st_events s) of
        (r, evs, fin) \<Rightarrow> s\<lparr>st_err := r, st_events := evs, st_done := st_done s @ fin\<rparr>)"

text \<open>The scheduler: \<open>pick n\<close> lets the reader of standard output take turn \<open>n\<close> if it can.\<close>

fun turns :: "reader \<Rightarrow> nat" where
  "turns Finished = 0"
| "turns (Reading ls err) = Suc (length ls)"

lemma turns_readPipe:
  assumes "readPipe send nm r evs = (r', evs', fin)" "r \<noteq> Finished"
  shows "turns r' < turns r"
  using assms by (induction send nm r evs rule: readPipe.induct) (auto split: option.splits)

lemma turns_step:
  "st_out s \<noteq> Finished \<Longrightarrow> turns (st_out (stepOut send s)) < turns (st_out s)"
  "st_err s \<noteq> Finished \<Longrightarrow> turns (st_err (stepErr send s)) < turns (st_err s)"
  "st_err (stepOut send s) = st_err s" "st_out (stepErr send s) = st_out s"
  by (auto simp: stepOut_def stepErr_def split: prod.splits dest: turns_readPipe)

function readPipes :: "(nat \<Rightarrow> string option) \<Rightarrow> (nat \<Rightarrow> bool) \<Rightarrow> nat \<Rightarrow> streaming \<Rightarrow> streaming" where
  "readPipes send pick n s =
     (if st_out s \<noteq> Finished \<and> (pick n \<or> st_err s = Finished) then readPipes send pick (Suc n) (stepOut send s)
      else if st_err s \<noteq> Finished then readPipes send pick (Suc n) (stepErr send s)
      else s)"
  by pat_completeness auto
termination
  by (relation "measure (\<lambda>(send, pick, n, s). turns (st_out s) + turns (st_err s))")
     (auto simp: turns_step)

declare readPipes.simps [simp del]

subsection \<open>The stream\<close>

text \<open>A pipe or the start of the child fails, or it runs: its two pipes and how it ends.\<close>

datatype started = Not_started string | Running pipe_bytes pipe_bytes "cmd_failure option"

type_synonym launcher = "duration \<Rightarrow> string list \<Rightarrow> string \<Rightarrow> started"

definition errorEvent :: "32 word \<Rightarrow> string \<Rightarrow> run_event" where
  "errorEvent exitCode text =
     \<lparr>re_type = ''error'', re_stream = [], re_message = [], re_exit_code = exitCode, re_error_text = text\<rparr>"

definition lastEvent :: "cmd_failure option \<Rightarrow> run_event" where
  "lastEvent waitErr =
     (case waitErr of
        None \<Rightarrow> \<lparr>re_type = ''result'', re_stream = [], re_message = [], re_exit_code = 0, re_error_text = []\<rparr>
      | Some f \<Rightarrow> errorEvent (failureExit f) (failureText f))"

definition sendEventTo :: "(nat \<Rightarrow> string option) \<Rightarrow> run_event \<Rightarrow> run_event list \<Rightarrow> string option \<times> run_event list" where
  "sendEventTo send e evs = (send (length evs), evs @ [e])"

definition firstError :: "string option list \<Rightarrow> string option" where
  "firstError errs = (case List.find (\<lambda>e. e \<noteq> None) errs of None \<Rightarrow> None | Some e \<Rightarrow> e)"

definition streamPipes ::
    "(nat \<Rightarrow> string option) \<Rightarrow> (nat \<Rightarrow> bool) \<Rightarrow> pipe_bytes \<Rightarrow> pipe_bytes \<Rightarrow> streaming" where
  "streamPipes send pick outPipe errPipe =
     readPipes send pick 0
       \<lparr>st_out = pipeReader outPipe, st_err = pipeReader errPipe, st_events = [], st_done = []\<rparr>"

text \<open>The error the handler returns, and the events it passed to the sender.\<close>

definition RunCommandStream ::
    "launcher \<Rightarrow> string list \<Rightarrow> (nat \<Rightarrow> bool) \<Rightarrow> (nat \<Rightarrow> string option) option \<Rightarrow> run_request option
       \<Rightarrow> string option \<times> run_event list" where
  "RunCommandStream launch environ pick sender req =
     (case sender of
        None \<Rightarrow> (Some ''run command stream sender is required'', [])
      | Some send \<Rightarrow>
          (case req of
             None \<Rightarrow> sendEventTo send (errorEvent 0 ''command request is required'') []
           | Some r \<Rightarrow>
               let command = trim_space (rq_command r) in
               if command = [] then sendEventTo send (errorEvent 0 ''command is required'') []
               else case launch (commandTimeout (rq_timeout_seconds r)) (envList environ (rq_env r)) command of
                      Not_started e \<Rightarrow> sendEventTo send (errorEvent 0 (trim_space e)) []
                    | Running outPipe errPipe waitErr \<Rightarrow>
                        let s = streamPipes send pick outPipe errPipe in
                        case firstError (st_done s) of
                          Some e \<Rightarrow> (Some e, st_events s)
                        | None \<Rightarrow> sendEventTo send (lastEvent waitErr) (st_events s)))"

subsection \<open>The deadline\<close>

text \<open>Seconds of 32 bits never overflow: the fallback of 30 seconds is dead code.\<close>

lemma commandTimeout_value:
  "commandTimeout secs = (if 0 < sint secs then sint secs * second else 40 * minute)"
proof -
  have "sint secs < 2 ^ 31" using sint_lt [of secs] by simp
  then show ?thesis
    by (auto simp: commandTimeout_def Let_def second_def minute_def wrap64_id)
qed

subsection \<open>What a stream delivers\<close>

definition linesOf :: "string \<Rightarrow> run_event list \<Rightarrow> string list" where
  "linesOf nm evs = map re_message (filter (\<lambda>e. re_stream e = nm) evs)"

fun left :: "reader \<Rightarrow> string list" where
  "left Finished = []"
| "left (Reading ls err) = ls"

definition logsOnly :: "run_event list \<Rightarrow> bool" where
  "logsOnly evs \<longleftrightarrow> (\<forall>e \<in> set evs. \<exists>nm line. nm \<in> {''stdout'', ''stderr''} \<and> e = logEvent nm line)"

text \<open>
  Whatever the turns: what was sent of a stream and what is left of it are its lines, as long
  as no send fails; otherwise what was sent is a prefix.
\<close>

definition stream_inv :: "string list \<Rightarrow> string list \<Rightarrow> streaming \<Rightarrow> bool" where
  "stream_inv outs errs s \<longleftrightarrow>
     logsOnly (st_events s)
     \<and> prefix (linesOf ''stdout'' (st_events s) @ left (st_out s)) outs
     \<and> prefix (linesOf ''stderr'' (st_events s) @ left (st_err s)) errs
     \<and> (firstError (st_done s) = None \<longrightarrow>
          linesOf ''stdout'' (st_events s) @ left (st_out s) = outs
          \<and> linesOf ''stderr'' (st_events s) @ left (st_err s) = errs)"

lemma linesOf_simps [simp]:
  "linesOf nm [] = []" "linesOf nm (a @ b) = linesOf nm a @ linesOf nm b"
  "linesOf nm [logEvent nm' l] = (if nm' = nm then [l] else [])"
  by (simp_all add: linesOf_def logEvent_def)

lemma logsOnly_simps [simp]:
  "logsOnly []" "logsOnly (a @ b) \<longleftrightarrow> logsOnly a \<and> logsOnly b"
  "logsOnly [logEvent ''stdout'' l]" "logsOnly [logEvent ''stderr'' l]"
  by (auto simp: logsOnly_def)

lemma firstError_simps [simp]:
  "firstError [] = None" "firstError (a @ b) = (case firstError a of None \<Rightarrow> firstError b | Some e \<Rightarrow> Some e)"
  "firstError [None] = None" "firstError [Some e] = Some e"
  by (induction a) (auto simp: firstError_def split: option.splits)


lemma prefix_linesD: "prefix (a @ l # b) c \<Longrightarrow> prefix (a @ [l]) c"
  by (metis append.assoc append_Cons append_Nil append_prefixD)

lemma stream_inv_out: "stream_inv outs errs s \<Longrightarrow> stream_inv outs errs (stepOut send s)"
  by (cases "(send, ''stdout'', st_out s, st_events s)" rule: readPipe.cases)
     (auto simp: stream_inv_def stepOut_def split: option.splits dest: prefix_linesD append_prefixD)

lemma stream_inv_err: "stream_inv outs errs s \<Longrightarrow> stream_inv outs errs (stepErr send s)"
  by (cases "(send, ''stderr'', st_err s, st_events s)" rule: readPipe.cases)
     (auto simp: stream_inv_def stepErr_def split: option.splits dest: prefix_linesD append_prefixD)

lemma readPipes_inv:
  assumes "P s"
    and "\<And>s. P s \<Longrightarrow> st_out s \<noteq> Finished \<Longrightarrow> P (stepOut send s)"
    and "\<And>s. P s \<Longrightarrow> st_err s \<noteq> Finished \<Longrightarrow> P (stepErr send s)"
  shows "P (readPipes send pick n s) \<and> st_out (readPipes send pick n s) = Finished
         \<and> st_err (readPipes send pick n s) = Finished"
  using assms
proof (induction send pick n s rule: readPipes.induct)
  case (1 send pick n s)
  show ?case
  proof (cases "st_out s \<noteq> Finished \<and> (pick n \<or> st_err s = Finished)")
    case True
    then show ?thesis using 1(1) [OF True] 1(3-5) by (simp add: readPipes.simps [of send pick n s])
  next
    case False
    then show ?thesis using 1(2) [OF False] 1(3-5) by (auto simp: readPipes.simps [of send pick n s])
  qed
qed

text \<open>Neither a failed send nor a failed read: both readers end without an error.\<close>

definition no_error :: "reader \<Rightarrow> bool" where
  "no_error r \<longleftrightarrow> (case r of Finished \<Rightarrow> True | Reading ls err \<Rightarrow> err = None)"

definition calm :: "streaming \<Rightarrow> bool" where
  "calm s \<longleftrightarrow> no_error (st_out s) \<and> no_error (st_err s) \<and> firstError (st_done s) = None"

lemma calm_step:
  assumes "\<And>n. send n = None" "calm s"
  shows "calm (stepOut send s)" "calm (stepErr send s)"
  using assms
  by (cases "(send, ''stdout'', st_out s, st_events s)" rule: readPipe.cases;
      auto simp: calm_def stepOut_def no_error_def)
     (cases "(send, ''stderr'', st_err s, st_events s)" rule: readPipe.cases;
      use assms in \<open>auto simp: calm_def stepErr_def no_error_def\<close>)

definition pipeLines :: "pipe_bytes \<Rightarrow> string list" where
  "pipeLines p = scan_upto pipeBuffer (fst p)"

definition pipeError :: "pipe_bytes \<Rightarrow> string option" where
  "pipeError p = scan_upto_error pipeBuffer (fst p) (snd p)"

lemma streamPipes_inv:
  "stream_inv (pipeLines outPipe) (pipeLines errPipe) (streamPipes send pick outPipe errPipe)
   \<and> left (st_out (streamPipes send pick outPipe errPipe)) = []
   \<and> left (st_err (streamPipes send pick outPipe errPipe)) = []"
proof -
  let ?s = "\<lparr>st_out = pipeReader outPipe, st_err = pipeReader errPipe, st_events = [], st_done = []\<rparr>"
  have "stream_inv (pipeLines outPipe) (pipeLines errPipe) ?s"
    by (simp add: stream_inv_def pipeReader_def pipeLines_def)
  from readPipes_inv [of "stream_inv (pipeLines outPipe) (pipeLines errPipe)", OF this] show ?thesis
    by (simp add: streamPipes_def stream_inv_out stream_inv_err)
qed

lemma streamPipes_calm:
  assumes "\<And>n. send n = None" "pipeError outPipe = None" "pipeError errPipe = None"
  shows "firstError (st_done (streamPipes send pick outPipe errPipe)) = None"
proof -
  let ?s = "\<lparr>st_out = pipeReader outPipe, st_err = pipeReader errPipe, st_events = [], st_done = []\<rparr>"
  have "calm ?s" using assms(2,3) by (simp add: calm_def no_error_def pipeReader_def pipeError_def)
  from readPipes_inv [of calm, OF this] show ?thesis
    using assms(1) calm_step by (fastforce simp: streamPipes_def calm_def)
qed

lemma linesOf_last [simp]:
  "linesOf ''stdout'' [lastEvent w] = []" "linesOf ''stderr'' [lastEvent w] = []"
  by (auto simp: linesOf_def lastEvent_def errorEvent_def split: option.splits)

lemma logsOnly_types: "logsOnly evs \<Longrightarrow> filter (\<lambda>e. re_type e \<noteq> ''log'') evs = []"
  by (auto simp: logsOnly_def logEvent_def filter_empty_conv)

lemma lastEvent_type: "re_type (lastEvent w) \<noteq> ''log''"
  by (simp add: lastEvent_def errorEvent_def split: option.splits)

text \<open>
  C23: Whatever the interleaving of the two readers and whatever fails, the caller gets of each
  stream a prefix of its lines in order and at most one closing event, and after it nothing.
  When the handler reports no error both streams arrived completely and the last event tells
  how the command ended.  If no read and no send fails the handler reports no error.
\<close>

theorem command_stream_delivers:
  assumes run: "RunCommandStream launch environ pick (Some send) (Some r) = (failed, evs)"
    and "trim_space (rq_command r) \<noteq> []"
    and "launch (commandTimeout (rq_timeout_seconds r)) (envList environ (rq_env r))
           (trim_space (rq_command r)) = Running outPipe errPipe waitErr"
  shows "prefix (linesOf ''stdout'' evs) (pipeLines outPipe)
    \<and> prefix (linesOf ''stderr'' evs) (pipeLines errPipe)
    \<and> filter (\<lambda>e. re_type e \<noteq> ''log'') evs \<in> {[], [lastEvent waitErr]}
    \<and> (failed = None \<longrightarrow>
         linesOf ''stdout'' evs = pipeLines outPipe \<and> linesOf ''stderr'' evs = pipeLines errPipe
         \<and> logsOnly (butlast evs) \<and> last evs = lastEvent waitErr)
    \<and> ((\<forall>n. send n = None) \<longrightarrow> pipeError outPipe = None \<longrightarrow> pipeError errPipe = None \<longrightarrow> failed = None)"
proof -
  let ?s = "streamPipes send pick outPipe errPipe"
  have inv: "stream_inv (pipeLines outPipe) (pipeLines errPipe) ?s"
    "left (st_out ?s) = []" "left (st_err ?s) = []"
    using streamPipes_inv by auto
  have out: "(failed, evs) = (case firstError (st_done ?s) of
      Some e \<Rightarrow> (Some e, st_events ?s) | None \<Rightarrow> sendEventTo send (lastEvent waitErr) (st_events ?s))"
    using assms by (simp add: RunCommandStream_def Let_def)
  show ?thesis
  proof (cases "firstError (st_done ?s)")
    case None
    then have "failed = send (length (st_events ?s))" "evs = st_events ?s @ [lastEvent waitErr]"
      using out by (simp_all add: sendEventTo_def)
    then show ?thesis
      using inv None by (auto simp: stream_inv_def logsOnly_types lastEvent_type)
  next
    case (Some e)
    then have "failed = Some e" "evs = st_events ?s" using out by simp_all
    then show ?thesis
      using inv Some streamPipes_calm [of send outPipe errPipe pick]
      by (auto simp: stream_inv_def logsOnly_types)
  qed
qed

text \<open>The stream and the single answer tell the same end of the same command.\<close>

lemma stream_end_agrees:
  assumes "sh (commandTimeout (rq_timeout_seconds r)) (envList environ (rq_env r))
       (trim_space (rq_command r)) = (out, waitErr)"
    and "trim_space (rq_command r) \<noteq> []"
  shows "re_exit_code (lastEvent waitErr) = rp_exit_code (RunCommand sh environ (Some r))
    \<and> re_error_text (lastEvent waitErr) = rp_error_text (RunCommand sh environ (Some r))
    \<and> (re_type (lastEvent waitErr) = ''result'' \<longleftrightarrow> rp_ok (RunCommand sh environ (Some r)))"
  using assms by (auto simp: RunCommand_def lastEvent_def errorEvent_def Let_def split: option.splits)

subsection \<open>A command that prints and fails\<close>

definition sample_run :: run_request where
  "sample_run = \<lparr>rq_command = '' make '', rq_timeout_seconds = 60, rq_env = [('' CC '', ''gcc'')]\<rparr>"

definition sample_failure :: cmd_failure where
  "sample_failure = \<lparr>cf_exit = Some 2, cf_deadline = False, cf_status = None, cf_text = ''exit status 2''\<rparr>"

definition sample_out :: pipe_bytes where "sample_out = (''a'' @ CHR 0x0A # ''b'', None)"

definition sample_launch :: launcher where
  "sample_launch timeout environ command =
     (if command = ''make'' \<and> environ = [''HOME=/root'', ''CC=gcc''] \<and> timeout = 60 * second
      then Running sample_out (''oops'', None) (Some sample_failure)
      else Not_started ''fork failed'')"

lemma sample_launches:
  "trim_space (rq_command sample_run) \<noteq> []"
  "sample_launch (commandTimeout (rq_timeout_seconds sample_run)) (envList [''HOME=/root''] (rq_env sample_run))
     (trim_space (rq_command sample_run))
   = Running sample_out (''oops'', None) (Some sample_failure)"
  by code_simp+

lemma command_stream_delivers_witness:
  "linesOf ''stdout'' (snd (RunCommandStream sample_launch [''HOME=/root''] even (Some (\<lambda>_. None)) (Some sample_run)))
     = [''a'', ''b'']
   \<and> last (snd (RunCommandStream sample_launch [''HOME=/root''] even (Some (\<lambda>_. None)) (Some sample_run)))
     = errorEvent 2 ''exit status 2''"
proof -
  have "pipeLines sample_out = [''a'', ''b'']"
    "pipeError sample_out = None" "pipeError (''oops'', None) = None"
    "lastEvent (Some sample_failure) = errorEvent 2 ''exit status 2''"
    by code_simp+
  note e = this
  obtain failed evs where run: "RunCommandStream sample_launch [''HOME=/root''] even (Some (\<lambda>_. None))
      (Some sample_run) = (failed, evs)"
    by (meson surj_pair)
  show ?thesis unfolding run using command_stream_delivers [OF run sample_launches] by (simp add: e)
qed

end
