(* ===== verification/Probe_Auth.thy ===== *)
theory Probe_Auth
  imports Config Go_Url
begin

text \<open>
  Who may call the agent (\<^verbatim>\<open>internal/agent/probe_listener.go\<close>): the interceptors in front of every
  handler, which admit a caller by the method's name and by the identity its TLS certificate
  carries.  A certificate is the subject's common name, the DNS names and the parsed URIs
  (a nil pointer is \<open>None\<close>); the handshake itself is the TLS library's.
\<close>

subsection \<open>Certificates and peers\<close>

record certificate =
  ct_common_name :: string
  ct_dns_names :: "string list"
  ct_uris :: "url option list"

datatype peer =
    No_peer
  | No_auth_info
  | Not_tls
  | Tls_peer "certificate list"

record identity_claims =
  cm_service_id :: string
  cm_role :: string

definition no_claims :: identity_claims where
  "no_claims = \<lparr>cm_service_id = [], cm_role = []\<rparr>"

text \<open>The kind and the value a URI claims, if it has the form the code looks for.\<close>

definition claimParts :: "url option \<Rightarrow> (string \<times> string) option" where
  "claimParts uri =
     (case uri of
        None \<Rightarrow> None
      | Some u \<Rightarrow>
          if \<not> equal_fold (trim_space (u_scheme u)) ''spiffe'' then None
          else if \<not> equal_fold (trim_space (u_host u)) ''aurora.local'' then None
          else case split_on (CHR ''/'') (trim_set ''/'' (trim_space (u_path u))) of
                 [kind, val] \<Rightarrow> Some (to_lower (trim_space kind), trim_space val)
               | _ \<Rightarrow> None)"

definition addClaim :: "url option \<Rightarrow> identity_claims \<Rightarrow> identity_claims" where
  "addClaim uri claims =
     (case claimParts uri of
        None \<Rightarrow> claims
      | Some (kind, val) \<Rightarrow>
          if kind = ''service'' then claims\<lparr>cm_service_id := val\<rparr>
          else if kind = ''role'' then claims\<lparr>cm_role := val\<rparr>
          else claims)"

definition readIdentityClaimsFromCertificateURIs :: "certificate \<Rightarrow> identity_claims" where
  "readIdentityClaimsFromCertificateURIs cert = fold addClaim (ct_uris cert) no_claims"

subsection \<open>Methods\<close>

definition allowedMethods :: "string list" where
  "allowedMethods =
     [''/aurora.agent.v1.AgentService/GetVersion'', ''/aurora.agent.v1.CommandService/RunCommand'',
      ''/aurora.agent.v1.CommandService/RunCommandStream'', ''/aurora.agent.v1.InstallerService/InstallModule'',
      ''/aurora.agent.v1.InstallerService/InstallModuleStream'', ''/aurora.agent.v1.InstallerService/RestartModule'',
      ''/aurora.agent.v1.InstallerService/UninstallModule'',
      ''/aurora.agent.v1.InstallerService/ListInstalledModules'']"

definition authorizeAdminMethod :: "string \<Rightarrow> string + unit" where
  "authorizeAdminMethod fullMethod =
     (if trim_space fullMethod \<in> set allowedMethods then Inr () else Inl ''method is not allowed'')"

subsection \<open>Authorization\<close>

definition checkClaims :: "identity_claims \<Rightarrow> string \<Rightarrow> string \<Rightarrow> string + unit" where
  "checkClaims claims expectedServiceID expectedRole =
     (let serviceID = trim_space (to_lower (cm_service_id claims));
          role = trim_space (to_lower (cm_role claims))
      in if expectedServiceID \<noteq> [] \<and> serviceID = [] then Inl ''missing service_id claim in certificate''
         else if expectedServiceID \<noteq> [] \<and> serviceID \<noteq> expectedServiceID then Inl ''unauthorized service''
         else if expectedRole \<noteq> [] \<and> role = [] then Inl ''missing role claim in certificate''
         else if expectedRole \<noteq> [] \<and> role \<noteq> expectedRole then Inl ''unauthorized role''
         else Inr ())"

definition checkCommonName :: "certificate \<Rightarrow> string \<Rightarrow> string + unit" where
  "checkCommonName cert expectedCN =
     (if equal_fold (trim_space (ct_common_name cert)) expectedCN then Inr ()
      else if list_ex (\<lambda>d. equal_fold (trim_space d) expectedCN) (ct_dns_names cert) then Inr ()
      else Inl ''unauthorized client certificate'')"

definition authorizeAdminClientFromContext ::
    "peer \<Rightarrow> string \<Rightarrow> string \<Rightarrow> string \<Rightarrow> string \<Rightarrow> string + unit" where
  "authorizeAdminClientFromContext p fullMethod expectedCN expectedServiceID expectedRole =
     (case authorizeAdminMethod fullMethod of
        Inl e \<Rightarrow> Inl e
      | Inr _ \<Rightarrow>
          (case p of
             No_peer \<Rightarrow> Inl ''missing peer auth info''
           | No_auth_info \<Rightarrow> Inl ''missing peer auth info''
           | Not_tls \<Rightarrow> Inl ''peer is not authenticated with tls''
           | Tls_peer [] \<Rightarrow> Inl ''missing peer certificate''
           | Tls_peer (cert # _) \<Rightarrow>
               if expectedServiceID \<noteq> [] \<or> expectedRole \<noteq> []
               then checkClaims (readIdentityClaimsFromCertificateURIs cert) expectedServiceID expectedRole
               else if expectedCN \<noteq> [] then checkCommonName cert expectedCN
               else Inr ()))"

text \<open>
  The interceptors: a refused caller gets the status \<^verbatim>\<open>PermissionDenied\<close> and the handler, which
  may change the state \<open>'s\<close> of the agent, is not run.  The unary and the stream interceptor
  differ in the handler's type only.
\<close>

datatype 'a reply = Permission_denied string | Handled 'a

definition expectations :: "config \<Rightarrow> string \<times> string \<times> string" where
  "expectations cfg =
     (trim_space (cfg_admin_client_cn cfg), trim_space (to_lower (cfg_admin_client_service_id cfg)),
      trim_space (to_lower (cfg_admin_client_role cfg)))"

definition authorizeAdminClientInterceptor ::
    "config \<Rightarrow> peer \<Rightarrow> string \<Rightarrow> ('s \<Rightarrow> 'a \<times> 's) \<Rightarrow> 's \<Rightarrow> 'a reply \<times> 's" where
  "authorizeAdminClientInterceptor cfg p fullMethod handler s =
     (case expectations cfg of (cn, serviceID, role) \<Rightarrow>
        case authorizeAdminClientFromContext p fullMethod cn serviceID role of
          Inl e \<Rightarrow> (Permission_denied e, s)
        | Inr _ \<Rightarrow> (case handler s of (x, s') \<Rightarrow> (Handled x, s')))"

subsection \<open>Claims\<close>

text \<open>The value of the last URI of a kind, which is what the loop leaves.\<close>

definition lastClaim :: "string \<Rightarrow> url option list \<Rightarrow> string" where
  "lastClaim kind uris =
     (let cs = filter (\<lambda>c. fst c = kind) (List.map_filter claimParts uris)
      in if cs = [] then [] else snd (last cs))"

lemma lastClaim_snoc:
  "lastClaim kind (uris @ [u]) =
     (case claimParts u of
        None \<Rightarrow> lastClaim kind uris
      | Some (k, v) \<Rightarrow> if k = kind then v else lastClaim kind uris)"
  by (auto simp: lastClaim_def List.map_filter_def split: option.splits list.splits)

lemma claims_last:
  "cm_service_id (fold addClaim uris no_claims) = lastClaim ''service'' uris
   \<and> cm_role (fold addClaim uris no_claims) = lastClaim ''role'' uris"
proof (induction uris rule: rev_induct)
  case Nil
  show ?case by (simp add: no_claims_def lastClaim_def List.map_filter_def)
next
  case (snoc u uris)
  then show ?case by (simp add: lastClaim_snoc addClaim_def split: option.splits prod.splits)
qed

lemma lastClaim_member:
  assumes "lastClaim kind uris \<noteq> []"
  shows "\<exists>u \<in> set uris. claimParts u = Some (kind, lastClaim kind uris)"
  using assms
proof (induction uris rule: rev_induct)
  case (snoc u uris)
  then show ?case by (auto simp: lastClaim_snoc split: option.splits prod.splits if_splits)
qed (simp add: lastClaim_def List.map_filter_def)

lemma checkClaims_ok:
  "checkClaims claims sid role = Inr () \<longleftrightarrow>
     (sid = [] \<or> trim_space (to_lower (cm_service_id claims)) = sid)
     \<and> (role = [] \<or> trim_space (to_lower (cm_role claims)) = role)"
  by (auto simp: checkClaims_def Let_def)

lemma authorized_cases:
  assumes "authorizeAdminClientFromContext p m cn sid role = Inr ()"
  obtains cert certs where "trim_space m \<in> set allowedMethods" "p = Tls_peer (cert # certs)"
    "if sid \<noteq> [] \<or> role \<noteq> [] then checkClaims (readIdentityClaimsFromCertificateURIs cert) sid role = Inr ()
     else if cn \<noteq> [] then checkCommonName cert cn = Inr () else True"
  using assms
  by (auto simp: authorizeAdminClientFromContext_def authorizeAdminMethod_def
      split: sum.splits peer.splits list.splits if_splits)

subsection \<open>Who is admitted\<close>

text \<open>
  The policy the interceptors implement, stated without the order of the checks: with an
  expected service or role the last URI of each expected kind decides; only without both the
  common name and the DNS names are compared, and without any expectation every certificate
  the TLS library accepted will do.
\<close>

definition matches :: "string \<Rightarrow> string \<Rightarrow> bool" where
  "matches expected val \<longleftrightarrow> expected \<in> {[], trim_space (to_lower val)}"

definition admits :: "config \<Rightarrow> certificate \<Rightarrow> bool" where
  "admits cfg cert =
     (case expectations cfg of (cn, serviceID, role) \<Rightarrow>
        if (serviceID, role) \<noteq> ([], [])
        then matches serviceID (lastClaim ''service'' (ct_uris cert))
             \<and> matches role (lastClaim ''role'' (ct_uris cert))
        else cn = [] \<or> list_ex (\<lambda>name. equal_fold (trim_space name) cn)
                          (ct_common_name cert # ct_dns_names cert))"

definition admitted :: "config \<Rightarrow> peer \<Rightarrow> string \<Rightarrow> bool" where
  "admitted cfg p fullMethod \<longleftrightarrow>
     trim_space fullMethod \<in> set allowedMethods
     \<and> (case p of Tls_peer (cert # _) \<Rightarrow> admits cfg cert | _ \<Rightarrow> False)"

lemma checkCommonName_ok:
  "checkCommonName cert cn = Inr () \<longleftrightarrow>
     list_ex (\<lambda>name. equal_fold (trim_space name) cn) (ct_common_name cert # ct_dns_names cert)"
  by (simp add: checkCommonName_def)

lemma authorize_iff:
  assumes "expectations cfg = (cn, sid, role)"
  shows "authorizeAdminClientFromContext p m cn sid role = Inr () \<longleftrightarrow> admitted cfg p m"
proof -
  have c: "checkClaims (readIdentityClaimsFromCertificateURIs cert) sid role = Inr () \<longleftrightarrow>
      matches sid (lastClaim ''service'' (ct_uris cert)) \<and> matches role (lastClaim ''role'' (ct_uris cert))" for cert
    by (auto simp: checkClaims_ok readIdentityClaimsFromCertificateURIs_def claims_last matches_def)
  show ?thesis
    using assms
    by (auto simp: admitted_def admits_def authorizeAdminClientFromContext_def authorizeAdminMethod_def c
        checkCommonName_ok split: peer.splits list.splits)
qed

text \<open>
  C16: a handler runs, on the state as it is, exactly for the eight known methods called over
  TLS with an admitted certificate; everybody else is answered with a denial and nothing
  changes.
\<close>

theorem interceptor_runs_iff_admitted:
  "\<exists>err. authorizeAdminClientInterceptor cfg p m handler s =
     (if admitted cfg p m then (Handled (fst (handler s)), snd (handler s)) else (Permission_denied err, s))"
proof -
  obtain cn sid role where e: "expectations cfg = (cn, sid, role)" by (metis surj_pair)
  show ?thesis
  proof (cases "authorizeAdminClientFromContext p m cn sid role")
    case (Inl err)
    then have "\<not> admitted cfg p m" using authorize_iff [OF e, of p m] by simp
    then show ?thesis using Inl e by (simp add: authorizeAdminClientInterceptor_def)
  next
    case (Inr u)
    then have "admitted cfg p m" using authorize_iff [OF e, of p m] by simp
    then show ?thesis using Inr e by (simp add: authorizeAdminClientInterceptor_def case_prod_beta)
  qed
qed

lemma claims_member:
  assumes "matches expected (lastClaim kind (ct_uris cert))" and "expected \<noteq> []"
  shows "\<exists>u \<in> set (ct_uris cert). \<exists>v. claimParts u = Some (kind, v) \<and> trim_space (to_lower v) = expected"
proof -
  have "lastClaim kind (ct_uris cert) \<noteq> []" using assms by (auto simp: matches_def)
  from lastClaim_member [OF this] assms show ?thesis by (auto simp: matches_def)
qed

end
