(* ===== verification/Wire_Service.thy ===== *)
theory Wire_Service
  imports Rpc_Service Command_Runner Probe_Auth
begin

text \<open>
  The agent's RPC server (\<^verbatim>\<open>internal/agent/proto_services.go\<close>, the registration in
  \<^verbatim>\<open>probe_listener.go\<close> and \<^verbatim>\<open>internal/agent/version\<close>): the conversions between the generated
  messages and the installer's own types, and the eight methods behind the interceptor.  A
  generated message is a record of the fields the code reads and sets; its getters answer
  the zero value for a nil message.
\<close>

subsection \<open>Messages\<close>

record pb_install_request =
  pi_api_version :: string
  pi_request_id :: string
  pi_module :: string
  pi_version :: string
  pi_artifact_url :: string
  pi_artifact_checksum :: string
  pi_app_host :: string
  pi_app_port :: int
  pi_env :: str_map
  pi_files :: str_map

record pb_restart_request =
  pr_api_version :: string
  pr_request_id :: string
  pr_module :: string
  pr_service_name :: string

record pb_uninstall_request =
  pu_api_version :: string
  pu_request_id :: string
  pu_module :: string
  pu_service_name :: string
  pu_unit_path :: string
  pu_binary_path :: string
  pu_env_file_path :: string
  pu_nginx_site_path :: string
  pu_asset_paths :: "string list"

record pb_log_entry =
  pl_stage :: string
  pl_message :: string

record pb_capabilities =
  pc_install :: bool
  pc_restart :: bool
  pc_uninstall :: bool
  pc_migration :: bool
  pc_admin_rpc_bootstrap :: bool
  pc_nginx_integration :: bool

record pb_install_result =
  ps_api_version :: string
  ps_module :: string
  ps_version :: string
  ps_runtime :: string
  ps_service_name :: string
  ps_unit_path :: string
  ps_binary_path :: string
  ps_env_file_path :: string
  ps_nginx_site_path :: string
  ps_asset_paths :: "string list"
  ps_endpoint :: string
  ps_status :: string
  ps_health :: string
  ps_manifest_schema_version :: string
  ps_capabilities :: pb_capabilities

text \<open>The restart and the uninstall result have the same fields, as have all three responses.\<close>

record pb_service_result =
  pv_api_version :: string
  pv_module :: string
  pv_runtime :: string
  pv_service_name :: string
  pv_status :: string
  pv_health :: string

record 'r pb_response =
  pp_api_version :: string
  pp_ok :: bool
  pp_result :: "'r option"
  pp_logs :: "pb_log_entry list"
  pp_error_text :: string

record pb_stream_event =
  pe_api_version :: string
  pe_type :: string
  pe_stage :: string
  pe_message :: string
  pe_result :: "pb_install_result option"
  pe_error_text :: string

record pb_installed_record =
  pm_api_version :: string
  pm_module :: string
  pm_version :: string
  pm_runtime :: string
  pm_service_name :: string
  pm_unit_path :: string
  pm_binary_path :: string
  pm_env_file_path :: string
  pm_nginx_site_path :: string
  pm_asset_paths :: "string list"
  pm_endpoint :: string
  pm_status :: string
  pm_health :: string
  pm_observed_at :: string
  pm_manifest_schema_version :: string
  pm_capabilities :: pb_capabilities

record pb_list_response =
  pt_api_version :: string
  pt_ok :: bool
  pt_items :: "pb_installed_record list"
  pt_error_text :: string

subsection \<open>Requests\<close>

definition fromProtoInstallModuleRequest :: "pb_install_request option \<Rightarrow> install_request option" where
  "fromProtoInstallModuleRequest req =
     map_option (\<lambda>r. \<lparr>ir_api_version = pi_api_version r, ir_request_id = pi_request_id r,
        ir_module = pi_module r, ir_version = pi_version r, ir_artifact_url = pi_artifact_url r,
        ir_artifact_checksum = pi_artifact_checksum r, ir_app_host = pi_app_host r,
        ir_app_port = pi_app_port r, ir_env = pi_env r, ir_files = pi_files r\<rparr>) req"

definition fromProtoRestartModuleRequest :: "pb_restart_request option \<Rightarrow> restart_request option" where
  "fromProtoRestartModuleRequest req =
     map_option (\<lambda>r. \<lparr>rr_api_version = pr_api_version r, rr_request_id = pr_request_id r,
        rr_module = pr_module r, rr_service_name = pr_service_name r\<rparr>) req"

definition fromProtoUninstallModuleRequest :: "pb_uninstall_request option \<Rightarrow> uninstall_request option" where
  "fromProtoUninstallModuleRequest req =
     map_option (\<lambda>r. \<lparr>ur_api_version = pu_api_version r, ur_request_id = pu_request_id r,
        ur_module = pu_module r, ur_service_name = pu_service_name r, ur_unit_path = pu_unit_path r,
        ur_binary_path = pu_binary_path r, ur_env_file_path = pu_env_file_path r,
        ur_nginx_site_path = pu_nginx_site_path r, ur_asset_paths = pu_asset_paths r\<rparr>) req"

subsection \<open>Responses\<close>

definition toProtoInstallLogEntries :: "log_entry list \<Rightarrow> pb_log_entry list" where
  "toProtoInstallLogEntries items =
     map (\<lambda>item. \<lparr>pl_stage = le_stage item, pl_message = le_message item\<rparr>) items"

definition toProtoCapabilities :: "capabilities \<Rightarrow> pb_capabilities" where
  "toProtoCapabilities v =
     \<lparr>pc_install = cap_install v, pc_restart = cap_restart v, pc_uninstall = cap_uninstall v,
      pc_migration = cap_migration v, pc_admin_rpc_bootstrap = cap_admin_rpc_bootstrap v,
      pc_nginx_integration = cap_nginx_integration v\<rparr>"

definition toProtoInstallModuleResult :: "install_result option \<Rightarrow> pb_install_result option" where
  "toProtoInstallModuleResult result =
     map_option (\<lambda>v. \<lparr>ps_api_version = is_api_version v, ps_module = is_module v, ps_version = is_version v,
        ps_runtime = is_runtime v, ps_service_name = is_service_name v, ps_unit_path = is_unit_path v,
        ps_binary_path = is_binary_path v, ps_env_file_path = is_env_file_path v,
        ps_nginx_site_path = is_nginx_site_path v, ps_asset_paths = is_asset_paths v,
        ps_endpoint = is_endpoint v, ps_status = is_status v, ps_health = is_health v,
        ps_manifest_schema_version = is_manifest_schema_version v,
        ps_capabilities = toProtoCapabilities (is_capabilities v)\<rparr>) result"

definition emptyResponse :: "'r pb_response" where
  "emptyResponse =
     \<lparr>pp_api_version = [], pp_ok = False, pp_result = None, pp_logs = [], pp_error_text = []\<rparr>"

definition toProtoInstallModuleResponse :: "install_result response option \<Rightarrow> pb_install_result pb_response" where
  "toProtoInstallModuleResponse response =
     (case response of
        None \<Rightarrow> emptyResponse
      | Some v \<Rightarrow>
          \<lparr>pp_api_version = rsp_api_version v, pp_ok = rsp_ok v,
           pp_result = toProtoInstallModuleResult (rsp_result v),
           pp_logs = toProtoInstallLogEntries (rsp_logs v), pp_error_text = rsp_error_text v\<rparr>)"

definition toProtoInstallModuleStreamEvent :: "stream_event \<Rightarrow> pb_stream_event" where
  "toProtoInstallModuleStreamEvent v =
     \<lparr>pe_api_version = ev_api_version v, pe_type = ev_type v, pe_stage = ev_stage v,
      pe_message = ev_message v, pe_result = toProtoInstallModuleResult (ev_result v),
      pe_error_text = ev_error_text v\<rparr>"

definition toProtoServiceResult :: "service_result \<Rightarrow> pb_service_result" where
  "toProtoServiceResult v =
     \<lparr>pv_api_version = sr_api_version v, pv_module = sr_module v, pv_runtime = sr_runtime v,
      pv_service_name = sr_service_name v, pv_status = sr_status v, pv_health = sr_health v\<rparr>"

definition toProtoServiceResponse :: "service_result response option \<Rightarrow> pb_service_result pb_response" where
  "toProtoServiceResponse response =
     (case response of
        None \<Rightarrow> emptyResponse
      | Some v \<Rightarrow>
          \<lparr>pp_api_version = rsp_api_version v, pp_ok = rsp_ok v,
           pp_result = map_option toProtoServiceResult (rsp_result v),
           pp_logs = toProtoInstallLogEntries (rsp_logs v), pp_error_text = rsp_error_text v\<rparr>)"

definition toProtoRestartModuleResponse :: "service_result response option \<Rightarrow> pb_service_result pb_response" where
  "toProtoRestartModuleResponse response = toProtoServiceResponse response"

definition toProtoUninstallModuleResponse :: "service_result response option \<Rightarrow> pb_service_result pb_response" where
  "toProtoUninstallModuleResponse response = toProtoServiceResponse response"

definition toProtoInstalledModuleRecord :: "installed_record \<Rightarrow> pb_installed_record" where
  "toProtoInstalledModuleRecord v =
     \<lparr>pm_api_version = in_api_version v, pm_module = in_module v, pm_version = in_version v,
      pm_runtime = in_runtime v, pm_service_name = in_service_name v, pm_unit_path = in_unit_path v,
      pm_binary_path = in_binary_path v, pm_env_file_path = in_env_file_path v,
      pm_nginx_site_path = in_nginx_site_path v, pm_asset_paths = in_asset_paths v,
      pm_endpoint = in_endpoint v, pm_status = in_status v, pm_health = in_health v,
      pm_observed_at = in_observed_at v, pm_manifest_schema_version = in_manifest_schema_version v,
      pm_capabilities = toProtoCapabilities (in_capabilities v)\<rparr>"

text \<open>The handler's items are a result here: none when it failed.\<close>

definition toProtoListInstalledModulesResponse :: "installed_record list response option \<Rightarrow> pb_list_response" where
  "toProtoListInstalledModulesResponse response =
     (case response of
        None \<Rightarrow> \<lparr>pt_api_version = [], pt_ok = False, pt_items = [], pt_error_text = []\<rparr>
      | Some v \<Rightarrow>
          \<lparr>pt_api_version = rsp_api_version v, pt_ok = rsp_ok v,
           pt_items = (case rsp_result v of None \<Rightarrow> [] | Some items \<Rightarrow> map toProtoInstalledModuleRecord items),
           pt_error_text = rsp_error_text v\<rparr>)"

subsection \<open>Version\<close>

record version_response =
  vr_node_id :: string
  vr_agent_version :: string
  vr_probe_listen_addr :: string
  vr_checked_at_unix :: int

definition GetVersion :: "config \<Rightarrow> int \<Rightarrow> version_response" where
  "GetVersion cfg now =
     \<lparr>vr_node_id = cfg_node_id cfg, vr_agent_version = cfg_agent_version cfg,
      vr_probe_listen_addr = cfg_probe_listen_addr cfg, vr_checked_at_unix = now\<rparr>"

subsection \<open>Methods\<close>

text \<open>
  What the server works on: the installer's state, and the commands handed to \<^verbatim>\<open>bash\<close>.  The
  environment: the installer's, the inherited variables, \<^verbatim>\<open>bash\<close> with one answer or two pipes,
  the turns of the readers, the senders of the two streams and the clock.
\<close>

record server =
  sv_agent :: agent
  sv_shell :: "string list"

record server_env =
  se_ext :: ext
  se_environ :: "string list"
  se_bash :: shell
  se_launch :: launcher
  se_pick :: "nat \<Rightarrow> bool"
  se_send :: "nat \<Rightarrow> string option"
  se_now :: int

datatype rpc_call =
    Call_GetVersion
  | Call_RunCommand "run_request option"
  | Call_RunCommandStream "run_request option"
  | Call_InstallModule "pb_install_request option"
  | Call_InstallModuleStream "pb_install_request option"
  | Call_RestartModule "pb_restart_request option"
  | Call_UninstallModule "pb_uninstall_request option"
  | Call_ListInstalledModules "string option"

datatype rpc_reply =
    Version_reply version_response
  | Command_reply run_response
  | Command_events "string option" "run_event list"
  | Install_reply "pb_install_result pb_response"
  | Install_events "string option" "pb_stream_event list"
  | Restart_reply "pb_service_result pb_response"
  | Uninstall_reply "pb_service_result pb_response"
  | List_reply pb_list_response

fun methodName :: "rpc_call \<Rightarrow> string" where
  "methodName Call_GetVersion = ''/aurora.agent.v1.AgentService/GetVersion''"
| "methodName (Call_RunCommand _) = ''/aurora.agent.v1.CommandService/RunCommand''"
| "methodName (Call_RunCommandStream _) = ''/aurora.agent.v1.CommandService/RunCommandStream''"
| "methodName (Call_InstallModule _) = ''/aurora.agent.v1.InstallerService/InstallModule''"
| "methodName (Call_InstallModuleStream _) = ''/aurora.agent.v1.InstallerService/InstallModuleStream''"
| "methodName (Call_RestartModule _) = ''/aurora.agent.v1.InstallerService/RestartModule''"
| "methodName (Call_UninstallModule _) = ''/aurora.agent.v1.InstallerService/UninstallModule''"
| "methodName (Call_ListInstalledModules _) = ''/aurora.agent.v1.InstallerService/ListInstalledModules''"

text \<open>The command a request hands to \<^verbatim>\<open>bash\<close>, if it gets that far.\<close>

definition shellCommands :: "run_request option \<Rightarrow> string list" where
  "shellCommands req =
     (case req of None \<Rightarrow> [] | Some r \<Rightarrow> if trim_space (rq_command r) = [] then [] else [trim_space (rq_command r)])"

text \<open>The unary method copies a nil request to an empty one, the stream passes it on.\<close>

definition commandRequest :: "run_request option \<Rightarrow> run_request" where
  "commandRequest req =
     (case req of None \<Rightarrow> \<lparr>rq_command = [], rq_timeout_seconds = 0, rq_env = []\<rparr> | Some r \<Rightarrow> r)"

definition serveCommand :: "server_env \<Rightarrow> run_request option \<Rightarrow> server \<Rightarrow> rpc_reply \<times> server" where
  "serveCommand E req s =
     (Command_reply (RunCommand (se_bash E) (se_environ E) (Some (commandRequest req))),
      s\<lparr>sv_shell := sv_shell s @ shellCommands req\<rparr>)"

definition serveCommandStream :: "server_env \<Rightarrow> run_request option \<Rightarrow> server \<Rightarrow> rpc_reply \<times> server" where
  "serveCommandStream E req s =
     (case RunCommandStream (se_launch E) (se_environ E) (se_pick E) (Some (se_send E)) req of
        (err, evs) \<Rightarrow> (Command_events err evs, s\<lparr>sv_shell := sv_shell s @ shellCommands req\<rparr>))"

definition onAgent :: "(agent \<Rightarrow> 'a \<times> agent) \<Rightarrow> ('a \<Rightarrow> rpc_reply) \<Rightarrow> server \<Rightarrow> rpc_reply \<times> server" where
  "onAgent f reply s = (case f (sv_agent s) of (x, ag) \<Rightarrow> (reply x, s\<lparr>sv_agent := ag\<rparr>))"

definition serveInstall :: "server_env \<Rightarrow> pb_install_request option \<Rightarrow> server \<Rightarrow> rpc_reply \<times> server" where
  "serveInstall E req =
     onAgent (InstallModule (se_ext E) (fromProtoInstallModuleRequest req))
       (\<lambda>r. Install_reply (toProtoInstallModuleResponse (Some r)))"

definition serveInstallStream :: "server_env \<Rightarrow> pb_install_request option \<Rightarrow> server \<Rightarrow> rpc_reply \<times> server" where
  "serveInstallStream E req s =
     (case InstallModuleStream True (se_ext E) (fromProtoInstallModuleRequest req) (sv_agent s) of
        (err, evs, ag) \<Rightarrow>
          (Install_events err (map toProtoInstallModuleStreamEvent evs), s\<lparr>sv_agent := ag\<rparr>))"

definition serveRestart :: "server_env \<Rightarrow> pb_restart_request option \<Rightarrow> server \<Rightarrow> rpc_reply \<times> server" where
  "serveRestart E req =
     onAgent (RestartModule (se_ext E) (fromProtoRestartModuleRequest req))
       (\<lambda>r. Restart_reply (toProtoRestartModuleResponse (Some r)))"

definition serveUninstall :: "server_env \<Rightarrow> pb_uninstall_request option \<Rightarrow> server \<Rightarrow> rpc_reply \<times> server" where
  "serveUninstall E req =
     onAgent (UninstallModule (se_ext E) (fromProtoUninstallModuleRequest req))
       (\<lambda>r. Uninstall_reply (toProtoUninstallModuleResponse (Some r)))"

text \<open>The listing's request is copied from the getters: a nil request has the empty version.\<close>

definition serveList :: "server_env \<Rightarrow> string option \<Rightarrow> server \<Rightarrow> rpc_reply \<times> server" where
  "serveList E version =
     onAgent (ListInstalledModules (se_ext E) (Some (case version of None \<Rightarrow> [] | Some v \<Rightarrow> v)))
       (\<lambda>r. List_reply (toProtoListInstalledModulesResponse (Some r)))"

fun handle :: "config \<Rightarrow> server_env \<Rightarrow> rpc_call \<Rightarrow> server \<Rightarrow> rpc_reply \<times> server" where
  "handle cfg E Call_GetVersion s = (Version_reply (GetVersion cfg (se_now E)), s)"
| "handle cfg E (Call_RunCommand req) s = serveCommand E req s"
| "handle cfg E (Call_RunCommandStream req) s = serveCommandStream E req s"
| "handle cfg E (Call_InstallModule req) s = serveInstall E req s"
| "handle cfg E (Call_InstallModuleStream req) s = serveInstallStream E req s"
| "handle cfg E (Call_RestartModule req) s = serveRestart E req s"
| "handle cfg E (Call_UninstallModule req) s = serveUninstall E req s"
| "handle cfg E (Call_ListInstalledModules version) s = serveList E version s"

text \<open>A call that was decoded, behind the interceptor.\<close>

definition serveCall :: "config \<Rightarrow> server_env \<Rightarrow> peer \<times> rpc_call \<Rightarrow> server \<Rightarrow> rpc_reply reply \<times> server" where
  "serveCall cfg E pc s =
     authorizeAdminClientInterceptor cfg (fst pc) (methodName (snd pc)) (handle cfg E (snd pc)) s"

definition serveCalls :: "config \<Rightarrow> server_env \<Rightarrow> (peer \<times> rpc_call) list \<Rightarrow> server \<Rightarrow> server" where
  "serveCalls cfg E calls s = fold (\<lambda>pc s. snd (serveCall cfg E pc s)) calls s"


subsection \<open>Nothing is lost on the wire\<close>

text \<open>How a client reads the messages of the agent and writes its requests, field by field.\<close>

definition readCapabilities :: "pb_capabilities \<Rightarrow> capabilities" where
  "readCapabilities v =
     \<lparr>cap_install = pc_install v, cap_restart = pc_restart v, cap_uninstall = pc_uninstall v,
      cap_migration = pc_migration v, cap_admin_rpc_bootstrap = pc_admin_rpc_bootstrap v,
      cap_nginx_integration = pc_nginx_integration v\<rparr>"

definition readInstallResult :: "pb_install_result \<Rightarrow> install_result" where
  "readInstallResult v =
     \<lparr>is_api_version = ps_api_version v, is_module = ps_module v, is_version = ps_version v,
      is_runtime = ps_runtime v, is_service_name = ps_service_name v,
      is_unit_path = ps_unit_path v, is_binary_path = ps_binary_path v,
      is_env_file_path = ps_env_file_path v, is_nginx_site_path = ps_nginx_site_path v,
      is_asset_paths = ps_asset_paths v, is_endpoint = ps_endpoint v, is_status = ps_status v,
      is_health = ps_health v, is_manifest_schema_version = ps_manifest_schema_version v,
      is_capabilities = readCapabilities (ps_capabilities v)\<rparr>"

definition readServiceResult :: "pb_service_result \<Rightarrow> service_result" where
  "readServiceResult v =
     \<lparr>sr_api_version = pv_api_version v, sr_module = pv_module v, sr_runtime = pv_runtime v,
      sr_service_name = pv_service_name v, sr_status = pv_status v, sr_health = pv_health v\<rparr>"

definition readInstalledRecord :: "pb_installed_record \<Rightarrow> installed_record" where
  "readInstalledRecord v =
     \<lparr>in_api_version = pm_api_version v, in_module = pm_module v, in_version = pm_version v,
      in_runtime = pm_runtime v, in_service_name = pm_service_name v,
      in_unit_path = pm_unit_path v, in_binary_path = pm_binary_path v,
      in_env_file_path = pm_env_file_path v, in_nginx_site_path = pm_nginx_site_path v,
      in_asset_paths = pm_asset_paths v, in_endpoint = pm_endpoint v, in_status = pm_status v,
      in_health = pm_health v, in_observed_at = pm_observed_at v,
      in_manifest_schema_version = pm_manifest_schema_version v,
      in_capabilities = readCapabilities (pm_capabilities v)\<rparr>"

definition writeInstallRequest :: "install_request \<Rightarrow> pb_install_request" where
  "writeInstallRequest v =
     \<lparr>pi_api_version = ir_api_version v, pi_request_id = ir_request_id v,
      pi_module = ir_module v, pi_version = ir_version v, pi_artifact_url = ir_artifact_url v,
      pi_artifact_checksum = ir_artifact_checksum v, pi_app_host = ir_app_host v,
      pi_app_port = ir_app_port v, pi_env = ir_env v, pi_files = ir_files v\<rparr>"

definition writeRestartRequest :: "restart_request \<Rightarrow> pb_restart_request" where
  "writeRestartRequest v =
     \<lparr>pr_api_version = rr_api_version v, pr_request_id = rr_request_id v,
      pr_module = rr_module v, pr_service_name = rr_service_name v\<rparr>"

definition writeUninstallRequest :: "uninstall_request \<Rightarrow> pb_uninstall_request" where
  "writeUninstallRequest v =
     \<lparr>pu_api_version = ur_api_version v, pu_request_id = ur_request_id v,
      pu_module = ur_module v, pu_service_name = ur_service_name v,
      pu_unit_path = ur_unit_path v, pu_binary_path = ur_binary_path v,
      pu_env_file_path = ur_env_file_path v, pu_nginx_site_path = ur_nginx_site_path v,
      pu_asset_paths = ur_asset_paths v\<rparr>"

definition readLog :: "pb_log_entry \<Rightarrow> log_entry" where
  "readLog v = \<lparr>le_stage = pl_stage v, le_message = pl_message v\<rparr>"

definition readResponse :: "('p \<Rightarrow> 'r) \<Rightarrow> 'p pb_response \<Rightarrow> 'r response" where
  "readResponse f v =
     \<lparr>rsp_api_version = pp_api_version v, rsp_ok = pp_ok v, rsp_result = map_option f (pp_result v),
      rsp_logs = map readLog (pp_logs v), rsp_error_text = pp_error_text v\<rparr>"

definition readEvent :: "pb_stream_event \<Rightarrow> stream_event" where
  "readEvent v =
     \<lparr>ev_api_version = pe_api_version v, ev_type = pe_type v, ev_stage = pe_stage v,
      ev_message = pe_message v, ev_result = map_option readInstallResult (pe_result v),
      ev_error_text = pe_error_text v\<rparr>"

lemma read_capabilities [simp]: "readCapabilities (toProtoCapabilities v) = v"
  by (simp add: readCapabilities_def toProtoCapabilities_def)

lemma read_install_result [simp]: "map_option readInstallResult (toProtoInstallModuleResult r) = r"
  by (cases r) (simp_all add: toProtoInstallModuleResult_def readInstallResult_def)

lemma read_service_result [simp]: "readServiceResult (toProtoServiceResult v) = v"
  by (simp add: toProtoServiceResult_def readServiceResult_def)

lemma read_installed_record [simp]: "readInstalledRecord (toProtoInstalledModuleRecord v) = v"
  by (simp add: toProtoInstalledModuleRecord_def readInstalledRecord_def)

lemma read_logs [simp]: "map readLog (toProtoInstallLogEntries logs) = logs"
  by (induction logs) (simp_all add: toProtoInstallLogEntries_def readLog_def)

lemma read_service_response [simp]: "readResponse readServiceResult (toProtoServiceResponse (Some v)) = v"
  by (simp add: readResponse_def toProtoServiceResponse_def option.map_comp comp_def option.map_ident)

lemma map_read_records [simp]: "map readInstalledRecord (map toProtoInstalledModuleRecord items) = items"
  by (simp add: comp_def)

text \<open>
  A client reads from the agent's messages exactly what the handlers answered and the
  handlers get exactly what the client asked: no field of a request, a result, a log line, an
  event or an inventory record is dropped or exchanged on the way.
\<close>

theorem wire_messages_complete:
  "readResponse readInstallResult (toProtoInstallModuleResponse (Some inst)) = inst
   \<and> readResponse readServiceResult (toProtoRestartModuleResponse (Some rest)) = rest
   \<and> readResponse readServiceResult (toProtoUninstallModuleResponse (Some unin)) = unin
   \<and> readEvent (toProtoInstallModuleStreamEvent ev) = ev
   \<and> map readInstalledRecord (pt_items (toProtoListInstalledModulesResponse (Some ls)))
       = (case rsp_result ls of None \<Rightarrow> [] | Some items \<Rightarrow> items)
   \<and> fromProtoInstallModuleRequest (Some (writeInstallRequest qi)) = Some qi
   \<and> fromProtoRestartModuleRequest (Some (writeRestartRequest qr)) = Some qr
   \<and> fromProtoUninstallModuleRequest (Some (writeUninstallRequest qu)) = Some qu"
proof (intro conjI)
  show "readResponse readInstallResult (toProtoInstallModuleResponse (Some inst)) = inst"
    by (simp add: readResponse_def toProtoInstallModuleResponse_def)
  show "readEvent (toProtoInstallModuleStreamEvent ev) = ev"
    by (simp add: readEvent_def toProtoInstallModuleStreamEvent_def)
  show "map readInstalledRecord (pt_items (toProtoListInstalledModulesResponse (Some ls)))
      = (case rsp_result ls of None \<Rightarrow> [] | Some items \<Rightarrow> items)"
    by (cases "rsp_result ls") (simp_all add: toProtoListInstalledModulesResponse_def del: map_map)
qed (simp_all add: toProtoRestartModuleResponse_def toProtoUninstallModuleResponse_def
       fromProtoInstallModuleRequest_def writeInstallRequest_def fromProtoRestartModuleRequest_def
       writeRestartRequest_def fromProtoUninstallModuleRequest_def writeUninstallRequest_def)

subsection \<open>The interceptor is the only gate\<close>

definition certified :: "config \<Rightarrow> peer \<Rightarrow> bool" where
  "certified cfg p = (case p of Tls_peer (cert # _) \<Rightarrow> admits cfg cert | _ \<Rightarrow> False)"

lemma methods_allowed: "trim_space (methodName c) \<in> set allowedMethods"
  by (cases c) (simp_all add: trimmed_printable allowedMethods_def)

lemma admitted_certified: "admitted cfg p (methodName c) = certified cfg p"
  by (simp add: admitted_def certified_def methods_allowed split: peer.splits)

lemma serve_cases:
  "\<exists>err. serveCall cfg E (p, c) s =
     (if certified cfg p then (Handled (fst (handle cfg E c s)), snd (handle cfg E c s))
      else (Permission_denied err, s))"
proof -
  obtain cn sid role where e: "expectations cfg = (cn, sid, role)" by (metis surj_pair)
  have iff: "authorizeAdminClientFromContext p (methodName c) cn sid role = Inr () \<longleftrightarrow> certified cfg p"
    using authorize_iff [OF e, of p "methodName c"] by (simp add: admitted_certified)
  show ?thesis
  proof (cases "authorizeAdminClientFromContext p (methodName c) cn sid role")
    case (Inl err)
    then show ?thesis using iff e by (simp add: serveCall_def authorizeAdminClientInterceptor_def)
  next
    case (Inr u)
    then show ?thesis using iff e
      by (simp add: serveCall_def authorizeAdminClientInterceptor_def case_prod_beta)
  qed
qed

text \<open>
  C10: Calls of peers without an admitted certificate are invisible: whatever calls arrive in
  whatever order, the server ends as if only the certified ones had been made, and each of
  those gets its handler's answer, whichever of the eight methods it names.
\<close>

theorem denied_calls_invisible:
  "serveCalls cfg E calls s = serveCalls cfg E (filter (\<lambda>pc. certified cfg (fst pc)) calls) s
   \<and> (\<exists>err. fst (serveCall cfg E (p, c) s) =
        (if certified cfg p then Handled (fst (handle cfg E c s)) else Permission_denied err))"
proof
  show "serveCalls cfg E calls s = serveCalls cfg E (filter (\<lambda>pc. certified cfg (fst pc)) calls) s"
  proof (induction calls arbitrary: s)
    case (Cons pc calls)
    obtain p c where pc: "pc = (p, c)" by fastforce
    obtain err where "serveCall cfg E (p, c) s =
        (if certified cfg p then (Handled (fst (handle cfg E c s)), snd (handle cfg E c s))
         else (Permission_denied err, s))"
      using serve_cases by blast
    then show ?case using Cons.IH by (simp add: serveCalls_def pc)
  qed (simp add: serveCalls_def)
  show "\<exists>err. fst (serveCall cfg E (p, c) s) =
      (if certified cfg p then Handled (fst (handle cfg E c s)) else Permission_denied err)"
    using serve_cases [of cfg E p c s] by (metis fst_conv)
qed

end
