(* ===== verification/Go_Float.thy ===== *)
theory Go_Float
  imports Complex_Main Prelude
begin

text \<open>
  Go's \<^verbatim>\<open>float64\<close> as far as the agent computes with it: a finite value is the rational number
  it denotes, and every operation is the exact one followed by \<open>f64\<close>, rounding to 53
  significant bits, half to even (IEEE 754).  The exponent is not bounded: the agent's values
  are quotients and products of 64-bit integers, far from the limits of binary64.  The sign of
  zero is not kept, no operation of the agent observes it.
\<close>

subsection \<open>Powers of two\<close>

definition pow2 :: "int \<Rightarrow> rat" where
  "pow2 e = (if 0 \<le> e then 2 ^ nat e else 1 / 2 ^ nat (- e))"

lemma pow2_pos [simp]: "0 < pow2 e"
  by (simp add: pow2_def)

lemma pow2_ge [simp]: "0 \<le> pow2 e"
  by (rule less_imp_le) simp

lemma pow2_nz [simp]: "pow2 e \<noteq> 0"
  using pow2_pos [of e] by linarith

lemma pow2_Suc: "pow2 (e + 1) = 2 * pow2 e"
proof (cases "0 \<le> e")
  case True
  then show ?thesis by (simp add: pow2_def nat_add_distrib)
next
  case False
  then have "nat (- e) = Suc (nat (- (e + 1)))" by simp
  with False show ?thesis by (auto simp: pow2_def)
qed

lemma pow2_add_nat: "pow2 (e + int n) = 2 ^ n * pow2 e"
proof (induction n)
  case (Suc n)
  have "pow2 (e + int (Suc n)) = pow2 ((e + int n) + 1)" by (simp add: algebra_simps)
  then show ?case using Suc by (simp only: pow2_Suc) simp
qed simp

lemma pow2_mono: "a \<le> b \<Longrightarrow> pow2 a \<le> pow2 b"
proof -
  assume "a \<le> b"
  then have "pow2 b = 2 ^ nat (b - a) * pow2 a" using pow2_add_nat [of a "nat (b - a)"] by simp
  then show ?thesis by simp
qed

lemma pow2_diff: "pow2 (int a - int b) = 2 ^ a / 2 ^ b"
proof -
  have "pow2 (- int b + int a) = 2 ^ a * pow2 (- int b)" by (rule pow2_add_nat)
  moreover have "pow2 (- int b) = 1 / 2 ^ b" by (cases "b = 0") (simp_all add: pow2_def)
  ultimately show ?thesis by (simp add: algebra_simps)
qed

subsection \<open>The binary exponent\<close>

fun bit_len :: "nat \<Rightarrow> nat" where
  "bit_len n = (if n = 0 then 0 else Suc (bit_len (n div 2)))"

declare bit_len.simps [simp del]

lemma bit_len_bounds: "n < 2 ^ bit_len n \<and> (0 < n \<longrightarrow> 2 ^ bit_len n \<le> 2 * n)"
proof (induction n rule: bit_len.induct)
  case (1 n)
  show ?case
  proof (cases "n = 0")
    case False
    then have "n div 2 < 2 ^ bit_len (n div 2)" using 1 by simp
    moreover have "2 ^ bit_len (n div 2) \<le> n"
      using 1 False by (cases "n = 1") (auto simp: bit_len.simps [of 0])
    ultimately show ?thesis using False by (simp add: bit_len.simps [of n])
  qed (simp add: bit_len.simps)
qed

definition expo :: "rat \<Rightarrow> int" where
  "expo x =
     (let (a, b) = quotient_of x; e = int (bit_len (nat a)) - int (bit_len (nat b))
      in if pow2 e \<le> x then e else e - 1)"

lemma expo_bounds:
  assumes "0 < x"
  shows "pow2 (expo x) \<le> x \<and> x < 2 * pow2 (expo x)"
proof -
  obtain a b where q: "quotient_of x = (a, b)" by (metis surj_pair)
  then have b: "0 < b" and x: "x = of_int a / of_int b"
    by (rule quotient_of_denom_pos, rule quotient_of_div)
  with assms have a: "0 < a" by (simp add: zero_less_divide_iff)
  let ?la = "bit_len (nat a)" and ?lb = "bit_len (nat b)"
  let ?e = "int ?la - int ?lb"
  have na: "nat a < 2 ^ ?la" "2 ^ ?la \<le> 2 * nat a" using bit_len_bounds [of "nat a"] a by simp_all
  have nb: "nat b < 2 ^ ?lb" "2 ^ ?lb \<le> 2 * nat b" using bit_len_bounds [of "nat b"] b by simp_all
  have ra: "of_int a = (of_nat (nat a) :: rat)" "of_int b = (of_nat (nat b) :: rat)" using a b by simp_all
  have A: "(of_int a :: rat) < 2 ^ ?la" "(2 ^ ?la :: rat) \<le> 2 * of_int a"
    using na unfolding ra by (metis of_nat_less_iff of_nat_numeral of_nat_power, metis of_nat_le_iff of_nat_mult of_nat_numeral of_nat_power)
  have B: "(of_int b :: rat) < 2 ^ ?lb" "(2 ^ ?lb :: rat) \<le> 2 * of_int b"
    using nb unfolding ra by (metis of_nat_less_iff of_nat_numeral of_nat_power, metis of_nat_le_iff of_nat_mult of_nat_numeral of_nat_power)
  have p: "pow2 ?e = 2 ^ ?la / 2 ^ ?lb" by (rule pow2_diff)
  have up: "x < 2 * pow2 ?e"
  proof -
    have "x < 2 ^ ?la / of_int b" using A(1) b by (simp add: x divide_strict_right_mono)
    also have "\<dots> \<le> 2 ^ ?la / (2 ^ ?lb / 2)" using B(2) b by (intro divide_left_mono) auto
    finally show ?thesis by (simp add: p field_simps)
  qed
  have low: "pow2 ?e < 2 * x"
  proof -
    have "pow2 ?e \<le> 2 * of_int a / 2 ^ ?lb" unfolding p using A(2) by (simp add: divide_right_mono)
    also have "\<dots> < 2 * of_int a / of_int b" using B(1) a b by (intro divide_strict_left_mono) auto
    finally show ?thesis by (simp add: x)
  qed
  have e1: "pow2 ?e = 2 * pow2 (?e - 1)" using pow2_Suc [of "?e - 1"] by simp
  have "expo x = (if pow2 ?e \<le> x then ?e else ?e - 1)" by (simp add: expo_def q Let_def)
  then show ?thesis using up low e1 by simp
qed

lemma expo_mono:
  assumes "0 < x" "x \<le> y"
  shows "expo x \<le> expo y"
proof (rule ccontr)
  assume "\<not> expo x \<le> expo y"
  then have "pow2 (expo y + 1) \<le> pow2 (expo x)" by (intro pow2_mono) simp
  moreover have "pow2 (expo x) \<le> x" "y < 2 * pow2 (expo y)"
    using expo_bounds [of x] expo_bounds [of y] assms by auto
  ultimately show False using assms by (simp add: pow2_Suc)
qed

subsection \<open>Rounding\<close>

definition round_even :: "rat \<Rightarrow> int" where
  "round_even x =
     (let f = floor x; r = x - of_int f in
      if r < 1 / 2 then f else if 1 / 2 < r then f + 1 else if even f then f else f + 1)"

lemma round_even_near: "\<bar>of_int (round_even x) - x\<bar> \<le> 1 / 2"
  using floor_correct [of x] by (auto simp: round_even_def Let_def)

lemma round_even_int [simp]: "round_even (of_int n) = n"
  by (simp add: round_even_def)

lemma round_even_mono:
  assumes "x \<le> y"
  shows "round_even x \<le> round_even y"
proof (cases "floor x = floor y")
  case True
  then show ?thesis using assms by (auto simp: round_even_def Let_def)
next
  case False
  then have "floor x + 1 \<le> floor y" using floor_mono [OF assms] by simp
  moreover have "round_even x \<le> floor x + 1" "floor y \<le> round_even y" by (auto simp: round_even_def Let_def)
  ultimately show ?thesis by simp
qed

definition f64_pos :: "rat \<Rightarrow> rat" where
  "f64_pos x = (let u = pow2 (expo x - 52) in of_int (round_even (x / u)) * u)"

definition f64 :: "rat \<Rightarrow> rat" where
  "f64 x = (if x = 0 then 0 else if x < 0 then - f64_pos (- x) else f64_pos x)"

lemma mantissa_bounds:
  assumes "0 < x"
  shows "2 ^ 52 \<le> x / pow2 (expo x - 52)" "x / pow2 (expo x - 52) < 2 ^ 53"
proof -
  have e: "pow2 (expo x) = 2 ^ 52 * pow2 (expo x - 52)" using pow2_add_nat [of "expo x - 52" 52] by simp
  show "2 ^ 52 \<le> x / pow2 (expo x - 52)" "x / pow2 (expo x - 52) < 2 ^ 53"
    using expo_bounds [OF assms] unfolding e by (simp_all add: field_simps)
qed

lemma round_even_bounds:
  "of_int a \<le> x \<Longrightarrow> a \<le> round_even x" "x \<le> of_int a \<Longrightarrow> round_even x \<le> a"
  using round_even_mono [of "of_int a" x] round_even_mono [of x "of_int a"] by simp_all

lemma f64_pos_bounds:
  assumes "0 < x"
  shows "pow2 (expo x) \<le> f64_pos x" "f64_pos x \<le> 2 * pow2 (expo x)"
proof -
  let ?u = "pow2 (expo x - 52)"
  have e: "pow2 (expo x) = 2 ^ 52 * ?u" using pow2_add_nat [of "expo x - 52" 52] by simp
  have "2 ^ 52 \<le> round_even (x / ?u)"
    by (rule round_even_bounds(1)) (use mantissa_bounds(1) [OF assms] in simp)
  then have l: "(2 ^ 52 :: rat) \<le> of_int (round_even (x / ?u))"
    by (metis of_int_le_iff of_int_numeral of_int_power)
  have "x / ?u \<le> of_int (2 ^ 53)" using mantissa_bounds(2) [OF assms] by simp
  then have "round_even (x / ?u) \<le> 2 ^ 53" by (rule round_even_bounds(2))
  then have r: "of_int (round_even (x / ?u)) \<le> (2 ^ 53 :: rat)"
    by (metis of_int_le_iff of_int_numeral of_int_power)
  show "pow2 (expo x) \<le> f64_pos x" using l by (simp add: f64_pos_def Let_def e)
  show "f64_pos x \<le> 2 * pow2 (expo x)" using mult_right_mono [OF r, of ?u] by (simp add: f64_pos_def Let_def e)
qed

lemma f64_pos_mono:
  assumes "0 < x" "x \<le> y"
  shows "f64_pos x \<le> f64_pos y"
proof (cases "expo x = expo y")
  case True
  have "round_even (x / pow2 (expo y - 52)) \<le> round_even (y / pow2 (expo y - 52))"
    by (rule round_even_mono) (rule divide_right_mono [OF assms(2)], simp)
  then show ?thesis by (simp add: f64_pos_def Let_def True)
next
  case False
  then have "pow2 (expo x + 1) \<le> pow2 (expo y)" using expo_mono [OF assms] by (intro pow2_mono) simp
  then show ?thesis
    using f64_pos_bounds(2) [of x] f64_pos_bounds(1) [of y] assms by (simp add: pow2_Suc)
qed

lemma f64_zero [simp]: "f64 0 = 0"
  by (simp add: f64_def)

lemma f64_gt_zero: "0 < x \<Longrightarrow> 0 < f64 x"
  using less_le_trans [OF pow2_pos f64_pos_bounds(1)] by (simp add: f64_def)

lemma f64_nonneg: "0 \<le> x \<Longrightarrow> 0 \<le> f64 x"
  using f64_gt_zero [of x] by (cases "x = 0") auto

lemma f64_mono: "0 \<le> x \<Longrightarrow> x \<le> y \<Longrightarrow> f64 x \<le> f64 y"
  using f64_pos_mono [of x y] f64_nonneg [of y] by (cases "x = 0") (auto simp: f64_def)

text \<open>Integers below $2^{53}$ are represented exactly.\<close>

lemma f64_nat:
  assumes "n < 2 ^ 53"
  shows "f64 (of_nat n) = of_nat n"
proof (cases "n = 0")
  case False
  let ?x = "of_nat n :: rat"
  have x: "0 < ?x" using False by simp
  have "expo ?x \<le> 52"
  proof (rule ccontr)
    assume "\<not> expo ?x \<le> 52"
    then have "pow2 53 \<le> pow2 (expo ?x)" by (intro pow2_mono) simp
    then have "2 ^ 53 \<le> ?x" using expo_bounds [OF x] by (simp add: pow2_def)
    then show False using assms by (metis not_le of_nat_le_iff of_nat_numeral of_nat_power)
  qed
  then obtain k where k: "52 - expo ?x = int k" by (metis diff_ge_0_iff_ge nonneg_int_cases)
  then have u: "pow2 (expo ?x - 52) * 2 ^ k = 1"
    using pow2_add_nat [of "expo ?x - 52" k] by (simp add: pow2_def algebra_simps)
  then have i: "1 / pow2 (expo ?x - 52) = 2 ^ k"
    by (simp add: field_simps)
  have d: "?x / pow2 (expo ?x - 52) = of_int (int n * 2 ^ k)"
    using i by (metis divide_inverse inverse_eq_divide of_int_mult of_int_numeral of_int_of_nat_eq of_int_power)
  have "f64_pos ?x = of_int (int n * 2 ^ k) * pow2 (expo ?x - 52)"
    by (simp only: f64_pos_def Let_def d round_even_int)
  also have "\<dots> = ?x" using u by (simp add: mult.commute)
  finally show ?thesis using x by (simp add: f64_def)
qed simp

lemma f64_numeral:
  "f64 1 = 1" "f64 100 = 100" "f64 1000 = 1000"
  using f64_nat [of 1] f64_nat [of 100] f64_nat [of 1000] by simp_all

text \<open>The relative error of one rounding.\<close>

lemma f64_error:
  assumes "0 < x"
  shows "\<bar>f64 x - x\<bar> \<le> x / 2 ^ 53"
proof -
  let ?u = "pow2 (expo x - 52)"
  let ?d = "of_int (round_even (x / ?u)) - x / ?u"
  have "\<bar>?d\<bar> \<le> 1 / 2" by (rule round_even_near)
  then have "\<bar>?d\<bar> * ?u \<le> 1 / 2 * ?u" by (rule mult_right_mono) simp
  also have "\<bar>?d\<bar> * ?u = \<bar>?d * ?u\<bar>" by (simp add: abs_mult)
  also have "?d * ?u = of_int (round_even (x / ?u)) * ?u - x" by (simp add: left_diff_distrib)
  finally have "\<bar>of_int (round_even (x / ?u)) * ?u - x\<bar> \<le> ?u / 2" by simp
  moreover have "?u / 2 \<le> x / 2 ^ 53" using mantissa_bounds(1) [OF assms] by (simp add: field_simps)
  ultimately show ?thesis using assms by (simp add: f64_def f64_pos_def Let_def)
qed

subsection \<open>Quotients\<close>

datatype float64 = Finite rat | Infinite bool | NaN

text \<open>The division of two finite values; the divisor zero is a positive zero.\<close>

definition fdiv :: "rat \<Rightarrow> rat \<Rightarrow> float64" where
  "fdiv x y = (if y \<noteq> 0 then Finite (f64 (x / y)) else if x = 0 then NaN else Infinite (x < 0))"

definition fmul :: "float64 \<Rightarrow> rat \<Rightarrow> float64" where
  "fmul v k =
     (case v of
        Finite x \<Rightarrow> Finite (f64 (x * k))
      | Infinite neg \<Rightarrow> if k = 0 then NaN else Infinite (neg \<noteq> (k < 0))
      | NaN \<Rightarrow> NaN)"

lemma fdiv_nz: "y \<noteq> 0 \<Longrightarrow> fdiv x y = Finite (f64 (x / y))"
  by (simp add: fdiv_def)

text \<open>Sum, comparison and quotient of values that may be infinite or no number.\<close>

definition fadd :: "float64 \<Rightarrow> float64 \<Rightarrow> float64" where
  "fadd a b =
     (case (a, b) of
        (Finite x, Finite y) \<Rightarrow> Finite (f64 (x + y))
      | (Infinite n, Infinite m) \<Rightarrow> if n = m then Infinite n else NaN
      | (NaN, _) \<Rightarrow> NaN
      | (_, NaN) \<Rightarrow> NaN
      | (Infinite n, Finite _) \<Rightarrow> Infinite n
      | (Finite _, Infinite m) \<Rightarrow> Infinite m)"

definition fgreater :: "float64 \<Rightarrow> float64 \<Rightarrow> bool" where
  "fgreater a b \<longleftrightarrow>
     (case (a, b) of
        (Finite x, Finite y) \<Rightarrow> y < x
      | (Infinite n, Infinite m) \<Rightarrow> \<not> n \<and> m
      | (NaN, _) \<Rightarrow> False
      | (_, NaN) \<Rightarrow> False
      | (Infinite n, Finite _) \<Rightarrow> \<not> n
      | (Finite _, Infinite m) \<Rightarrow> m)"

definition fquot :: "float64 \<Rightarrow> rat \<Rightarrow> float64" where
  "fquot v k =
     (case v of Finite x \<Rightarrow> fdiv x k | Infinite neg \<Rightarrow> Infinite (neg \<noteq> (k < 0)) | NaN \<Rightarrow> NaN)"

end
