(* ===== verification/Metrics.thy ===== *)
theory Metrics
  imports Go_Float Config
begin

text \<open>
  The metrics the agent reports (\<^verbatim>\<open>internal/agent/basic_metrics_loop.go\<close>, \<^verbatim>\<open>internal/model\<close> and
  the policy and report calls of \<^verbatim>\<open>internal/adminrpc/rpc.go\<close>): rates and percentages computed
  from two readings of 64-bit counters, and the loop that samples, batches and sends them.
  \<^verbatim>\<open>uint64\<close> and \<^verbatim>\<open>int64\<close> are 64-bit words with wrap-around, \<^verbatim>\<open>float64\<close> is theory Go_Float's.
\<close>

type_synonym i64 = "64 word"

subsection \<open>Readings and records\<close>

record node_metrics =
  nm_node_id :: string
  nm_timestamp :: i64
  nm_cpu_total :: u64
  nm_cpu_user :: u64
  nm_cpu_system :: u64
  nm_cpu_idle :: u64
  nm_cpu_iowait :: u64
  nm_mem_total :: u64
  nm_mem_available :: u64
  nm_mem_used :: u64
  nm_disk_read :: u64
  nm_disk_write :: u64
  nm_net_rx :: u64
  nm_net_tx :: u64
  nm_load :: "rat \<times> rat \<times> rat"
  nm_uptime :: u64

record gpu_record =
  gp_count :: u64
  gp_util :: float64
  gp_mem_used :: u64
  gp_mem_total :: u64

record service_record =
  sm_service :: string
  sm_cpu :: float64
  sm_mem_used :: u64
  sm_disk_read :: float64
  sm_disk_write :: float64
  sm_net_rx :: float64
  sm_net_tx :: float64
  sm_gpu_util :: float64
  sm_gpu_mem :: u64

record basic_record =
  bm_timestamp :: i64
  bm_cpu :: float64
  bm_mem_used :: u64
  bm_mem_total :: u64
  bm_disk_read :: float64
  bm_disk_write :: float64
  bm_net_rx :: float64
  bm_net_tx :: float64
  bm_gpu :: gpu_record
  bm_services :: "service_record list"
  bm_uptime :: u64

record service_counters =
  sc_service :: string
  sc_timestamp :: i64
  sc_cpu_nsec :: u64
  sc_mem_used :: u64
  sc_disk_read :: u64
  sc_disk_write :: u64
  sc_net_rx :: u64
  sc_net_tx :: u64
  sc_gpu_util :: float64
  sc_gpu_mem :: u64

record counter_snapshot =
  cs_timestamp :: i64
  cs_cpu_nsec :: u64
  cs_disk_read :: u64
  cs_disk_write :: u64
  cs_net_rx :: u64
  cs_net_tx :: u64

definition no_gpu :: gpu_record where
  "no_gpu = \<lparr>gp_count = 0, gp_util = Finite 0, gp_mem_used = 0, gp_mem_total = 0\<rparr>"

subsection \<open>Differences and rates\<close>

definition deltaCounterU64 :: "u64 \<Rightarrow> u64 \<Rightarrow> u64" where
  "deltaCounterU64 cur prev = (if cur < prev then 0 else cur - prev)"

definition clampPercent :: "float64 \<Rightarrow> float64" where
  "clampPercent v =
     (case v of
        Finite x \<Rightarrow> if x < 0 then Finite 0 else if 100 < x then Finite 100 else Finite x
      | Infinite neg \<Rightarrow> if neg then Finite 0 else Finite 100
      | NaN \<Rightarrow> NaN)"

definition float_u64 :: "u64 \<Rightarrow> rat" where "float_u64 w = f64 (of_nat (unat w))"
definition float_i64 :: "i64 \<Rightarrow> rat" where "float_i64 w = f64 (of_int (sint w))"

definition elapsedSeconds :: "i64 \<Rightarrow> i64 \<Rightarrow> rat" where
  "elapsedSeconds cur prev = f64 (float_i64 (cur - prev) / 1000)"

definition rate :: "u64 \<Rightarrow> u64 \<Rightarrow> rat \<Rightarrow> float64" where
  "rate cur prev seconds = fdiv (float_u64 (deltaCounterU64 cur prev)) seconds"

definition cpuPercent :: "u64 \<Rightarrow> u64 \<Rightarrow> u64 \<Rightarrow> u64 \<Rightarrow> float64" where
  "cpuPercent tot prevTotal idle prevIdle =
     (let totalDelta = deltaCounterU64 tot prevTotal in
      if 0 < totalDelta
      then let idleDelta = deltaCounterU64 idle prevIdle; busyDelta = totalDelta - idleDelta
           in fmul (fdiv (float_u64 busyDelta) (float_u64 totalDelta)) 100
      else Finite 0)"

definition computeBasicMetricRecord :: "node_metrics \<Rightarrow> node_metrics \<Rightarrow> bool \<Rightarrow> basic_record" where
  "computeBasicMetricRecord cur prev hasPrev =
     (let bare = \<lparr>bm_timestamp = nm_timestamp cur, bm_cpu = Finite 0, bm_mem_used = nm_mem_used cur,
                  bm_mem_total = nm_mem_total cur, bm_disk_read = Finite 0, bm_disk_write = Finite 0,
                  bm_net_rx = Finite 0, bm_net_tx = Finite 0, bm_gpu = no_gpu, bm_services = [],
                  bm_uptime = nm_uptime cur\<rparr>;
          seconds = elapsedSeconds (nm_timestamp cur) (nm_timestamp prev)
      in if \<not> hasPrev \<or> nm_timestamp cur <=s nm_timestamp prev then bare
         else if seconds \<le> 0 then bare
         else bare\<lparr>bm_cpu := cpuPercent (nm_cpu_total cur) (nm_cpu_total prev) (nm_cpu_idle cur) (nm_cpu_idle prev),
                   bm_disk_read := rate (nm_disk_read cur) (nm_disk_read prev) seconds,
                   bm_disk_write := rate (nm_disk_write cur) (nm_disk_write prev) seconds,
                   bm_net_rx := rate (nm_net_rx cur) (nm_net_rx prev) seconds,
                   bm_net_tx := rate (nm_net_tx cur) (nm_net_tx prev) seconds\<rparr>)"

definition bareServiceRecord :: "service_counters \<Rightarrow> service_record" where
  "bareServiceRecord item =
     \<lparr>sm_service = sc_service item, sm_cpu = Finite 0, sm_mem_used = sc_mem_used item,
      sm_disk_read = Finite 0, sm_disk_write = Finite 0, sm_net_rx = Finite 0, sm_net_tx = Finite 0,
      sm_gpu_util = sc_gpu_util item, sm_gpu_mem = sc_gpu_mem item\<rparr>"

definition serviceRecord :: "int \<Rightarrow> service_counters \<Rightarrow> counter_snapshot option \<Rightarrow> service_record" where
  "serviceRecord cores item prev =
     (let record0 = bareServiceRecord item in
      case prev of
        None \<Rightarrow> record0
      | Some p \<Rightarrow>
          if \<not> cs_timestamp p <s sc_timestamp item then record0
          else let elapsedSec = elapsedSeconds (sc_timestamp item) (cs_timestamp p);
                   elapsedNSec = (sc_timestamp item - cs_timestamp p) * 1000000;
                   record1 =
                     (if 0 < elapsedSec
                      then record0\<lparr>sm_disk_read := rate (sc_disk_read item) (cs_disk_read p) elapsedSec,
                                   sm_disk_write := rate (sc_disk_write item) (cs_disk_write p) elapsedSec,
                                   sm_net_rx := rate (sc_net_rx item) (cs_net_rx p) elapsedSec,
                                   sm_net_tx := rate (sc_net_tx item) (cs_net_tx p) elapsedSec\<rparr>
                      else record0)
               in if 0 <s elapsedNSec
                  then record1\<lparr>sm_cpu := clampPercent (fmul
                         (fdiv (float_u64 (deltaCounterU64 (sc_cpu_nsec item) (cs_cpu_nsec p)))
                            (float_i64 (elapsedNSec * word_of_int cores))) 100)\<rparr>
                  else record1)"

definition snapshotOf :: "service_counters \<Rightarrow> counter_snapshot" where
  "snapshotOf item =
     \<lparr>cs_timestamp = sc_timestamp item, cs_cpu_nsec = sc_cpu_nsec item, cs_disk_read = sc_disk_read item,
      cs_disk_write = sc_disk_write item, cs_net_rx = sc_net_rx item, cs_net_tx = sc_net_tx item\<rparr>"

text \<open>\<open>numCPU\<close> is \<^verbatim>\<open>runtime.NumCPU()\<close>.  A nil map of previous snapshots is an empty one.\<close>

definition computeServiceMetricRecords ::
    "int \<Rightarrow> service_counters list \<Rightarrow> (string \<Rightarrow> counter_snapshot option)
       \<Rightarrow> service_record list \<times> (string \<Rightarrow> counter_snapshot option)" where
  "computeServiceMetricRecords numCPU current prev =
     (let cores = (if numCPU \<le> 0 then 1 else numCPU) in
      foldl (\<lambda>(out, nxt) item.
          (out @ [serviceRecord cores item (prev (sc_service item))],
           nxt(sc_service item \<mapsto> snapshotOf item)))
        ([], \<lambda>_. None) current)"

subsection \<open>Facts about counters and percentages\<close>

lemma unat_deltaCounter: "unat (deltaCounterU64 cur prev) = unat cur - unat prev"
  by (auto simp: deltaCounterU64_def word_less_nat_alt unat_sub_if_size)

lemma deltaCounter_pos: "0 < deltaCounterU64 cur prev \<longleftrightarrow> prev < cur"
  by (simp add: word_less_nat_alt unat_deltaCounter)

definition percentage :: "float64 \<Rightarrow> bool" where
  "percentage v \<longleftrightarrow> (case v of Finite x \<Rightarrow> 0 \<le> x \<and> x \<le> 100 | _ \<Rightarrow> False)"

definition nonneg :: "float64 \<Rightarrow> bool" where
  "nonneg v \<longleftrightarrow> (case v of Finite x \<Rightarrow> 0 \<le> x | _ \<Rightarrow> False)"

lemma float_u64_nonneg [simp]: "0 \<le> float_u64 w"
  unfolding float_u64_def by (rule f64_nonneg) (rule of_nat_0_le_iff)

lemma float_u64_pos: "0 < w \<Longrightarrow> 0 < float_u64 w"
  unfolding float_u64_def by (rule f64_gt_zero) (simp only: of_nat_0_less_iff word_less_nat_alt unat_0)

lemma float_u64_mono: "v \<le> w \<Longrightarrow> float_u64 v \<le> float_u64 w"
  unfolding float_u64_def by (rule f64_mono) (simp_all only: of_nat_0_le_iff of_nat_le_iff word_le_nat_alt)

lemma rate_nonneg: "0 < seconds \<Longrightarrow> nonneg (rate cur prev seconds)"
  by (simp add: rate_def fdiv_nz nonneg_def f64_nonneg)

lemma share_percentage:
  assumes "part \<le> whole" "0 < whole"
  shows "percentage (fmul (fdiv (float_u64 part) (float_u64 whole)) 100)"
proof -
  let ?q = "float_u64 part / float_u64 whole"
  have w: "0 < float_u64 whole" by (rule float_u64_pos [OF assms(2)])
  have "?q \<le> 1" using float_u64_mono [OF assms(1)] w by simp
  moreover have q0: "0 \<le> ?q" using w by simp
  ultimately have q: "0 \<le> f64 ?q" "f64 ?q \<le> 1"
    using f64_mono [of ?q 1] f64_nonneg [of ?q] by (simp_all add: f64_numeral)
  then have "f64 (f64 ?q * 100) \<le> 100" using f64_mono [of "f64 ?q * 100" 100] by (simp add: f64_numeral)
  then show ?thesis using q w by (simp add: percentage_def fdiv_nz fmul_def f64_nonneg)
qed

lemma cpuPercent_percentage:
  assumes "deltaCounterU64 idle idle0 \<le> deltaCounterU64 tot tot0"
  shows "percentage (cpuPercent tot tot0 idle idle0)"
proof -
  let ?t = "deltaCounterU64 tot tot0" and ?i = "deltaCounterU64 idle idle0"
  have "?t - ?i \<le> ?t" using assms by (rule word_sub_le)
  then show ?thesis
    using share_percentage [of "?t - ?i" ?t] by (auto simp: cpuPercent_def Let_def percentage_def)
qed

lemma elapsed_seconds_pos:
  assumes "computeBasicMetricRecord cur prev True = r" "bm_disk_read r \<noteq> Finite 0"
  shows "0 < elapsedSeconds (nm_timestamp cur) (nm_timestamp prev)"
  using assms by (auto simp: computeBasicMetricRecord_def Let_def split: if_splits)

text \<open>
  as long as the idle counter did not grow more than the total, the reported CPU usage is
  a percentage and all rates are non-negative numbers; counters that went backwards count as
  no progress.
\<close>

theorem computeBasicMetricRecord_ranges:
  assumes "deltaCounterU64 (nm_cpu_idle cur) (nm_cpu_idle prev)
             \<le> deltaCounterU64 (nm_cpu_total cur) (nm_cpu_total prev)"
  shows "percentage (bm_cpu (computeBasicMetricRecord cur prev hasPrev))
    \<and> list_all nonneg
        (map (\<lambda>f. f (computeBasicMetricRecord cur prev hasPrev)) [bm_disk_read, bm_disk_write, bm_net_rx, bm_net_tx])
    \<and> bm_mem_used (computeBasicMetricRecord cur prev hasPrev) = nm_mem_used cur
    \<and> unat (deltaCounterU64 (nm_net_rx cur) (nm_net_rx prev)) = unat (nm_net_rx cur) - unat (nm_net_rx prev)"
proof -
  have z: "percentage (Finite 0)" "nonneg (Finite 0)" by (simp_all add: percentage_def nonneg_def)
  show ?thesis
    using cpuPercent_percentage [OF assms] z
    by (auto simp: computeBasicMetricRecord_def Let_def rate_nonneg unat_deltaCounter)
qed

text \<open>
  Without that the difference wraps around: after one tick of the total and two of the idle
  counter the busy time is $2^{64} - 1$ ticks.
\<close>

lemma float_u64_small: "n < 2 ^ 53 \<Longrightarrow> float_u64 (word_of_nat n) = of_nat n"
  unfolding float_u64_def using f64_nat [of n] by (simp add: unat_of_nat take_bit_nat_eq_self)

lemma cpuPercent_wraps: "\<not> percentage (cpuPercent 101 100 52 50)"
proof -
  have d: "deltaCounterU64 101 100 = 1" "deltaCounterU64 52 50 = 2" by (simp_all add: deltaCounterU64_def)
  have one: "float_u64 1 = 1" using float_u64_small [of 1] by simp
  have "(2 ^ 52 :: u64) \<le> - 1" by (rule word_order.extremum)
  then have "float_u64 (2 ^ 52) \<le> float_u64 (- 1)" by (rule float_u64_mono)
  moreover have "float_u64 (2 ^ 52) = 2 ^ 52" using float_u64_small [of "2 ^ 52"] by simp
  ultimately have b: "2 ^ 52 \<le> float_u64 (- 1)" by simp
  have m: "f64 (2 ^ 52) = 2 ^ 52" using f64_nat [of "2 ^ 52"] by simp
  have b2: "2 ^ 52 \<le> f64 (float_u64 (- 1))" using f64_mono [OF _ b] m by simp
  then have "f64 (2 ^ 52) \<le> f64 (f64 (float_u64 (- 1)) * 100)" by (intro f64_mono) simp_all
  then have "100 < f64 (f64 (float_u64 (- 1)) * 100)" using m by simp
  then show ?thesis by (simp add: cpuPercent_def d one fdiv_nz fmul_def percentage_def)
qed

lemma clampPercent_range: "clampPercent v = NaN \<or> percentage (clampPercent v)"
  by (auto simp: clampPercent_def percentage_def split: float64.splits)

subsection \<open>The metrics policy\<close>

definition secondsAsDuration :: "int \<Rightarrow> duration \<Rightarrow> duration" where
  "secondsAsDuration seconds fallback = (if seconds \<le> 0 then fallback else wrap64 (seconds * second))"

record metrics_policy =
  mp_stream_enabled :: bool
  mp_batch_flush :: duration
  mp_batch_sample :: duration
  mp_stream_sample :: duration
  mp_max_batch :: int

record policy_response =
  pr_stream_enabled :: bool
  pr_batch_flush_seconds :: int
  pr_batch_sample_seconds :: int
  pr_stream_sample_seconds :: int
  pr_max_batch :: int

definition defaultMetricsPolicy :: metrics_policy where
  "defaultMetricsPolicy =
     \<lparr>mp_stream_enabled = False, mp_batch_flush = 3 * minute, mp_batch_sample = 10 * second,
      mp_stream_sample = 3 * second, mp_max_batch = 2048\<rparr>"

text \<open>\<^verbatim>\<open>GetMetricsPolicy\<close> after a successful call; \<open>None\<close> is a nil response.\<close>

definition policyOfResponse :: "policy_response option \<Rightarrow> metrics_policy" where
  "policyOfResponse resp =
     (case resp of
        None \<Rightarrow> defaultMetricsPolicy
      | Some r \<Rightarrow>
          \<lparr>mp_stream_enabled = pr_stream_enabled r,
           mp_batch_flush = secondsAsDuration (pr_batch_flush_seconds r) (mp_batch_flush defaultMetricsPolicy),
           mp_batch_sample = secondsAsDuration (pr_batch_sample_seconds r) (mp_batch_sample defaultMetricsPolicy),
           mp_stream_sample = secondsAsDuration (pr_stream_sample_seconds r) (mp_stream_sample defaultMetricsPolicy),
           mp_max_batch = (if 0 < pr_max_batch r then pr_max_batch r else mp_max_batch defaultMetricsPolicy)\<rparr>)"

lemma secondsAsDuration_exact:
  "0 < s \<Longrightarrow> s \<le> 9223372036 \<Longrightarrow> secondsAsDuration s fallback = s * second"
  by (simp add: secondsAsDuration_def second_def wrap64_id)

text \<open>One second more than fits makes the interval negative.\<close>

lemma secondsAsDuration_overflow: "secondsAsDuration 9223372037 fallback = - 9223372036709551616"
  by (simp add: secondsAsDuration_def second_def wrap64_def)

definition policy_ok :: "metrics_policy \<Rightarrow> bool" where
  "policy_ok p \<longleftrightarrow> 0 < mp_batch_flush p \<and> 0 < mp_batch_sample p \<and> 0 < mp_stream_sample p \<and> 0 < mp_max_batch p"

definition fits :: "int \<Rightarrow> bool" where
  "fits s \<longleftrightarrow> s \<le> 9223372036"

lemma secondsAsDuration_pos: "fits s \<Longrightarrow> 0 < fallback \<Longrightarrow> 0 < secondsAsDuration s fallback"
  by (cases "s \<le> 0") (simp_all add: secondsAsDuration_exact fits_def second_def, simp add: secondsAsDuration_def)

subsection \<open>The sampling loop\<close>

text \<open>
  The events the loop selects from, each with what the calls it makes return: a policy tick
  carries the loaded policy, a sample tick the collectors' results and whether the report made
  in it (if one is made) succeeds.
\<close>

datatype loop_event =
    Context_done bool
  | Policy_tick "metrics_policy option"
  | Sample_tick "node_metrics option" "(service_counters list \<times> gpu_record) option" bool
  | Flush_tick bool

datatype loop_output =
    Sampled basic_record
  | Reported string "basic_record list" bool

record loop_state =
  lp_policy :: metrics_policy
  lp_prev :: "node_metrics option"
  lp_services :: "string \<Rightarrow> counter_snapshot option"
  lp_batch :: "basic_record list"
  lp_sample_every :: duration
  lp_flush_every :: duration
  lp_done :: bool

definition sampleInterval :: "metrics_policy \<Rightarrow> duration" where
  "sampleInterval p = (if mp_stream_enabled p then mp_stream_sample p else mp_batch_sample p)"

text \<open>\<^verbatim>\<open>time.NewTicker\<close> panics on a period that is not positive; \<open>None\<close> is that panic.\<close>

definition startLoop :: "metrics_policy option \<Rightarrow> loop_state option" where
  "startLoop loaded =
     (let p = (case loaded of None \<Rightarrow> defaultMetricsPolicy | Some q \<Rightarrow> q) in
      if sampleInterval p \<le> 0 \<or> mp_batch_flush p \<le> 0 then None
      else Some \<lparr>lp_policy = p, lp_prev = None, lp_services = (\<lambda>_. None), lp_batch = [],
                 lp_sample_every = sampleInterval p, lp_flush_every = mp_batch_flush p, lp_done = False\<rparr>)"

definition resetTickers :: "loop_state \<Rightarrow> loop_state" where
  "resetTickers s =
     (let nextSample = sampleInterval (lp_policy s); nextFlush = mp_batch_flush (lp_policy s)
      in s\<lparr>lp_sample_every := (if nextSample \<le> 0 then 10 * second else nextSample),
           lp_flush_every := (if nextFlush \<le> 0 then 3 * minute else nextFlush)\<rparr>)"

definition flushBatch :: "bool \<Rightarrow> loop_state \<Rightarrow> loop_output list \<times> loop_state" where
  "flushBatch ok s =
     (if lp_batch s = [] then ([], s)
      else ([Reported ''batch'' (lp_batch s) ok], if ok then s\<lparr>lp_batch := []\<rparr> else s))"

definition policyTick :: "metrics_policy option \<Rightarrow> loop_state \<Rightarrow> loop_state" where
  "policyTick loaded s =
     (let old = lp_policy s; new = (case loaded of None \<Rightarrow> old | Some q \<Rightarrow> q); s1 = s\<lparr>lp_policy := new\<rparr> in
      if mp_stream_enabled old \<noteq> mp_stream_enabled new \<or> mp_batch_flush old \<noteq> mp_batch_flush new
         \<or> mp_batch_sample old \<noteq> mp_batch_sample new \<or> mp_stream_sample old \<noteq> mp_stream_sample new
      then resetTickers s1 else s1)"

definition sampleRecord ::
    "int \<Rightarrow> node_metrics \<Rightarrow> (service_counters list \<times> gpu_record) option \<Rightarrow> loop_state
       \<Rightarrow> basic_record \<times> (string \<Rightarrow> counter_snapshot option)" where
  "sampleRecord numCPU raw services s =
     (let (snapshots, gpu) = (case services of None \<Rightarrow> ([], no_gpu) | Some sg \<Rightarrow> sg);
          record0 = (case lp_prev s of
              None \<Rightarrow> computeBasicMetricRecord raw raw False
            | Some prev \<Rightarrow> computeBasicMetricRecord raw prev True);
          (recs, nxt) = computeServiceMetricRecords numCPU snapshots (lp_services s)
      in (record0\<lparr>bm_gpu := gpu, bm_services := recs\<rparr>, nxt))"

definition sampleTick ::
    "int \<Rightarrow> node_metrics option \<Rightarrow> (service_counters list \<times> gpu_record) option \<Rightarrow> bool \<Rightarrow> loop_state
       \<Rightarrow> loop_output list \<times> loop_state" where
  "sampleTick numCPU collected services ok s =
     (case collected of
        None \<Rightarrow> ([], s)
      | Some raw \<Rightarrow>
          (let (r, nxt) = sampleRecord numCPU raw services s;
               s1 = s\<lparr>lp_prev := Some raw, lp_services := nxt\<rparr>
           in if mp_stream_enabled (lp_policy s) then ([Reported ''stream'' [r] ok], s1)
              else let s2 = s1\<lparr>lp_batch := lp_batch s1 @ [r]\<rparr> in
                if 0 < mp_max_batch (lp_policy s) \<and> mp_max_batch (lp_policy s) \<le> int (length (lp_batch s2))
                then (case flushBatch ok s2 of (outs, s3) \<Rightarrow> (Sampled r # outs, s3))
                else ([Sampled r], s2)))"

fun loopStep :: "int \<Rightarrow> loop_event \<Rightarrow> loop_state \<Rightarrow> loop_output list \<times> loop_state" where
  "loopStep numCPU (Context_done ok) s = (case flushBatch ok s of (outs, s1) \<Rightarrow> (outs, s1\<lparr>lp_done := True\<rparr>))"
| "loopStep numCPU (Policy_tick loaded) s = ([], policyTick loaded s)"
| "loopStep numCPU (Sample_tick collected services ok) s = sampleTick numCPU collected services ok s"
| "loopStep numCPU (Flush_tick ok) s = (if mp_stream_enabled (lp_policy s) then ([], s) else flushBatch ok s)"

fun runLoop :: "int \<Rightarrow> loop_event list \<Rightarrow> loop_state \<Rightarrow> loop_output list \<times> loop_state" where
  "runLoop numCPU [] s = ([], s)"
| "runLoop numCPU (e # es) s =
     (if lp_done s then ([], s)
      else case loopStep numCPU e s of (outs, s1) \<Rightarrow>
        case runLoop numCPU es s1 of (outs', s2) \<Rightarrow> (outs @ outs', s2))"

text \<open>The records that were taken for the batch, and those the control plane has acknowledged.\<close>

fun sampled :: "loop_output list \<Rightarrow> basic_record list" where
  "sampled [] = []"
| "sampled (Sampled r # outs) = r # sampled outs"
| "sampled (Reported _ _ _ # outs) = sampled outs"

fun delivered :: "loop_output list \<Rightarrow> basic_record list" where
  "delivered [] = []"
| "delivered (Sampled _ # outs) = delivered outs"
| "delivered (Reported mode rs ok # outs) =
     (if mode = ''batch'' \<and> ok then rs else []) @ delivered outs"

lemma sampled_append [simp]: "sampled (xs @ ys) = sampled xs @ sampled ys"
  by (induction xs rule: sampled.induct) auto

lemma delivered_append [simp]: "delivered (xs @ ys) = delivered xs @ delivered ys"
  by (induction xs rule: delivered.induct) auto

definition accounted :: "loop_state \<Rightarrow> loop_output list \<times> loop_state \<Rightarrow> bool" where
  "accounted s res \<longleftrightarrow> delivered (fst res) @ lp_batch (snd res) = lp_batch s @ sampled (fst res)"

lemma flush_accounted: "accounted s (flushBatch ok s)"
  by (auto simp: accounted_def flushBatch_def)

lemma policyTick_batch: "lp_batch (policyTick loaded s) = lp_batch s"
  by (simp add: policyTick_def resetTickers_def Let_def)

lemma sample_accounted: "accounted s (sampleTick numCPU c svc ok s)"
  by (auto simp: accounted_def sampleTick_def Let_def flushBatch_def split: option.splits prod.splits)

lemma step_accounted: "accounted s (loopStep numCPU e s)"
proof (cases e)
  case (Context_done ok)
  then show ?thesis using flush_accounted [of s ok] by (auto simp: accounted_def split: prod.splits)
next
  case (Policy_tick x)
  then show ?thesis by (simp add: accounted_def policyTick_batch)
qed (use flush_accounted sample_accounted in \<open>simp_all add: accounted_def\<close>)

lemma run_accounted: "accounted s (runLoop numCPU es s)"
proof (induction es arbitrary: s)
  case (Cons e es)
  obtain o1 s1 where e: "loopStep numCPU e s = (o1, s1)" by (metis surj_pair)
  obtain o2 s2 where r: "runLoop numCPU es s1 = (o2, s2)" by (metis surj_pair)
  show ?case
    using step_accounted [of s numCPU e] Cons.IH [of s1] e r
    by (auto simp: accounted_def)
qed (simp add: accounted_def)

text \<open>
  C17: no batch record is lost or sent twice, over any sequence of ticks, policy changes and
  failing reports: what has been acknowledged followed by what is still in the batch is exactly
  what was sampled, in order.
\<close>

theorem batch_conserved:
  "startLoop loaded = Some s \<and> runLoop numCPU es s = (outs, s') \<Longrightarrow>
     delivered outs @ lp_batch s' = sampled outs"
proof -
  assume a: "startLoop loaded = Some s \<and> runLoop numCPU es s = (outs, s')"
  then have "lp_batch s = []" by (auto simp: startLoop_def Let_def split: if_splits option.splits)
  then show ?thesis using run_accounted [of s numCPU es] a by (simp add: accounted_def)
qed

definition tickers_ok :: "loop_state \<Rightarrow> bool" where
  "tickers_ok s \<longleftrightarrow> 0 < lp_sample_every s \<and> 0 < lp_flush_every s"

lemma flush_tickers [simp]: "tickers_ok (snd (flushBatch ok s)) = tickers_ok s"
  by (simp add: flushBatch_def tickers_ok_def)

lemma reset_tickers [simp]: "tickers_ok (resetTickers s)"
  by (simp add: resetTickers_def Let_def tickers_ok_def duration_defs)

lemma policyTick_tickers: "tickers_ok s \<Longrightarrow> tickers_ok (policyTick loaded s)"
  by (simp add: policyTick_def Let_def) (simp add: tickers_ok_def)

lemma tickers_cong:
  "lp_sample_every s' = lp_sample_every s \<Longrightarrow> lp_flush_every s' = lp_flush_every s \<Longrightarrow> tickers_ok s' = tickers_ok s"
  by (simp add: tickers_ok_def)

lemma sampleTick_tickers: "tickers_ok (snd (sampleTick numCPU c svc ok s)) = tickers_ok s"
proof (cases c)
  case (Some raw)
  obtain r nxt where r: "sampleRecord numCPU raw svc s = (r, nxt)" by (metis surj_pair)
  let ?s1 = "s\<lparr>lp_prev := Some raw, lp_services := nxt\<rparr>"
  let ?s2 = "?s1\<lparr>lp_batch := lp_batch ?s1 @ [r]\<rparr>"
  have "tickers_ok ?s1 = tickers_ok s" "tickers_ok ?s2 = tickers_ok s" by (rule tickers_cong; simp)+
  then show ?thesis using Some r by (simp add: sampleTick_def Let_def case_prod_beta)
qed (simp add: sampleTick_def)

lemma step_tickers: "tickers_ok s \<Longrightarrow> tickers_ok (snd (loopStep numCPU e s))"
proof (cases e)
  case (Context_done ok)
  assume "tickers_ok s"
  then have "tickers_ok (snd (flushBatch ok s))" by simp
  then show ?thesis using Context_done by (simp add: case_prod_beta tickers_ok_def)
qed (simp_all add: policyTick_tickers sampleTick_tickers)

lemma run_tickers: "tickers_ok s \<Longrightarrow> tickers_ok (snd (runLoop numCPU es s))"
proof (induction es arbitrary: s)
  case (Cons e es)
  then show ?case using Cons.IH [OF step_tickers [OF Cons.prems]] by (simp add: case_prod_beta)
qed simp

definition response_fits :: "policy_response \<Rightarrow> bool" where
  "response_fits r \<longleftrightarrow>
     fits (pr_batch_flush_seconds r) \<and> fits (pr_batch_sample_seconds r) \<and> fits (pr_stream_sample_seconds r)"

lemma policyOfResponse_ok: "response_fits r \<Longrightarrow> policy_ok (policyOfResponse (Some r))"
  by (auto simp: policy_ok_def policyOfResponse_def response_fits_def defaultMetricsPolicy_def duration_defs
      intro!: secondsAsDuration_pos)

text \<open>
  C19: with a policy whose intervals are at most 9223372036 seconds the loop starts, and in
  every state it reaches, whatever policies are loaded later, both tickers have a positive
  period.
\<close>

theorem metrics_loop_starts:
  assumes "response_fits r"
  shows "\<exists>s. startLoop (Some (policyOfResponse (Some r))) = Some s
     \<and> (\<forall>numCPU es. 0 < lp_sample_every (snd (runLoop numCPU es s)) \<and> 0 < lp_flush_every (snd (runLoop numCPU es s)))"
proof -
  let ?p = "policyOfResponse (Some r)"
  have p: "0 < sampleInterval ?p" "0 < mp_batch_flush ?p"
    using policyOfResponse_ok [OF assms] by (simp_all add: policy_ok_def sampleInterval_def)
  then obtain s where s: "startLoop (Some ?p) = Some s" "tickers_ok s"
    by (simp add: startLoop_def Let_def tickers_ok_def)
  then have "tickers_ok (snd (runLoop numCPU es s))" for numCPU es by (simp add: run_tickers)
  with s(1) show ?thesis by (auto simp: tickers_ok_def)
qed

definition sample_response :: "int \<Rightarrow> policy_response" where
  "sample_response s =
     \<lparr>pr_stream_enabled = False, pr_batch_flush_seconds = 180, pr_batch_sample_seconds = s,
      pr_stream_sample_seconds = 0, pr_max_batch = 1\<rparr>"

theorem metrics_loop_starts_witness:
  "\<exists>s. startLoop (Some (policyOfResponse (Some (sample_response 10)))) = Some s"
  using metrics_loop_starts [of "sample_response 10"]
  by (auto simp: response_fits_def fits_def sample_response_def)

text \<open>Beyond that bound the first ticker is created with a negative period.\<close>

lemma metrics_loop_overflow: "startLoop (Some (policyOfResponse (Some (sample_response 9223372037)))) = None"
  by (simp add: startLoop_def policyOfResponse_def sample_response_def sampleInterval_def secondsAsDuration_overflow)

definition sample_node :: "nat \<Rightarrow> node_metrics" where
  "sample_node n =
     \<lparr>nm_node_id = ''n'', nm_timestamp = of_nat (1000 * n), nm_cpu_total = of_nat (10 * n), nm_cpu_user = 0,
      nm_cpu_system = 0, nm_cpu_idle = of_nat (5 * n), nm_cpu_iowait = 0, nm_mem_total = 8, nm_mem_available = 3,
      nm_mem_used = 5, nm_disk_read = of_nat (512 * n), nm_disk_write = 0, nm_net_rx = 0, nm_net_tx = 0,
      nm_load = (0, 0, 0), nm_uptime = of_nat n\<rparr>"

theorem computeBasicMetricRecord_ranges_witness:
  "percentage (bm_cpu (computeBasicMetricRecord (sample_node 2) (sample_node 1) True))"
proof -
  have "deltaCounterU64 (nm_cpu_idle (sample_node 2)) (nm_cpu_idle (sample_node 1))
      \<le> deltaCounterU64 (nm_cpu_total (sample_node 2)) (nm_cpu_total (sample_node 1))"
    by (simp add: deltaCounterU64_def sample_node_def)
  from computeBasicMetricRecord_ranges [OF this] show ?thesis by blast
qed

text \<open>Without acknowledgements the batch grows past its configured size.\<close>

lemma batch_grows:
  assumes "startLoop (Some (policyOfResponse (Some (sample_response 10)))) = Some s"
  shows "length (lp_batch (snd (runLoop 1 (replicate n (Sample_tick (Some raw) None False)) s))) = n"
proof -
  have grow: "length (lp_batch (snd (runLoop 1 (replicate n (Sample_tick (Some raw) None False)) s)))
      = length (lp_batch s) + n"
    if "\<not> mp_stream_enabled (lp_policy s)" "\<not> lp_done s" for s
    using that
  proof (induction n arbitrary: s)
    case (Suc n)
    obtain o1 s1 where e: "sampleTick 1 (Some raw) None False s = (o1, s1)" by (metis surj_pair)
    then have "length (lp_batch s1) = Suc (length (lp_batch s))" "lp_policy s1 = lp_policy s" "\<not> lp_done s1"
      using Suc.prems by (auto simp: sampleTick_def Let_def flushBatch_def split: if_splits prod.splits)
    then show ?case using Suc e by (simp add: case_prod_beta)
  qed simp
  have "lp_batch s = []" "\<not> mp_stream_enabled (lp_policy s)" "\<not> lp_done s"
    using assms by (auto simp: startLoop_def policyOfResponse_def sample_response_def Let_def split: if_splits)
  then show ?thesis using grow [of s] by simp
qed

theorem batch_conserved_witness:
  "\<exists>s outs s'. startLoop None = Some s
     \<and> runLoop 1 [Sample_tick (Some (sample_node 1)) None False, Flush_tick True] s = (outs, s')
     \<and> delivered outs @ lp_batch s' = sampled outs \<and> length (sampled outs) = 1"
proof -
  obtain s where s: "startLoop None = Some s" "mp_stream_enabled (lp_policy s) = False" "lp_done s = False"
    by (simp add: startLoop_def defaultMetricsPolicy_def sampleInterval_def duration_defs)
  let ?es = "[Sample_tick (Some (sample_node 1)) None False, Flush_tick True]"
  obtain outs s' where r: "runLoop 1 ?es s = (outs, s')" by (metis surj_pair)
  have "length (sampled outs) = 1"
    using r s by (auto simp: sampleTick_def Let_def flushBatch_def split: prod.splits if_splits)
  then show ?thesis using batch_conserved [of None s 1 ?es outs s'] s(1) r by blast
qed

end
