(* ===== verification/Proc_Parsers.thy ===== *)
theory Proc_Parsers
  imports Metrics Go_Strings
begin

text \<open>
  Where the metrics come from (\<^verbatim>\<open>internal/system\<close>: \<^verbatim>\<open>cpu.go\<close>, \<^verbatim>\<open>mem.go\<close>, \<^verbatim>\<open>net.go\<close>, \<^verbatim>\<open>disk.go\<close>, and
  \<^verbatim>\<open>internal/collector/node_collector.go\<close>): the parsers of four files of \<^verbatim>\<open>/proc\<close> and the
  reading they are put together to.
\<close>

subsection \<open>Scanning a file\<close>

text \<open>A file that opens has a content; reading it may end in an error instead of its end.\<close>

datatype proc_file = Open_fails string | Content string "string option"

datatype proc_error =
    Open_error string
  | Scan_error string
  | Unexpected_line string
  | Bad_number string
  | Missing_line

subsection \<open>/proc/stat\<close>

record cpu_counters =
  cc_user :: u64
  cc_nice :: u64
  cc_system :: u64
  cc_idle :: u64
  cc_iowait :: u64
  cc_irq :: u64
  cc_softirq :: u64
  cc_steal :: u64
  cc_total :: u64

fun parse_all :: "string list \<Rightarrow> proc_error + u64 list" where
  "parse_all [] = Inr []"
| "parse_all (p # ps) =
     (case parse_uint 10 64 p of
        None \<Rightarrow> Inl (Bad_number p)
      | Some v \<Rightarrow> bind_res (parse_all ps) (\<lambda>vs. Inr (of_nat v # vs)))"

definition nth0 :: "u64 list \<Rightarrow> nat \<Rightarrow> u64" where
  "nth0 vals i = (if i < length vals then vals ! i else 0)"

definition cpuCountersOf :: "u64 list \<Rightarrow> cpu_counters" where
  "cpuCountersOf vals =
     \<lparr>cc_user = nth0 vals 0, cc_nice = nth0 vals 1, cc_system = nth0 vals 2, cc_idle = nth0 vals 3,
      cc_iowait = nth0 vals 4, cc_irq = nth0 vals 5, cc_softirq = nth0 vals 6, cc_steal = nth0 vals 7,
      cc_total = fold (\<lambda>v t. t + v) vals 0\<rparr>"

fun scanCPU :: "string list \<Rightarrow> string option \<Rightarrow> proc_error + cpu_counters" where
  "scanCPU [] err = (case err of Some e \<Rightarrow> Inl (Scan_error e) | None \<Rightarrow> Inl Missing_line)"
| "scanCPU (l # ls) err =
     (let line = trim_space l in
      if \<not> prefix ''cpu '' line then scanCPU ls err
      else let parts = str_fields line in
        if length parts < 8 then Inl (Unexpected_line line)
        else bind_res (parse_all (tl parts)) (\<lambda>vals. Inr (cpuCountersOf vals)))"

definition ReadCPUCounters :: "proc_file \<Rightarrow> proc_error + cpu_counters" where
  "ReadCPUCounters f =
     (case f of
        Open_fails e \<Rightarrow> Inl (Open_error e)
      | Content s readErr \<Rightarrow> scanCPU (scan_lines s) (scan_error s readErr))"

definition CPUUsage :: "cpu_counters \<Rightarrow> cpu_counters \<Rightarrow> float64" where
  "CPUUsage prev cur =
     (if cc_total cur \<le> cc_total prev then Finite 0
      else let totalDelta = float_u64 (cc_total cur - cc_total prev);
               idledPrev = cc_idle prev + cc_iowait prev;
               idledCur = cc_idle cur + cc_iowait cur;
               idleDelta = float_u64 (idledCur - idledPrev);
               idleDelta = (if idleDelta < 0 then 0 else idleDelta)
           in clampPercent (fmul (fdiv (f64 (totalDelta - idleDelta)) totalDelta) 100))"

subsection \<open>/proc/meminfo\<close>

record memory_info =
  mi_total :: u64
  mi_used :: u64
  mi_free :: u64

definition memLine :: "string \<Rightarrow> (string \<times> u64) option" where
  "memLine l =
     (case str_fields (trim_space l) of
        k # v # _ \<Rightarrow> map_option (\<lambda>n. (trim_suffix '':'' k, of_nat n * 1024)) (parse_uint 10 64 v)
      | _ \<Rightarrow> None)"

definition memValue :: "string list \<Rightarrow> string \<Rightarrow> u64" where
  "memValue ls key =
     (case map_of (rev (List.map_filter memLine ls)) key of None \<Rightarrow> 0 | Some v \<Rightarrow> v)"

definition ReadMemoryInfo :: "proc_file \<Rightarrow> proc_error + memory_info" where
  "ReadMemoryInfo f =
     (case f of
        Open_fails e \<Rightarrow> Inl (Open_error e)
      | Content s readErr \<Rightarrow>
          (case scan_error s readErr of
             Some e \<Rightarrow> Inl (Scan_error e)
           | None \<Rightarrow>
               (let tot = memValue (scan_lines s) ''MemTotal''; avail = memValue (scan_lines s) ''MemAvailable''
                in if tot = 0 then Inl Missing_line
                   else Inr \<lparr>mi_total = tot, mi_used = tot - avail, mi_free = avail\<rparr>)))"

subsection \<open>/proc/net/dev and /proc/diskstats\<close>

definition netLine :: "string \<Rightarrow> (u64 \<times> u64) option" where
  "netLine l =
     (case cut_at (CHR '':'') (trim_space l) of
        (_, None) \<Rightarrow> None
      | (name, Some rest) \<Rightarrow>
          let iface = trim_space name; metrics = str_fields (trim_space rest) in
          if iface = ''lo'' \<or> iface = [] then None
          else if length metrics < 16 then None
          else case (parse_uint 10 64 (metrics ! 0), parse_uint 10 64 (metrics ! 8)) of
                 (Some rx, Some tx) \<Rightarrow> Some (of_nat rx, of_nat tx)
               | _ \<Rightarrow> None)"

definition isBlockDevice :: "string \<Rightarrow> bool" where
  "isBlockDevice name =
     (if list_ex (\<lambda>p. prefix p name) [''loop'', ''ram'', ''fd''] then False
      else list_ex (\<lambda>p. prefix p name) [''dm-'', ''nvme'', ''sd'', ''vd'', ''xvd''])"

definition diskLine :: "string \<Rightarrow> (u64 \<times> u64) option" where
  "diskLine l =
     (let parts = str_fields (trim_space l) in
      if length parts < 14 then None
      else if \<not> isBlockDevice (parts ! 2) then None
      else case (parse_uint 10 64 (parts ! 5), parse_uint 10 64 (parts ! 9)) of
             (Some rd, Some wr) \<Rightarrow> Some (of_nat rd * 512, of_nat wr * 512)
           | _ \<Rightarrow> None)"

definition addPairs :: "(u64 \<times> u64) list \<Rightarrow> u64 \<times> u64" where
  "addPairs ps = foldl (\<lambda>(a, b) (x, y). (a + x, b + y)) (0, 0) ps"

definition readPairs :: "nat \<Rightarrow> (string \<Rightarrow> (u64 \<times> u64) option) \<Rightarrow> proc_file \<Rightarrow> proc_error + u64 \<times> u64" where
  "readPairs header parse f =
     (case f of
        Open_fails e \<Rightarrow> Inl (Open_error e)
      | Content s readErr \<Rightarrow>
          (case scan_error s readErr of
             Some e \<Rightarrow> Inl (Scan_error e)
           | None \<Rightarrow> Inr (addPairs (List.map_filter parse (drop header (scan_lines s))))))"

definition ReadNetCounters :: "proc_file \<Rightarrow> proc_error + u64 \<times> u64" where
  "ReadNetCounters f = readPairs 2 netLine f"

definition ReadDiskCounters :: "proc_file \<Rightarrow> proc_error + u64 \<times> u64" where
  "ReadDiskCounters f = readPairs 0 diskLine f"

subsection \<open>One reading\<close>

text \<open>
  The load averages and the uptime are parsed as floating-point numbers by the library; the
  parsed values are arguments.
\<close>

record proc_files =
  pf_stat :: proc_file
  pf_meminfo :: proc_file
  pf_diskstats :: proc_file
  pf_net :: proc_file
  pf_load :: "rat \<times> rat \<times> rat"
  pf_uptime :: u64
  pf_now :: i64

definition Collect :: "string \<Rightarrow> proc_files \<Rightarrow> proc_error + node_metrics" where
  "Collect nodeID p =
     bind_res (ReadCPUCounters (pf_stat p)) (\<lambda>cpu.
     bind_res (ReadMemoryInfo (pf_meminfo p)) (\<lambda>mem.
     bind_res (ReadDiskCounters (pf_diskstats p)) (\<lambda>disk.
     bind_res (ReadNetCounters (pf_net p)) (\<lambda>net.
       Inr \<lparr>nm_node_id = trim_space nodeID, nm_timestamp = pf_now p, nm_cpu_total = cc_total cpu,
            nm_cpu_user = cc_user cpu, nm_cpu_system = cc_system cpu, nm_cpu_idle = cc_idle cpu,
            nm_cpu_iowait = cc_iowait cpu, nm_mem_total = mi_total mem, nm_mem_available = mi_free mem,
            nm_mem_used = mi_used mem, nm_disk_read = fst disk, nm_disk_write = snd disk,
            nm_net_rx = fst net, nm_net_tx = snd net, nm_load = pf_load p, nm_uptime = pf_uptime p\<rparr>))))"

subsection \<open>Fields of printable lines\<close>

definition word_text :: "string \<Rightarrow> bool" where
  "word_text w \<longleftrightarrow> w \<noteq> [] \<and> printable w \<and> CHR 0x20 \<notin> set w"

lemma trim_left_printable: "printable s \<Longrightarrow> trim_left s = dropWhile (\<lambda>c. c = CHR 0x20) s"
  by (simp add: trim_left_def strip_seqs_printable unprintable_ws space_in_ws)

lemma span_word_printable:
  "printable s \<Longrightarrow> span_word s = (takeWhile (\<lambda>c. c \<noteq> CHR 0x20) s, dropWhile (\<lambda>c. c \<noteq> CHR 0x20) s)"
proof (induction s)
  case (Cons c s)
  have "starts_seq ws_seqs (c # s) = (if c = CHR 0x20 then Some [CHR 0x20] else None)"
    using starts_seq_printable [OF Cons.prems unprintable_ws(1)] space_in_ws(1) by simp
  with Cons show ?case by simp
qed simp

lemma fields_space: "printable s \<Longrightarrow> str_fields (CHR 0x20 # s) = str_fields s"
  by (simp add: str_fields.simps [of "CHR 0x20 # s"] str_fields.simps [of s] trim_left_printable)

lemma fields_word:
  assumes "word_text w" "printable s" "s = [] \<or> hd s = CHR 0x20"
  shows "str_fields (w @ s) = w # str_fields s"
proof -
  from assms(1) obtain c t where w: "w = c # t" "c \<noteq> CHR 0x20" "CHR 0x20 \<notin> set t" "printable t" "printable [c]"
    by (cases w) (auto simp: word_text_def)
  have pt: "printable (t @ s)" "printable (w @ s)" using w assms(2) by simp_all
  have "trim_left (w @ s) = c # t @ s" using w pt by (simp add: trim_left_printable)
  moreover have "span_word (t @ s) = (t, s)"
  proof -
    have "takeWhile (\<lambda>c. c \<noteq> CHR 0x20) s = []" using assms(3) by (cases s) auto
    moreover have "dropWhile (\<lambda>c. c \<noteq> CHR 0x20) s = s" using assms(3) by (cases s) auto
    moreover have "\<forall>x \<in> set t. x \<noteq> CHR 0x20" using w(3) by blast
    ultimately show ?thesis using pt by (simp add: span_word_printable takeWhile_append dropWhile_append)
  qed
  ultimately show ?thesis using w(1) str_fields.simps [of "w @ s"] by simp
qed

lemma printable_join: "list_all word_text ws \<Longrightarrow> printable (join '' '' ws)"
  by (induction "'' ''" ws rule: join.induct) (auto simp: word_text_def)

lemma fields_Nil: "str_fields [] = []"
  by (simp add: str_fields.simps trim_left_def)

lemma fields_join: "list_all word_text ws \<Longrightarrow> str_fields (join '' '' ws) = ws"
proof (induction "'' ''" ws rule: join.induct)
  case (2 x)
  then show ?case using fields_word [of x "[]"] by (simp add: fields_Nil)
next
  case (3 x y xs)
  have p: "printable (join '' '' (y # xs))" using 3 by (intro printable_join) simp
  have "str_fields (x @ CHR 0x20 # join '' '' (y # xs)) = x # str_fields (CHR 0x20 # join '' '' (y # xs))"
    using 3 p by (intro fields_word) simp_all
  also have "\<dots> = x # y # xs" using 3 p by (simp add: fields_space)
  finally show ?case by simp
qed (simp add: fields_Nil)

lemma word_show_nat: "word_text (show_nat n)"
  using digits_show_nat [of n] by (fastforce simp: word_text_def show_nat_ne printable_def)

lemma last_show_nat: "last (show_nat n) \<noteq> CHR 0x20"
  using digits_show_nat [of n] last_in_set [OF show_nat_ne, of n] by fastforce

subsection \<open>Reading what the kernel prints\<close>

definition cpu_line :: "nat list \<Rightarrow> string" where
  "cpu_line vals = ''cpu  '' @ join '' '' (map show_nat vals)"

lemma words_show: "list_all word_text (map show_nat vals)"
  by (simp add: list_all_iff word_show_nat)

lemma cpu_line_printable: "printable (cpu_line vals)"
  using printable_join [OF words_show, of vals] by (simp add: cpu_line_def)

lemma join_ne: "vals \<noteq> [] \<Longrightarrow> join '' '' (map show_nat vals) \<noteq> [] \<and> last (join '' '' (map show_nat vals)) \<noteq> CHR 0x20"
proof (induction vals rule: induct_list012)
  case (2 x)
  then show ?case by (simp add: show_nat_ne last_show_nat)
next
  case (3 x y zs)
  then show ?case by simp
qed simp

lemma cpu_line_trim: "vals \<noteq> [] \<Longrightarrow> trim_space (cpu_line vals) = cpu_line vals"
  using join_ne [of vals] by (intro trimmed_printable cpu_line_printable) (simp add: cpu_line_def)

lemma cpu_line_fields: "str_fields (cpu_line vals) = ''cpu'' # map show_nat vals"
proof -
  have p: "printable (join '' '' (map show_nat vals))" by (rule printable_join [OF words_show])
  have "str_fields (''cpu'' @ CHR 0x20 # CHR 0x20 # join '' '' (map show_nat vals))
      = ''cpu'' # str_fields (CHR 0x20 # CHR 0x20 # join '' '' (map show_nat vals))"
    using p by (intro fields_word) (simp_all add: word_text_def)
  then show ?thesis
    using p by (simp add: cpu_line_def fields_space fields_join [OF words_show])
qed

lemma parse_all_show:
  "list_all (\<lambda>v. v < 2 ^ 64) vals \<Longrightarrow> parse_all (map show_nat vals) = Inr (map of_nat vals)"
  by (induction vals) (simp_all add: parse_uint_show)

lemma printable_no_control: "printable s \<Longrightarrow> CHR 0x0A \<notin> set s \<and> CHR 0x0D \<notin> set s"
  by (auto simp: printable_def)

lemma first_line:
  assumes "printable l" "fits_buffer l" "l \<noteq> []"
  shows "\<exists>ls. scan_lines (l @ CHR 0x0A # rest) = l # ls"
proof -
  have s: "split_on (CHR 0x0A) (l @ CHR 0x0A # rest) = l # split_on (CHR 0x0A) rest"
    using printable_no_control [OF assms(1)] by (intro split_on_append) simp
  have "\<exists>tl_ls. raw_lines (l @ CHR 0x0A # rest) = l # tl_ls"
    using split_on_ne [of "CHR 0x0A" rest] assms(3) by (simp add: raw_lines_def Let_def s)
  then obtain tl_ls where m: "raw_lines (l @ CHR 0x0A # rest) = l # tl_ls" by blast
  have "\<not> suffix [CHR 0x0D] l"
    using printable_no_control [OF assms(1)] by (auto simp: suffix_def)
  then have "drop_cr l = l" by (simp add: drop_cr_def trim_suffix_def)
  then show ?thesis using m assms(2) by (simp add: scan_upto_def)
qed

lemma fold_sum: "fold (\<lambda>v t. t + v) vs (t :: u64) = t + sum_list vs"
  by (induction vs arbitrary: t) (simp_all add: algebra_simps)

lemma cpuCounters_total: "cc_total (cpuCountersOf vals) = sum_list vals"
  by (simp add: cpuCountersOf_def fold_sum)

text \<open>
  the CPU counters are read back from the aggregate line the kernel prints, whatever
  follows it: the fields are the printed numbers and the total is their sum, modulo $2^{64}$.
\<close>

theorem ReadCPUCounters_reads:
  assumes "7 \<le> length vals" "list_all (\<lambda>v. v < 2 ^ 64) vals" "fits_buffer (cpu_line vals)"
  shows "ReadCPUCounters (Content (cpu_line vals @ CHR 0x0A # rest) readErr)
      = Inr (cpuCountersOf (map of_nat vals))
    \<and> cc_total (cpuCountersOf (map of_nat vals)) = of_nat (sum_list vals)"
proof -
  have ne: "vals \<noteq> []" using assms(1) by auto
  obtain ls where ls: "scan_lines (cpu_line vals @ CHR 0x0A # rest) = cpu_line vals # ls"
    using first_line [OF cpu_line_printable assms(3)] by (auto simp: cpu_line_def)
  have "prefix ''cpu '' (cpu_line vals)" by (simp add: cpu_line_def)
  moreover have "sum_list (map of_nat vals) = (of_nat (sum_list vals) :: u64)"
    by (induction vals) simp_all
  ultimately show ?thesis
    using assms(1,2) ls ne
    by (simp add: ReadCPUCounters_def cpu_line_trim cpu_line_fields parse_all_show cpuCounters_total)
qed

theorem ReadCPUCounters_reads_witness:
  "ReadCPUCounters (Content (cpu_line [1, 2, 3, 4, 5, 6, 18446744073709551615] @ [CHR 0x0A]) None)
     = Inr (cpuCountersOf (map of_nat [1, 2, 3, 4, 5, 6, 18446744073709551615]))"
proof -
  have "fits_buffer (cpu_line [1, 2, 3, 4, 5, 6, 18446744073709551615])"
    by (simp add: fits_upto_def cpu_line_def show_nat.simps)
  from ReadCPUCounters_reads [OF _ _ this, of "[]" None] show ?thesis by simp
qed

subsection \<open>From two readings to a percentage\<close>

lemma sum_growth:
  "list_all2 (\<le>) as (bs :: nat list) \<Longrightarrow> sum_list as \<le> sum_list bs
     \<and> (i < length bs \<longrightarrow> bs ! i - as ! i \<le> sum_list bs - sum_list as \<and> bs ! i \<le> sum_list bs)"
proof (induction as bs arbitrary: i rule: list_all2_induct)
  case (Cons a as b bs)
  show ?case
  proof (cases i)
    case 0
    then show ?thesis using Cons by fastforce
  next
    case (Suc k)
    then show ?thesis using Cons(1) Cons(3) [of k] by fastforce
  qed
qed simp

lemma Collect_cpu:
  assumes "Collect nodeID p = Inr m" "pf_stat p = Content (cpu_line vals @ CHR 0x0A # rest) readErr"
    and "7 \<le> length vals" "fits_buffer (cpu_line vals)" "sum_list vals < 2 ^ 64"
  shows "unat (nm_cpu_total m) = sum_list vals" "unat (nm_cpu_idle m) = vals ! 3"
proof -
  have b: "v < 2 ^ 64" if "v \<in> set vals" for v using that assms(5) member_le_sum_list [of v vals] by simp
  then have l: "list_all (\<lambda>v. v < 2 ^ 64) vals" by (simp add: list_all_iff)
  have ne: "vals \<noteq> []" using assms(3) by auto
  obtain ls where ls: "scan_lines (cpu_line vals @ CHR 0x0A # rest) = cpu_line vals # ls"
    using first_line [OF cpu_line_printable assms(4)] by (auto simp: cpu_line_def)
  have "prefix ''cpu '' (cpu_line vals)" by (simp add: cpu_line_def)
  then have "ReadCPUCounters (pf_stat p) = Inr (cpuCountersOf (map of_nat vals))"
    using assms(2,3) l ls ne by (simp add: ReadCPUCounters_def cpu_line_trim cpu_line_fields parse_all_show)
  then have m: "nm_cpu_total m = cc_total (cpuCountersOf (map of_nat vals))"
    "nm_cpu_idle m = cc_idle (cpuCountersOf (map of_nat vals))"
    using assms(1) by (auto simp: Collect_def bind_res_Inr_iff)
  have s: "sum_list (map of_nat vals) = (of_nat (sum_list vals) :: u64)"
    by (induction vals) simp_all
  show "unat (nm_cpu_total m) = sum_list vals"
    using assms(5) by (simp add: m cpuCounters_total s unat_of_nat take_bit_nat_eq_self)
  show "unat (nm_cpu_idle m) = vals ! 3"
    using assms(3) b [of "vals ! 3"] by (simp add: m cpuCountersOf_def nth0_def unat_of_nat take_bit_nat_eq_self)
qed

text \<open>
  C18: two readings of counters that only grow, and whose sum fits 64 bits, give a CPU usage
  between 0 and 100 percent.
\<close>

theorem collected_cpu_percentage:
  assumes "Collect nodeID p1 = Inr m1" "pf_stat p1 = Content (cpu_line v1 @ CHR 0x0A # rest1) e1"
    and "Collect nodeID p2 = Inr m2" "pf_stat p2 = Content (cpu_line v2 @ CHR 0x0A # rest2) e2"
    and "7 \<le> length v1" "list_all2 (\<le>) v1 v2" "sum_list v2 < 2 ^ 64"
    and "fits_buffer (cpu_line v1)" "fits_buffer (cpu_line v2)"
  shows "percentage (bm_cpu (computeBasicMetricRecord m2 m1 hasPrev))"
proof -
  have len: "length v1 = length v2" by (rule list_all2_lengthD [OF assms(6)])
  have g: "sum_list v1 \<le> sum_list v2" "v2 ! 3 - v1 ! 3 \<le> sum_list v2 - sum_list v1"
    using sum_growth [OF assms(6), of 3] len assms(5) by simp_all
  have "sum_list v1 < 2 ^ 64" using g(1) assms(7) by simp
  then have "deltaCounterU64 (nm_cpu_idle m2) (nm_cpu_idle m1) \<le> deltaCounterU64 (nm_cpu_total m2) (nm_cpu_total m1)"
    using Collect_cpu [OF assms(1,2,5,8)] Collect_cpu [OF assms(3,4) _ assms(9,7)] len assms(5) g(2)
    by (simp add: word_le_nat_alt unat_deltaCounter)
  from cpuPercent_percentage [OF this] show ?thesis
    by (simp add: computeBasicMetricRecord_def Let_def percentage_def)
qed

definition sample_proc :: "nat \<Rightarrow> proc_files" where
  "sample_proc n =
     \<lparr>pf_stat = Content (cpu_line [n, 0, 0, n, 0, 0, 0] @ [CHR 0x0A]) None,
      pf_meminfo = Content ''MemTotal: 8'' None, pf_diskstats = Content [] None, pf_net = Content [] None,
      pf_load = (0, 0, 0), pf_uptime = 1, pf_now = of_nat (1000 * n)\<rparr>"

lemma sample_proc_line: "n < 10 \<Longrightarrow> fits_buffer (cpu_line [n, 0, 0, n, 0, 0, 0])"
  by (simp add: fits_upto_def cpu_line_def show_nat.simps)

lemma sample_collects: "n < 10 \<Longrightarrow> \<exists>m. Collect ''n'' (sample_proc n) = Inr m"
proof -
  assume n: "n < 10"
  have l: "list_all (\<lambda>v. v < 2 ^ 64) [n, 0, 0, n, 0, 0, 0]" using n by simp
  obtain ls where ls: "scan_lines (cpu_line [n, 0, 0, n, 0, 0, 0] @ [CHR 0x0A]) = cpu_line [n, 0, 0, n, 0, 0, 0] # ls"
    using first_line [OF cpu_line_printable sample_proc_line [OF n], of "[]"] by (auto simp: cpu_line_def)
  have "prefix ''cpu '' (cpu_line [n, 0, 0, n, 0, 0, 0])" by (simp add: cpu_line_def)
  then have "ReadCPUCounters (pf_stat (sample_proc n)) = Inr (cpuCountersOf (map of_nat [n, 0, 0, n, 0, 0, 0]))"
    using ls cpu_line_trim [of "[n, 0, 0, n, 0, 0, 0]"] cpu_line_fields [of "[n, 0, 0, n, 0, 0, 0]"] parse_all_show [OF l]
    by (simp add: ReadCPUCounters_def sample_proc_def)
  moreover have "is_ok (ReadMemoryInfo (pf_meminfo (sample_proc n)))"
  proof -
    have "trim_space ''MemTotal: 8'' = ''MemTotal: 8''" by (rule trimmed_printable) simp_all
    moreover have "str_fields ''MemTotal: 8'' = [''MemTotal:'', ''8'']"
      using fields_join [of "[''MemTotal:'', ''8'']"] by (simp add: word_text_def)
    ultimately have "memLine ''MemTotal: 8'' = Some (''MemTotal'', 8 * 1024)"
      by (simp add: memLine_def trim_suffix_def suffix_def parse_uint_def digit_val_def)
    then have "is_ok (ReadMemoryInfo (Content ''MemTotal: 8'' None))"
      by (simp add: ReadMemoryInfo_def scan_upto_error_def scan_upto_def raw_lines_def fits_upto_def drop_cr_def
          trim_suffix_def suffix_def memValue_def List.map_filter_def)
    then show ?thesis by (simp add: sample_proc_def)
  qed
  moreover have "ReadDiskCounters (pf_diskstats (sample_proc n)) = Inr (0, 0)"
    "ReadNetCounters (pf_net (sample_proc n)) = Inr (0, 0)"
    by (simp_all add: sample_proc_def ReadDiskCounters_def ReadNetCounters_def readPairs_def scan_upto_error_def
        raw_lines_def scan_upto_def addPairs_def List.map_filter_def)
  ultimately show ?thesis by (auto simp: Collect_def is_ok_iff)
qed

theorem collected_cpu_percentage_witness:
  "\<exists>m1 m2. Collect ''n'' (sample_proc 1) = Inr m1 \<and> Collect ''n'' (sample_proc 3) = Inr m2
     \<and> percentage (bm_cpu (computeBasicMetricRecord m2 m1 True))"
proof -
  obtain m1 m2 where m: "Collect ''n'' (sample_proc 1) = Inr m1" "Collect ''n'' (sample_proc 3) = Inr m2"
    using sample_collects [of 1] sample_collects [of 3] by auto
  have f: "fits_buffer (cpu_line [1, 0, 0, 1, 0, 0, 0])" "fits_buffer (cpu_line [3, 0, 0, 3, 0, 0, 0])"
    by (simp_all add: sample_proc_line)
  from collected_cpu_percentage [OF m(1) _ m(2) _ _ _ _ f, of "[]" None "[]" None True] m
  show ?thesis by (simp add: sample_proc_def)
qed

text \<open>
  Two facts the reports inherit: memory in use wraps around when more is available than there
  is in total, and a disk is counted again with each of its partitions.
\<close>

lemma memory_accounted:
  "ReadMemoryInfo f = Inr m \<Longrightarrow> mi_free m \<le> mi_total m \<Longrightarrow> unat (mi_used m) + unat (mi_free m) = unat (mi_total m)"
  by (auto simp: ReadMemoryInfo_def Let_def word_le_nat_alt unat_sub split: proc_file.splits option.splits if_splits)

lemma partitions_counted: "isBlockDevice ''sda'' \<and> isBlockDevice ''sda1''"
  by code_simp

end
