(* ===== verification/Service_Metrics.thy ===== *)
theory Service_Metrics
  imports Proc_Parsers Go_Url "HOL-Library.AList" "HOL-Library.Char_ord" "HOL-Library.List_Lexorder"
begin

text \<open>
  The services of the host (\<^verbatim>\<open>internal/system/service_metrics.go\<close>, \<^verbatim>\<open>gpu.go\<close> and
  \<^verbatim>\<open>internal/collector/service_collector.go\<close>): what \<^verbatim>\<open>systemctl\<close>, the control groups and
  \<^verbatim>\<open>nvidia-smi\<close> print is parsed and put together to one reading per active unit.  The
  commands, the files and \<^verbatim>\<open>strconv.ParseFloat\<close> are arguments.
\<close>

subsection \<open>Commands\<close>

text \<open>A command with its timeout: the output, or the error's text.\<close>

type_synonym command_runner = "duration \<Rightarrow> string list \<Rightarrow> string + string"

definition defaultSystemctlTimeout :: duration where "defaultSystemctlTimeout = 5 * second"

definition runCommandWithTimeout :: "command_runner \<Rightarrow> duration \<Rightarrow> string \<Rightarrow> string list \<Rightarrow> string + string" where
  "runCommandWithTimeout run timeout name args =
     (case run (if timeout \<le> 0 then defaultSystemctlTimeout else timeout) (name # args) of
        Inl e \<Rightarrow> Inl (name @ '' '' @ join '' '' args @ '' failed: '' @ e)
      | Inr out \<Rightarrow> Inr out)"

subsection \<open>Units\<close>

record unit_metrics =
  um_name :: string
  um_active_state :: string
  um_cpu_nsec :: u64
  um_memory :: u64
  um_io_read :: u64
  um_io_write :: u64
  um_ip_ingress :: u64
  um_ip_egress :: u64
  um_control_group :: string

definition unitOfLine :: "string \<Rightarrow> string option" where
  "unitOfLine l =
     (case str_fields (trim_space l) of
        [] \<Rightarrow> None
      | f # _ \<Rightarrow>
          let u = trim_space f in
          if prefix ''aurora-'' u \<and> suffix ''.service'' u then Some u else None)"

definition ListAuroraServiceUnits :: "command_runner \<Rightarrow> string + string list" where
  "ListAuroraServiceUnits run =
     (case runCommandWithTimeout run defaultSystemctlTimeout ''systemctl''
             [''list-unit-files'', ''--type=service'', ''--no-legend'', ''--no-pager'', ''aurora-*.service''] of
        Inl e \<Rightarrow> Inl e
      | Inr out \<Rightarrow> Inr (sort (remdups (List.map_filter unitOfLine (scan_lines out)))))"

definition showLine :: "string \<Rightarrow> (string \<times> string) option" where
  "showLine l =
     (case cut_at (CHR ''='') (trim_space l) of
        (_, None) \<Rightarrow> None
      | (k, Some v) \<Rightarrow> Some (trim_space k, trim_space v))"

text \<open>A Go map filled from the pairs in order: a missing key reads as the empty string.\<close>

definition showValue :: "(string \<times> string) list \<Rightarrow> string \<Rightarrow> string" where
  "showValue kvs key = (case map_of (rev kvs) key of None \<Rightarrow> [] | Some v \<Rightarrow> v)"

definition readUintField :: "(string \<times> string) list \<Rightarrow> string \<Rightarrow> u64" where
  "readUintField kvs key =
     (if kvs = [] then 0
      else let raw = trim_space (showValue kvs key) in
        if raw = [] \<or> raw = ''infinity'' \<or> raw = ''[not set]'' then 0
        else case parse_uint 10 64 raw of None \<Rightarrow> 0 | Some n \<Rightarrow> of_nat n)"

definition readStringField :: "(string \<times> string) list \<Rightarrow> string \<Rightarrow> string \<Rightarrow> string" where
  "readStringField kvs key fallback =
     (if kvs = [] then fallback
      else let v = trim_space (showValue kvs key) in if v = [] then fallback else v)"

definition unitMetricsOf :: "string \<Rightarrow> (string \<times> string) list \<Rightarrow> unit_metrics" where
  "unitMetricsOf name kvs =
     \<lparr>um_name = readStringField kvs ''Id'' name, um_active_state = readStringField kvs ''ActiveState'' [],
      um_cpu_nsec = readUintField kvs ''CPUUsageNSec'', um_memory = readUintField kvs ''MemoryCurrent'',
      um_io_read = readUintField kvs ''IOReadBytes'', um_io_write = readUintField kvs ''IOWriteBytes'',
      um_ip_ingress = readUintField kvs ''IPIngressBytes'', um_ip_egress = readUintField kvs ''IPEgressBytes'',
      um_control_group = readStringField kvs ''ControlGroup'' []\<rparr>"

definition ReadServiceUnitMetrics :: "command_runner \<Rightarrow> string \<Rightarrow> string + unit_metrics" where
  "ReadServiceUnitMetrics run u =
     (let name = trim_space u in
      if name = [] then Inl ''service unit is empty''
      else case runCommandWithTimeout run defaultSystemctlTimeout ''systemctl''
                  [''show'', name, ''--no-pager'', ''--property=Id'', ''--property=ActiveState'',
                   ''--property=CPUUsageNSec'', ''--property=MemoryCurrent'', ''--property=IOReadBytes'',
                   ''--property=IOWriteBytes'', ''--property=IPIngressBytes'', ''--property=IPEgressBytes'',
                   ''--property=ControlGroup''] of
             Inl e \<Rightarrow> Inl e
           | Inr out \<Rightarrow> Inr (unitMetricsOf name (List.map_filter showLine (scan_lines out))))"

subsection \<open>Processes of a control group\<close>

text \<open>\<^verbatim>\<open>strconv.ParseInt(s, 10, 64)\<close>: an optional sign and digits within 64 bits.\<close>

definition parse_int :: "string \<Rightarrow> int option" where
  "parse_int s =
     (case s of
        [] \<Rightarrow> None
      | c # r \<Rightarrow>
          if c = CHR ''-'' then
            (case parse_uint 10 64 r of None \<Rightarrow> None | Some n \<Rightarrow> if n \<le> 2 ^ 63 then Some (- int n) else None)
          else map_option int (parse_uint 10 63 (if c = CHR ''+'' then r else s)))"

definition pidOfLine :: "string \<Rightarrow> int option" where
  "pidOfLine l =
     (case parse_int (trim_space l) of
        None \<Rightarrow> None
      | Some pid \<Rightarrow> if pid \<le> 0 then None else Some pid)"

definition ReadServiceCgroupPIDs :: "(string \<Rightarrow> string + string) \<Rightarrow> string \<Rightarrow> int list" where
  "ReadServiceCgroupPIDs readFile controlGroup =
     (let g = trim_space controlGroup in
      if g = [] \<or> g = ''/'' then []
      else case readFile (path_join [''/sys/fs/cgroup'', trim_prefix ''/'' g, ''cgroup.procs'']) of
             Inl _ \<Rightarrow> []
           | Inr content \<Rightarrow> sort (remdups (List.map_filter pidOfLine (scan_lines content))))"

subsection \<open>GPUs\<close>

definition mibToBytes :: u64 where "mibToBytes = 1024 * 1024"

definition parseUint :: "string \<Rightarrow> u64" where
  "parseUint raw =
     (let v = trim_space raw in
      if v = [] \<or> v = ''[not'' \<or> contains (to_lower v) ''not supported'' \<or> v = ''-'' then 0
      else case parse_uint 10 64 v of None \<Rightarrow> 0 | Some n \<Rightarrow> of_nat n)"

definition parseFloat :: "(string \<Rightarrow> float64 option) \<Rightarrow> string \<Rightarrow> float64" where
  "parseFloat pf raw =
     (let v = trim_space raw in
      if v = [] \<or> contains (to_lower v) ''not supported'' \<or> v = ''-'' then Finite 0
      else case pf v of None \<Rightarrow> Finite 0 | Some x \<Rightarrow> x)"

record gpu_snapshot =
  gs_count :: u64
  gs_util :: float64
  gs_mem_used :: u64
  gs_mem_total :: u64

definition no_gpus :: gpu_snapshot where
  "no_gpus = \<lparr>gs_count = 0, gs_util = Finite 0, gs_mem_used = 0, gs_mem_total = 0\<rparr>"

text \<open>One card: utilisation, used and total bytes.\<close>

definition gpuLine :: "(string \<Rightarrow> float64 option) \<Rightarrow> string \<Rightarrow> (float64 \<times> u64 \<times> u64) option" where
  "gpuLine pf l =
     (let line = trim_space l; parts = split_on (CHR '','') line in
      if line = [] \<or> length parts < 3 then None
      else Some (parseFloat pf (parts ! 0), parseUint (parts ! 1) * mibToBytes, parseUint (parts ! 2) * mibToBytes))"

definition gpuSum :: "(float64 \<times> u64 \<times> u64) list \<Rightarrow> gpu_snapshot" where
  "gpuSum cards =
     foldl (\<lambda>s (util, used, tot). \<lparr>gs_count = gs_count s + 1, gs_util = fadd (gs_util s) util,
                                    gs_mem_used = gs_mem_used s + used, gs_mem_total = gs_mem_total s + tot\<rparr>)
       no_gpus cards"

definition ReadGPUSnapshot :: "(string \<Rightarrow> float64 option) \<Rightarrow> command_runner \<Rightarrow> bool \<Rightarrow> gpu_snapshot" where
  "ReadGPUSnapshot pf run found =
     (if \<not> found then no_gpus
      else case runCommandWithTimeout run (5 * second) ''nvidia-smi''
                  [''--query-gpu=utilization.gpu,memory.used,memory.total'', ''--format=csv,noheader,nounits''] of
             Inl _ \<Rightarrow> no_gpus
           | Inr out \<Rightarrow>
               let s = gpuSum (List.map_filter (gpuLine pf) (scan_lines out)) in
               s\<lparr>gs_util := if 0 < gs_count s then fquot (gs_util s) (float_u64 (gs_count s)) else Finite 0\<rparr>)"

record gpu_usage =
  gu_pid :: int
  gu_util :: float64
  gu_mem :: u64

type_synonym gpu_table = "(int \<times> gpu_usage) list"

text \<open>\<^verbatim>\<open>result[pid]\<close> of a Go map: the zero value if there is none.\<close>

definition usageOf :: "gpu_table \<Rightarrow> int \<Rightarrow> gpu_usage" where
  "usageOf tab pid =
     (case map_of tab pid of None \<Rightarrow> \<lparr>gu_pid = 0, gu_util = Finite 0, gu_mem = 0\<rparr> | Some u \<Rightarrow> u)"

definition appLine :: "string \<Rightarrow> (int \<times> u64) option" where
  "appLine l =
     (let line = trim_space l; parts = split_on (CHR '','') line in
      if line = [] \<or> contains (to_lower line) ''no running'' \<or> length parts < 2 then None
      else let pid = sint (parseUint (parts ! 0)) in
        if pid \<le> 0 then None else Some (pid, parseUint (parts ! 1) * mibToBytes))"

definition addMemory :: "gpu_table \<Rightarrow> int \<times> u64 \<Rightarrow> gpu_table" where
  "addMemory tab pm =
     (let u = usageOf tab (fst pm) in
      AList.update (fst pm) (u\<lparr>gu_pid := fst pm, gu_mem := gu_mem u + snd pm\<rparr>) tab)"

definition pmonLine :: "(string \<Rightarrow> float64 option) \<Rightarrow> string \<Rightarrow> (int \<times> float64) option" where
  "pmonLine pf l =
     (let line = trim_space l; parts = str_fields line in
      if line = [] \<or> prefix ''#'' line \<or> length parts < 4 then None
      else case parse_int (parts ! 1) of
             None \<Rightarrow> None
           | Some pid \<Rightarrow> if pid \<le> 0 then None else Some (pid, parseFloat pf (parts ! 3)))"

definition raiseUtil :: "gpu_table \<Rightarrow> int \<times> float64 \<Rightarrow> gpu_table" where
  "raiseUtil tab pu =
     (let u = usageOf tab (fst pu) in
      AList.update (fst pu)
        (u\<lparr>gu_pid := fst pu, gu_util := if fgreater (snd pu) (gu_util u) then snd pu else gu_util u\<rparr>) tab)"

definition ReadGPUProcessUsage :: "(string \<Rightarrow> float64 option) \<Rightarrow> command_runner \<Rightarrow> bool \<Rightarrow> gpu_table" where
  "ReadGPUProcessUsage pf run found =
     (if \<not> found then []
      else case runCommandWithTimeout run (5 * second) ''nvidia-smi''
                  [''--query-compute-apps=pid,used_gpu_memory'', ''--format=csv,noheader,nounits''] of
             Inl _ \<Rightarrow> []
           | Inr out \<Rightarrow>
               let tab = foldl addMemory [] (List.map_filter appLine (scan_lines out));
                   pmon = (case runCommandWithTimeout run (5 * second) ''nvidia-smi''
                                  [''pmon'', ''-c'', ''1'', ''-s'', ''um''] of Inl _ \<Rightarrow> [] | Inr p \<Rightarrow> p)
               in foldl raiseUtil tab (List.map_filter (pmonLine pf) (scan_lines pmon)))"

subsection \<open>One reading of the services\<close>

record service_host =
  sh_run :: command_runner
  sh_read_file :: "string \<Rightarrow> string + string"
  sh_parse_float :: "string \<Rightarrow> float64 option"
  sh_smi_snapshot :: bool
  sh_smi_processes :: bool
  sh_now :: i64

definition toHostGPURecord :: "gpu_snapshot \<Rightarrow> gpu_record" where
  "toHostGPURecord s =
     \<lparr>gp_count = gs_count s, gp_util = gs_util s, gp_mem_used = gs_mem_used s, gp_mem_total = gs_mem_total s\<rparr>"

definition addUsage :: "gpu_table \<Rightarrow> service_counters \<Rightarrow> int \<Rightarrow> service_counters" where
  "addUsage tab c pid =
     (case map_of tab pid of
        None \<Rightarrow> c
      | Some u \<Rightarrow>
          c\<lparr>sc_gpu_mem := sc_gpu_mem c + gu_mem u,
            sc_gpu_util := if fgreater (gu_util u) (sc_gpu_util c) then gu_util u else sc_gpu_util c\<rparr>)"

definition unitSnapshot :: "service_host \<Rightarrow> gpu_table \<Rightarrow> string \<Rightarrow> service_counters option" where
  "unitSnapshot h tab u =
     (case ReadServiceUnitMetrics (sh_run h) u of
        Inl _ \<Rightarrow> None
      | Inr m \<Rightarrow>
          if trim_space (um_active_state m) \<noteq> ''active'' then None
          else let c = foldl (addUsage tab)
                         \<lparr>sc_service = trim_space (um_name m), sc_timestamp = sh_now h,
                          sc_cpu_nsec = um_cpu_nsec m, sc_mem_used = um_memory m,
                          sc_disk_read = um_io_read m, sc_disk_write = um_io_write m,
                          sc_net_rx = um_ip_ingress m, sc_net_tx = um_ip_egress m,
                          sc_gpu_util = Finite 0, sc_gpu_mem = 0\<rparr>
                         (ReadServiceCgroupPIDs (sh_read_file h) (um_control_group m))
               in if sc_service c \<noteq> [] then Some c else None)"

text \<open>
  \<^verbatim>\<open>sort.Slice\<close> is not stable: readings of equal names are in some order.  The order of a
  stable sort is one of them.
\<close>

definition CollectServices :: "service_host \<Rightarrow> service_counters list \<times> gpu_record" where
  "CollectServices h =
     (let hostGPU = toHostGPURecord (ReadGPUSnapshot (sh_parse_float h) (sh_run h) (sh_smi_snapshot h));
          tab = ReadGPUProcessUsage (sh_parse_float h) (sh_run h) (sh_smi_processes h)
      in case ListAuroraServiceUnits (sh_run h) of
           Inl _ \<Rightarrow> ([], hostGPU)
         | Inr units \<Rightarrow> (sort_key sc_service (List.map_filter (unitSnapshot h tab) units), hostGPU))"


subsection \<open>The output of systemctl show is read back\<close>

lemma scan_cons:
  assumes "printable l" "fits_buffer l"
  shows "scan_lines (l @ CHR 0x0A # rest) = l # scan_lines rest"
proof -
  have c: "CHR 0x0A \<notin> set l" "CHR 0x0D \<notin> set l" using printable_no_control [OF assms(1)] by auto
  have "raw_lines (l @ CHR 0x0A # rest) = l # raw_lines rest"
    using split_on_ne [of "CHR 0x0A" rest] by (simp add: raw_lines_def Let_def split_on_append [OF c(1)])
  moreover have "drop_cr l = l" using c(2) by (auto simp: drop_cr_def trim_suffix_def suffix_def)
  ultimately show ?thesis using assms(2) by (simp add: scan_upto_def)
qed

lemma length_show_nat: "n < 10 ^ Suc k \<Longrightarrow> length (show_nat n) \<le> Suc k"
proof (induction k arbitrary: n)
  case 0
  then show ?case by (simp add: show_nat.simps [of n])
next
  case (Suc k)
  have "n div 10 < 10 ^ Suc k" using Suc.prems by (simp add: less_mult_imp_div_less mult.commute)
  then show ?case using Suc.IH [of "n div 10"] by (simp add: show_nat.simps [of n])
qed

text \<open>A text that trimming leaves alone and that is no more than a screenful.\<close>

definition plain_text :: "string \<Rightarrow> bool" where
  "plain_text v \<longleftrightarrow>
     printable v \<and> (v = [] \<or> hd v \<noteq> CHR 0x20 \<and> last v \<noteq> CHR 0x20) \<and> length v \<le> 4096"

lemma unat_u64: "unat (w :: u64) < 18446744073709551616"
  using unsigned_less [of w, where 'a = nat] by simp

lemma plain_show: "plain_text (show_nat (unat (w :: u64)))"
proof -
  have "unat w < 10 ^ Suc 19" using unat_u64 [of w] by simp
  then have "length (show_nat (unat w)) \<le> 20" using length_show_nat [of "unat w" 19] by simp
  moreover have "word_text (show_nat (unat w))" by (rule word_show_nat)
  moreover have "hd (show_nat (unat w)) \<noteq> CHR 0x20"
    using digits_show_nat [of "unat w"] show_nat_ne [of "unat w"] by (cases "show_nat (unat w)") auto
  ultimately show ?thesis
    using last_show_nat [of "unat w"] by (auto simp: plain_text_def word_text_def printable_def)
qed

definition showText :: "(string \<times> string) list \<Rightarrow> string" where
  "showText kvs = concat (map (\<lambda>(k, v). k @ ''='' @ v @ [CHR 0x0A]) kvs)"

definition plain_key :: "string \<Rightarrow> bool" where
  "plain_key k \<longleftrightarrow> plain_text k \<and> k \<noteq> [] \<and> CHR ''='' \<notin> set k"

lemma trim_plain: "plain_text v \<Longrightarrow> trim_space v = v"
  by (simp add: plain_text_def trimmed_printable)

lemma showLine_reads:
  assumes "plain_key k" "plain_text v"
  shows "showLine (k @ CHR ''='' # v) = Some (k, v)"
proof -
  have "trim_space (k @ CHR ''='' # v) = k @ CHR ''='' # v"
    using assms by (intro trimmed_printable) (auto simp: plain_key_def plain_text_def)
  moreover have "cut_at (CHR ''='') (k @ CHR ''='' # v) = (k, Some v)"
    using assms by (intro cut_at_append) (simp add: plain_key_def)
  moreover have "trim_space k = k" "trim_space v = v"
    using assms trim_plain by (auto simp: plain_key_def)
  ultimately show ?thesis by (simp add: showLine_def)
qed

lemma showText_reads:
  "list_all (\<lambda>(k, v). plain_key k \<and> plain_text v) kvs
   \<Longrightarrow> List.map_filter showLine (scan_lines (showText kvs)) = kvs"
proof (induction kvs)
  case Nil
  then show ?case by code_simp
next
  case (Cons kv kvs)
  obtain k v where kv: "kv = (k, v)" by fastforce
  have "printable (k @ CHR ''='' # v)" "fits_buffer (k @ CHR ''='' # v)"
    using Cons.prems by (auto simp: kv plain_key_def plain_text_def fits_upto_def)
  from scan_cons [OF this, of "showText kvs"]
  have "scan_lines (showText (kv # kvs)) = (k @ CHR ''='' # v) # scan_lines (showText kvs)"
    by (simp add: showText_def kv)
  then show ?case
    using Cons showLine_reads [of k v] by (simp add: kv List.map_filter_simps)
qed

definition systemctlFields :: "unit_metrics \<Rightarrow> (string \<times> string) list" where
  "systemctlFields m =
     [(''Id'', um_name m), (''ActiveState'', um_active_state m),
      (''CPUUsageNSec'', show_nat (unat (um_cpu_nsec m))), (''MemoryCurrent'', show_nat (unat (um_memory m))),
      (''IOReadBytes'', show_nat (unat (um_io_read m))), (''IOWriteBytes'', show_nat (unat (um_io_write m))),
      (''IPIngressBytes'', show_nat (unat (um_ip_ingress m))),
      (''IPEgressBytes'', show_nat (unat (um_ip_egress m))), (''ControlGroup'', um_control_group m)]"

lemma uint_field_show:
  assumes "kvs \<noteq> []" "showValue kvs key = show_nat (unat (w :: u64))"
  shows "readUintField kvs key = w"
proof -
  have "trim_space (show_nat (unat w)) = show_nat (unat w)" by (rule trim_plain [OF plain_show])
  moreover have "show_nat (unat w) \<notin> {[], ''infinity'', ''[not set]''}"
    using digits_show_nat [of "unat w"] show_nat_ne [of "unat w"] by (auto simp: of_char_def)
  ultimately show ?thesis
    using assms parse_uint_show [of "unat w" 64] unat_u64 [of w] by (simp add: readUintField_def Let_def)
qed

lemma string_field_plain:
  assumes "kvs \<noteq> []" "plain_text (showValue kvs key)"
  shows "readStringField kvs key fallback = (if showValue kvs key = [] then fallback else showValue kvs key)"
  using assms trim_plain [OF assms(2)] by (simp add: readStringField_def Let_def)

lemma systemctl_values:
  "showValue (systemctlFields m) ''Id'' = um_name m"
  "showValue (systemctlFields m) ''ActiveState'' = um_active_state m"
  "showValue (systemctlFields m) ''CPUUsageNSec'' = show_nat (unat (um_cpu_nsec m))"
  "showValue (systemctlFields m) ''MemoryCurrent'' = show_nat (unat (um_memory m))"
  "showValue (systemctlFields m) ''IOReadBytes'' = show_nat (unat (um_io_read m))"
  "showValue (systemctlFields m) ''IOWriteBytes'' = show_nat (unat (um_io_write m))"
  "showValue (systemctlFields m) ''IPIngressBytes'' = show_nat (unat (um_ip_ingress m))"
  "showValue (systemctlFields m) ''IPEgressBytes'' = show_nat (unat (um_ip_egress m))"
  "showValue (systemctlFields m) ''ControlGroup'' = um_control_group m"
  by (simp_all add: showValue_def systemctlFields_def)

lemma shown_unit:
  assumes "plain_text (um_name m)" "um_name m \<noteq> []" "plain_text (um_active_state m)"
    and "plain_text (um_control_group m)"
  shows "unitMetricsOf name (List.map_filter showLine (scan_lines (showText (systemctlFields m)))) = m"
proof -
  let ?f = "systemctlFields m"
  have "list_all (\<lambda>(k, v). plain_key k \<and> plain_text v) ?f"
    using assms(1,3,4) by (auto simp: systemctlFields_def plain_show plain_key_def) (simp_all add: plain_text_def)
  note read = showText_reads [OF this]
  have "?f \<noteq> []" by (simp add: systemctlFields_def)
  then show ?thesis
    using assms by (simp add: read unitMetricsOf_def string_field_plain uint_field_show systemctl_values)
qed

text \<open>
  What \<^verbatim>\<open>systemctl show\<close> prints for a unit is read back exactly, all nine values, the
  counters over the full range of 64 bits.
\<close>

theorem unit_metrics_read_back:
  assumes "plain_text (um_name m)" "um_name m \<noteq> []" "plain_text (um_active_state m)"
    and "plain_text (um_control_group m)" "trim_space u \<noteq> []"
    and "\<And>timeout args. run timeout args = Inr (showText (systemctlFields m))"
  shows "ReadServiceUnitMetrics run u = Inr m"
  using assms(5,6) shown_unit [OF assms(1-4)]
  by (simp add: ReadServiceUnitMetrics_def runCommandWithTimeout_def Let_def)

subsection \<open>GPU memory is attributed once\<close>

text \<open>The bytes of the given processes in a list of pairs of a process and its bytes.\<close>

definition memoryOf :: "(int \<Rightarrow> bool) \<Rightarrow> (int \<times> u64) list \<Rightarrow> u64" where
  "memoryOf P apps = sum_list (map snd (filter (\<lambda>a. P (fst a)) apps))"

lemma memoryOf_simps [simp]:
  "memoryOf P [] = 0" "memoryOf P (a # apps) = (if P (fst a) then snd a else 0) + memoryOf P apps"
  by (simp_all add: memoryOf_def)

lemma memoryOf_split:
  "x \<notin> set pids \<Longrightarrow> memoryOf (\<lambda>p. p \<in> set (x # pids)) apps
     = memoryOf (\<lambda>p. p = x) apps + memoryOf (\<lambda>p. p \<in> set pids) apps"
  by (induction apps) (auto simp: algebra_simps)

lemma usageOf_update: "usageOf (AList.update q v tab) p = (if p = q then v else usageOf tab p)"
  by (simp add: usageOf_def update_conv')

lemma memory_of_table:
  "gu_mem (usageOf (foldl addMemory tab apps) p) = gu_mem (usageOf tab p) + memoryOf (\<lambda>q. q = p) apps"
  by (induction apps arbitrary: tab) (auto simp: addMemory_def usageOf_update Let_def algebra_simps)

lemma memory_after_pmon: "gu_mem (usageOf (foldl raiseUtil tab utils) p) = gu_mem (usageOf tab p)"
  by (induction utils arbitrary: tab) (auto simp: raiseUtil_def usageOf_update Let_def)

lemma addUsage_mem: "sc_gpu_mem (addUsage tab c p) = sc_gpu_mem c + gu_mem (usageOf tab p)"
  by (simp add: addUsage_def usageOf_def split: option.splits)

lemma memory_of_pids:
  assumes "\<And>p. gu_mem (usageOf tab p) = memoryOf (\<lambda>q. q = p) apps" "distinct pids"
  shows "sc_gpu_mem (foldl (addUsage tab) c pids) = sc_gpu_mem c + memoryOf (\<lambda>p. p \<in> set pids) apps"
  using assms(2)
proof (induction pids arbitrary: c)
  case Nil
  have "memoryOf (\<lambda>p. False) apps = 0" by (induction apps) auto
  then show ?case by simp
next
  case (Cons x pids)
  then show ?case using memoryOf_split [of x pids apps] by (simp add: addUsage_mem assms(1) add.assoc)
qed

lemma distinct_pids: "distinct (ReadServiceCgroupPIDs readFile g)"
  by (simp add: ReadServiceCgroupPIDs_def Let_def split: sum.splits)

text \<open>What \<^verbatim>\<open>nvidia-smi\<close> says of the processes on its cards.\<close>

definition computeApps :: "command_runner \<Rightarrow> (int \<times> u64) list" where
  "computeApps run =
     (case runCommandWithTimeout run (5 * second) ''nvidia-smi''
             [''--query-compute-apps=pid,used_gpu_memory'', ''--format=csv,noheader,nounits''] of
        Inl _ \<Rightarrow> []
      | Inr out \<Rightarrow> List.map_filter appLine (scan_lines out))"

lemma usage_of_processes:
  "gu_mem (usageOf (ReadGPUProcessUsage pf run found) p) = (if found then memoryOf (\<lambda>q. q = p) (computeApps run) else 0)"
proof -
  have "gu_mem (usageOf [] p) = 0" by (simp add: usageOf_def)
  then show ?thesis
    by (auto simp: ReadGPUProcessUsage_def computeApps_def Let_def memory_after_pmon memory_of_table
        split: sum.splits)
qed

lemma foldl_addUsage_frame: "sc_service (foldl (addUsage tab) c pids) = sc_service c"
  by (induction pids arbitrary: c) (auto simp: addUsage_def split: option.splits)

text \<open>
  C24: The reading of the services is sorted by name, holds nothing but active units that the
  listing named, and charges a service with the GPU memory of exactly the processes of its
  control group, every line of \<^verbatim>\<open>nvidia-smi\<close> once.
\<close>

theorem services_charged_once:
  assumes "c \<in> set (fst (CollectServices h))" "sh_smi_processes h"
  shows "sorted (map sc_service (fst (CollectServices h)))
    \<and> (\<exists>units u m. ListAuroraServiceUnits (sh_run h) = Inr units \<and> u \<in> set units
         \<and> ReadServiceUnitMetrics (sh_run h) u = Inr m \<and> trim_space (um_active_state m) = ''active''
         \<and> sc_service c = trim_space (um_name m)
         \<and> sc_gpu_mem c = memoryOf (\<lambda>p. p \<in> set (ReadServiceCgroupPIDs (sh_read_file h) (um_control_group m)))
                             (computeApps (sh_run h)))"
proof -
  let ?tab = "ReadGPUProcessUsage (sh_parse_float h) (sh_run h) (sh_smi_processes h)"
  obtain units where l: "ListAuroraServiceUnits (sh_run h) = Inr units"
    using assms(1) by (auto simp: CollectServices_def Let_def split: sum.splits)
  then obtain u where u: "u \<in> set units" "unitSnapshot h ?tab u = Some c"
    using assms(1) by (auto simp: CollectServices_def Let_def in_set_map_filter)
  then obtain m where m: "ReadServiceUnitMetrics (sh_run h) u = Inr m"
    "trim_space (um_active_state m) = ''active''"
    by (auto simp: unitSnapshot_def split: sum.splits if_splits)
  have t: "gu_mem (usageOf ?tab p) = memoryOf (\<lambda>q. q = p) (computeApps (sh_run h))" for p
    using assms(2) by (simp add: usage_of_processes)
  have "sc_service c = trim_space (um_name m)
      \<and> sc_gpu_mem c = memoryOf (\<lambda>p. p \<in> set (ReadServiceCgroupPIDs (sh_read_file h) (um_control_group m)))
                          (computeApps (sh_run h))"
    using u(2) m memory_of_pids [OF t distinct_pids]
    by (auto simp: unitSnapshot_def Let_def foldl_addUsage_frame split: if_splits)
  moreover have "sorted (map sc_service (fst (CollectServices h)))"
    using l by (simp add: CollectServices_def Let_def)
  ultimately show ?thesis using l u(1) m by blast
qed

subsection \<open>A host with one service and one card\<close>

definition sample_unit :: unit_metrics where
  "sample_unit =
     \<lparr>um_name = ''aurora-x.service'', um_active_state = ''active'', um_cpu_nsec = 5, um_memory = 7,
      um_io_read = 0, um_io_write = 0, um_ip_ingress = 0, um_ip_egress = 1,
      um_control_group = ''/system.slice/aurora-x.service''\<rparr>"

lemma unit_metrics_read_back_witness:
  "ReadServiceUnitMetrics (\<lambda>timeout args. Inr (showText (systemctlFields sample_unit))) ''aurora-x.service''
     = Inr sample_unit"
  by (rule unit_metrics_read_back) (simp_all add: sample_unit_def plain_text_def trimmed_printable)

definition sample_systemctl :: "duration \<Rightarrow> string list \<Rightarrow> string + string" where
  "sample_systemctl timeout args =
     (if take 2 args = [''systemctl'', ''list-unit-files'']
      then Inr (''aurora-x.service enabled'' @ [CHR 0x0A])
      else if take 2 args = [''systemctl'', ''show''] then Inr (showText (systemctlFields sample_unit))
      else if take 2 args = [''nvidia-smi'', ''--query-compute-apps=pid,used_gpu_memory'']
      then Inr (''7, 2'' @ CHR 0x0A # ''8, 1'' @ [CHR 0x0A])
      else Inl ''exit status 9'')"

definition sample_services :: service_host where
  "sample_services =
     \<lparr>sh_run = sample_systemctl,
      sh_read_file = (\<lambda>path. if path = ''/sys/fs/cgroup/system.slice/aurora-x.service/cgroup.procs''
                             then Inr (''7'' @ [CHR 0x0A]) else Inl ''no such file''),
      sh_parse_float = (\<lambda>s. None), sh_smi_snapshot = False, sh_smi_processes = True, sh_now = 0\<rparr>"


lemma sample_show: "ReadServiceUnitMetrics sample_systemctl ''aurora-x.service'' = Inr sample_unit"
proof -
  have "unitMetricsOf ''aurora-x.service'' (List.map_filter showLine
      (scan_lines (showText (systemctlFields sample_unit)))) = sample_unit"
    by (rule shown_unit) (simp_all add: sample_unit_def plain_text_def)
  moreover have "trim_space ''aurora-x.service'' = ''aurora-x.service''" by (simp add: trimmed_printable)
  ultimately show ?thesis
    by (simp add: ReadServiceUnitMetrics_def runCommandWithTimeout_def sample_systemctl_def)
qed

lemma sample_pids:
  "ReadServiceCgroupPIDs (sh_read_file sample_services) (um_control_group sample_unit) = [7]"
proof -
  have "path_join [''/sys/fs/cgroup'', trim_prefix ''/'' ''/system.slice/aurora-x.service'', ''cgroup.procs'']
      = ''/sys/fs/cgroup/system.slice/aurora-x.service/cgroup.procs''"
    by code_simp
  moreover have "scan_lines (''7'' @ [CHR 0x0A]) = [''7'']" by code_simp
  moreover have "pidOfLine ''7'' = Some 7"
    by (simp add: pidOfLine_def trimmed_printable parse_int_def parse_uint_def digit_val_def)
  moreover have "trim_space ''/system.slice/aurora-x.service'' = ''/system.slice/aurora-x.service''"
    by (simp add: trimmed_printable)
  ultimately show ?thesis
    by (simp add: ReadServiceCgroupPIDs_def sample_services_def sample_unit_def List.map_filter_simps)
qed

lemma sample_apps: "computeApps (sh_run sample_services) = [(7, 2097152), (8, 1048576)]"
proof -
  have "scan_lines (''7, 2'' @ CHR 0x0A # ''8, 1'' @ [CHR 0x0A]) = [''7, 2'', ''8, 1'']" by code_simp
  moreover have "contains (to_lower ''7, 2'') ''no running'' = False" "contains (to_lower ''8, 1'') ''no running'' = False"
    by code_simp+
  moreover have "split_on (CHR '','') ''7, 2'' = [''7'', '' 2'']" "split_on (CHR '','') ''8, 1'' = [''8'', '' 1'']"
    by code_simp+
  moreover have "parseUint ''7'' = 7" "parseUint '' 2'' = 2" "parseUint ''8'' = 8" "parseUint '' 1'' = 1"
    by (simp_all add: parseUint_def Let_def trim_space_printable trim_set_def contains_def lower_char_def
        parse_uint_def digit_val_def)
  ultimately show ?thesis
    by (simp add: computeApps_def runCommandWithTimeout_def sample_services_def sample_systemctl_def
        appLine_def Let_def trimmed_printable mibToBytes_def List.map_filter_simps)
qed

lemma sample_reading: "\<exists>c. fst (CollectServices sample_services) = [c]"
proof -
  have "ListAuroraServiceUnits (sh_run sample_services) = Inr [''aurora-x.service'']" by code_simp
  moreover have "\<exists>c. unitSnapshot sample_services tab ''aurora-x.service'' = Some c" for tab
    using sample_show sample_pids
    using foldl_addUsage_frame [of tab _ "[7]"]
    by (simp add: unitSnapshot_def sample_services_def sample_unit_def trimmed_printable Let_def)
  ultimately show ?thesis
    by (auto simp: CollectServices_def Let_def List.map_filter_simps dest: spec split: option.splits)
qed

lemma services_charged_once_witness:
  "\<exists>c. fst (CollectServices sample_services) = [c] \<and> sc_gpu_mem c = 2097152"
proof -
  obtain c where c: "fst (CollectServices sample_services) = [c]" using sample_reading by blast
  have run: "sh_run sample_services = sample_systemctl" "sh_smi_processes sample_services"
    by (simp_all add: sample_services_def)
  have "ListAuroraServiceUnits sample_systemctl = Inr [''aurora-x.service'']" by code_simp
  then have "sc_gpu_mem c = 2097152"
    using services_charged_once [of c sample_services] sample_apps sample_pids
    by (auto simp: c run sample_show)
  then show ?thesis using c by blast
qed

end
