(* ===== verification/Admin_Client.thy ===== *)
theory Admin_Client
  imports Config Go_Url
begin

text \<open>
  The client of the control plane (\<^verbatim>\<open>internal/adminrpc\<close>: \<^verbatim>\<open>client.go\<close>, \<^verbatim>\<open>rpc.go\<close>, \<^verbatim>\<open>renew.go\<close>,
  \<^verbatim>\<open>bootstrap.go\<close>): the connection, the recovery of failed calls, the renewal of certificates.
  What gRPC, the TLS library, the disk and the clock answer is an environment, indexed by the
  number of questions asked so far.  One goroutine is followed; a mutex that the same chain
  of calls already holds blocks it for good (Go's \<^verbatim>\<open>sync.Mutex\<close> is not reentrant), which is
  the outcome \<open>Blocked\<close>.
\<close>

subsection \<open>Errors of calls\<close>

definition isRecoverableAdminRPCError :: "string \<Rightarrow> bool" where
  "isRecoverableAdminRPCError err =
     (let msg = to_lower err in
      contains msg ''connection error'' \<or> contains msg ''transport is closing''
      \<or> contains msg ''authentication handshake failed'' \<or> contains msg ''code = unavailable'')"

definition shouldTryBootstrapRotation :: "string \<Rightarrow> string \<Rightarrow> bool" where
  "shouldTryBootstrapRotation err bootstrapToken =
     (if trim_space bootstrapToken = [] then False
      else let msg = to_lower err in
        if contains msg ''certificate signed by unknown authority'' then False
        else if contains msg ''authentication handshake failed'' then True
        else contains msg ''certificate required'' \<or> contains msg ''bad certificate''
             \<or> contains msg ''certificate revoked'' \<or> contains msg ''certificate has expired''
             \<or> contains msg ''permission denied'')"

definition classifyAdminRPCError :: "string \<Rightarrow> string \<Rightarrow> string" where
  "classifyAdminRPCError err caPath =
     (let msg = to_lower err in
      if contains msg ''unexpected http status code received from server: 404''
         \<or> contains msg (''unexpected content-type '' @ CHR 0x22 # ''application/json'')
      then ''admin grpc endpoint is not the direct gRPC port (likely nginx/http endpoint): '' @ err
      else if contains msg ''certificate signed by unknown authority''
      then ''admin tls verification failed (ca mismatch at '' @ trim_space caPath
           @ ''); update agent CA file to current Aurora Admin CA and retry: '' @ err
      else err)"

subsection \<open>The client and its environment\<close>

record leaf =
  lf_not_before :: int
  lf_not_after :: int

record cert_response =
  cr_client_cert :: string
  cr_server_cert :: string
  cr_admin_ca :: string

text \<open>
  A certificate file is its PEM blocks, each with its type and what \<^verbatim>\<open>x509.ParseCertificate\<close>
  says of its bytes.  A failed write names the content it left behind, if it touched the file.
\<close>

record admin_env =
  en_now :: "nat \<Rightarrow> int"
  en_cert_file :: "nat \<Rightarrow> string \<Rightarrow> string + (string \<times> (string + leaf)) list"
  en_exists :: "nat \<Rightarrow> string \<Rightarrow> bool"
  en_ca_pool :: "nat \<Rightarrow> string \<Rightarrow> string + bool"
  en_csr :: "nat \<Rightarrow> bool \<Rightarrow> string + string \<times> string"
  en_tls :: "nat \<Rightarrow> string + string"
  en_dial :: "nat \<Rightarrow> string option"
  en_renew :: "nat \<Rightarrow> string + cert_response"
  en_bootstrap :: "nat \<Rightarrow> string + cert_response"
  en_write :: "nat \<Rightarrow> (string \<times> string option) option"

record client =
  cl_conn :: "nat option"
  cl_open :: "nat list"
  cl_server_name :: string
  cl_renew_mu :: bool
  cl_last_cert_check :: "int option"
  cl_disk :: "string \<Rightarrow> string option"
  cl_calls :: "nat list"
  cl_tick :: nat

datatype 'a run = Done 'a | Blocked | Out_of_fuel

definition ask :: "(nat \<Rightarrow> 'a) \<Rightarrow> client \<Rightarrow> 'a \<times> client" where
  "ask f c = (f (cl_tick c), c\<lparr>cl_tick := Suc (cl_tick c)\<rparr>)"

text \<open>
  \<^verbatim>\<open>reconnect\<close>: the new connection is named by the question that opened it; the old one is
  closed after the new one is stored.
\<close>

definition closeOld :: "nat option \<Rightarrow> nat list \<Rightarrow> nat list" where
  "closeOld old conns = (case old of None \<Rightarrow> conns | Some n \<Rightarrow> remove1 n conns)"

definition reconnect :: "admin_env \<Rightarrow> string \<Rightarrow> client \<Rightarrow> string option \<times> client" where
  "reconnect E inferredServerName c =
     (case ask (en_tls E) c of
        (Inl e, c1) \<Rightarrow> (Some e, c1)
      | (Inr serverName, c1) \<Rightarrow>
          (case ask (en_dial E) c1 of
             (Some e, c2) \<Rightarrow> (Some (''dial admin rpc failed: '' @ e), c2)
           | (None, c2) \<Rightarrow>
               (None, c2\<lparr>cl_conn := Some (cl_tick c1),
                         cl_open := closeOld (cl_conn c2) (cl_open c2 @ [cl_tick c1]),
                         cl_server_name := (if trim_space serverName = [] then inferredServerName
                                            else serverName)\<rparr>)))"

definition Close :: "client \<Rightarrow> client" where
  "Close c = c\<lparr>cl_conn := None, cl_open := closeOld (cl_conn c) (cl_open c)\<rparr>"

subsection \<open>Writing certificates\<close>

definition writeSecureFile :: "admin_env \<Rightarrow> string \<Rightarrow> string \<Rightarrow> client \<Rightarrow> string option \<times> client" where
  "writeSecureFile E path content c =
     (if trim_space path = [] then (Some ''path is empty'', c)
      else case ask (en_write E) c of
             (None, c1) \<Rightarrow> (None, c1\<lparr>cl_disk := (cl_disk c1)(trim_space path \<mapsto> content)\<rparr>)
           | (Some (e, None), c1) \<Rightarrow> (Some e, c1)
           | (Some (e, Some torn), c1) \<Rightarrow> (Some e, c1\<lparr>cl_disk := (cl_disk c1)(trim_space path \<mapsto> torn)\<rparr>))"

fun writeSecureFiles :: "admin_env \<Rightarrow> (string \<times> string \<times> string) list \<Rightarrow> client \<Rightarrow> string option \<times> client" where
  "writeSecureFiles E [] c = (None, c)"
| "writeSecureFiles E ((what, path, content) # files) c =
     (case writeSecureFile E path content c of
        (Some e, c1) \<Rightarrow> (Some (''write '' @ what @ '' failed: '' @ e), c1)
      | (None, c1) \<Rightarrow> writeSecureFiles E files c1)"

definition newline :: string where "newline = [CHR 0x0A]"

definition certificateFiles :: "config \<Rightarrow> string list \<Rightarrow> string \<Rightarrow> string \<Rightarrow> cert_response \<Rightarrow> (string \<times> string \<times> string) list" where
  "certificateFiles cfg labels clientKey serverKey resp =
     zip labels
       [(cfg_client_key_path cfg, trim_space clientKey @ newline),
        (cfg_client_cert_path cfg, trim_space (cr_client_cert resp) @ newline),
        (cfg_server_key_path cfg, trim_space serverKey @ newline),
        (cfg_server_cert_path cfg, trim_space (cr_server_cert resp) @ newline),
        (cfg_admin_server_ca_path cfg, trim_space (cr_admin_ca resp) @ newline)]"

definition missingCertificate :: "cert_response \<Rightarrow> bool" where
  "missingCertificate resp \<longleftrightarrow>
     trim_space (cr_client_cert resp) = [] \<or> trim_space (cr_server_cert resp) = []
     \<or> trim_space (cr_admin_ca resp) = []"

subsection \<open>Bootstrap\<close>

definition certAndKeyExists :: "(string \<Rightarrow> bool) \<Rightarrow> string \<Rightarrow> string \<Rightarrow> bool" where
  "certAndKeyExists ex certPath keyPath =
     (if trim_space certPath = [] \<or> trim_space keyPath = [] then False
      else ex (trim_space certPath) \<and> ex (trim_space keyPath))"

definition buildBootstrapTLSConfig :: "admin_env \<Rightarrow> config \<Rightarrow> string \<Rightarrow> client \<Rightarrow> (string + string) \<times> client" where
  "buildBootstrapTLSConfig E cfg inferredServerName c =
     (let caPath = trim_space (cfg_admin_server_ca_path cfg) in
      if caPath = [] then (Inl ''AURORA_ADMIN_SERVER_CA_PATH is required'', c)
      else case ask (\<lambda>t. en_ca_pool E t caPath) c of
             (Inl e, c1) \<Rightarrow> (Inl (''read admin ca file failed: '' @ e), c1)
           | (Inr False, c1) \<Rightarrow> (Inl ''invalid admin ca pem'', c1)
           | (Inr True, c1) \<Rightarrow>
               (Inr (if trim_space (cfg_admin_server_name cfg) \<noteq> [] then trim_space (cfg_admin_server_name cfg)
                     else inferredServerName), c1))"

definition bootstrapLabels :: "string list" where
  "bootstrapLabels = [''agent client tls key'', ''agent client tls cert'', ''agent serving tls key'',
     ''agent serving tls cert'', ''admin ca cert'']"

definition bootstrapExchange :: "admin_env \<Rightarrow> config \<Rightarrow> string \<Rightarrow> string \<Rightarrow> client \<Rightarrow> string option \<times> client" where
  "bootstrapExchange E cfg clientKey serverKey c =
     (case ask (en_dial E) c of
        (Some e, c1) \<Rightarrow> (Some (''dial admin bootstrap rpc failed: '' @ e), c1)
      | (None, c1) \<Rightarrow>
          (case ask (en_bootstrap E) c1 of
             (Inl e, c2) \<Rightarrow> (Some (''bootstrap agent rpc failed: '' @ e), c2)
           | (Inr resp, c2) \<Rightarrow>
               if missingCertificate resp then (Some ''bootstrap rpc response missing certificates'', c2)
               else if trim_space clientKey = [] \<or> trim_space serverKey = []
               then (Some ''generated client key is empty'', c2)
               else writeSecureFiles E (certificateFiles cfg bootstrapLabels clientKey serverKey resp) c2))"

definition ensureAgentClientCertificate :: "admin_env \<Rightarrow> config \<Rightarrow> string \<Rightarrow> bool \<Rightarrow> client \<Rightarrow> string option \<times> client" where
  "ensureAgentClientCertificate E cfg inferredServerName force c =
     (let ex = en_exists E (cl_tick c) in
      if \<not> force \<and> certAndKeyExists ex (cfg_client_cert_path cfg) (cfg_client_key_path cfg)
         \<and> certAndKeyExists ex (cfg_server_cert_path cfg) (cfg_server_key_path cfg)
      then (None, c)
      else if trim_space (cfg_bootstrap_token cfg) = []
      then (Some ''missing agent tls materials and bootstrap token'', c)
      else case ask (\<lambda>t. en_csr E t False) c of
             (Inl e, c1) \<Rightarrow> (Some e, c1)
           | (Inr (clientKey, _), c1) \<Rightarrow>
               (case ask (\<lambda>t. en_csr E t True) c1 of
                  (Inl e, c2) \<Rightarrow> (Some e, c2)
                | (Inr (serverKey, _), c2) \<Rightarrow>
                    (case buildBootstrapTLSConfig E cfg inferredServerName c2 of
                       (Inl e, c3) \<Rightarrow> (Some e, c3)
                     | (Inr _, c3) \<Rightarrow> bootstrapExchange E cfg clientKey serverKey c3)))"

subsection \<open>Renewal of certificates\<close>

definition certRenewCheckInterval :: duration where "certRenewCheckInterval = 1 * minute"

fun firstCertificate :: "(string \<times> (string + leaf)) list \<Rightarrow> string + leaf" where
  "firstCertificate [] = Inl ''no certificate block found''"
| "firstCertificate ((kind, parsed) # blocks) =
     (if kind \<noteq> ''CERTIFICATE'' then firstCertificate blocks else parsed)"

definition loadLeafCertificate :: "admin_env \<Rightarrow> string \<Rightarrow> client \<Rightarrow> (string + leaf) \<times> client" where
  "loadLeafCertificate E certPath c =
     (case ask (\<lambda>t. en_cert_file E t (trim_space certPath)) c of
        (Inl e, c1) \<Rightarrow> (Inl (''read tls cert failed: '' @ e), c1)
      | (Inr blocks, c1) \<Rightarrow> (firstCertificate blocks, c1))"

text \<open>\<^verbatim>\<open>lifetime / 5\<close> of a positive number of nanoseconds.\<close>

definition calculateRenewBeforeWindow :: "leaf \<Rightarrow> duration" where
  "calculateRenewBeforeWindow cert =
     (let lifetime = lf_not_after cert - lf_not_before cert in
      if lifetime \<le> 0 then 24 * hour
      else let window = lifetime div 5;
               window = (if window < 6 * hour then 6 * hour else window)
           in if window > 72 * hour then 72 * hour else window)"

definition renewLabels :: "string list" where
  "renewLabels = [''renewed client tls key'', ''renewed client tls cert'', ''renewed serving tls key'',
     ''renewed serving tls cert'', ''renewed tls ca'']"

text \<open>
  The call of the renewal, made through \<^verbatim>\<open>invokeWithRecovery\<close>, is the argument \<open>invoke\<close>.
\<close>

definition renewClientCertificate ::
    "admin_env \<Rightarrow> config \<Rightarrow> string \<Rightarrow> (client \<Rightarrow> (string + cert_response) run \<times> client)
       \<Rightarrow> client \<Rightarrow> string option run \<times> client" where
  "renewClientCertificate E cfg inferredServerName invoke c =
     (case ask (\<lambda>t. en_csr E t False) c of
        (Inl e, c1) \<Rightarrow> (Done (Some e), c1)
      | (Inr (clientKey, _), c1) \<Rightarrow>
          (case ask (\<lambda>t. en_csr E t True) c1 of
             (Inl e, c2) \<Rightarrow> (Done (Some e), c2)
           | (Inr (serverKey, _), c2) \<Rightarrow>
               (case invoke c2 of
                  (Blocked, c3) \<Rightarrow> (Blocked, c3)
                | (Out_of_fuel, c3) \<Rightarrow> (Out_of_fuel, c3)
                | (Done (Inl e), c3) \<Rightarrow> (Done (Some e), c3)
                | (Done (Inr resp), c3) \<Rightarrow>
                    if missingCertificate resp
                    then (Done (Some ''renew certificate response missing cert chain''), c3)
                    else (case writeSecureFiles E (certificateFiles cfg renewLabels clientKey serverKey resp) c3 of
                            (Some e, c4) \<Rightarrow> (Done (Some e), c4)
                          | (None, c4) \<Rightarrow>
                              (case reconnect E inferredServerName c4 of (r, c5) \<Rightarrow> (Done r, c5))))))"

definition nearExpiry :: "int \<Rightarrow> leaf \<Rightarrow> leaf \<Rightarrow> bool" where
  "nearExpiry now clientLeaf serverLeaf =
     (let targetLeaf = (if lf_not_after serverLeaf < lf_not_after clientLeaf then serverLeaf else clientLeaf)
      in \<not> now < lf_not_after targetLeaf - calculateRenewBeforeWindow targetLeaf)"

definition renewCheckBody ::
    "admin_env \<Rightarrow> config \<Rightarrow> (client \<Rightarrow> string option run \<times> client) \<Rightarrow> client \<Rightarrow> string option run \<times> client" where
  "renewCheckBody E cfg renew c =
     (let now = en_now E (cl_tick c) in
      if (case cl_last_cert_check c of None \<Rightarrow> False | Some t \<Rightarrow> now - t < certRenewCheckInterval)
      then (Done None, c)
      else case loadLeafCertificate E (cfg_client_cert_path cfg) (c\<lparr>cl_last_cert_check := Some now\<rparr>) of
             (Inl e, c2) \<Rightarrow> (Done (Some e), c2)
           | (Inr clientLeaf, c2) \<Rightarrow>
               (case loadLeafCertificate E (cfg_server_cert_path cfg) c2 of
                  (Inl e, c3) \<Rightarrow> (Done (Some e), c3)
                | (Inr serverLeaf, c3) \<Rightarrow>
                    if \<not> nearExpiry now clientLeaf serverLeaf then (Done None, c3) else renew c3))"

text \<open>The body runs between \<^verbatim>\<open>certRenewMu.Lock()\<close> and the deferred \<^verbatim>\<open>Unlock\<close>.\<close>

definition lockedRenewCheck ::
    "admin_env \<Rightarrow> config \<Rightarrow> (client \<Rightarrow> string option run \<times> client) \<Rightarrow> client \<Rightarrow> string option run \<times> client" where
  "lockedRenewCheck E cfg renew c =
     (if cl_renew_mu c then (Blocked, c)
      else case renewCheckBody E cfg renew (c\<lparr>cl_renew_mu := True\<rparr>) of
             (Done r, c1) \<Rightarrow> (Done r, c1\<lparr>cl_renew_mu := False\<rparr>)
           | (Blocked, c1) \<Rightarrow> (Blocked, c1)
           | (Out_of_fuel, c1) \<Rightarrow> (Out_of_fuel, c1))"

subsection \<open>Calls with recovery\<close>

text \<open>
  \<open>call\<close> is the invocation of one gRPC method: what it returns, by the question number.  The
  first argument is \<^verbatim>\<open>maybeRenewClientCertificate\<close>.
\<close>

definition invoke :: "(nat \<Rightarrow> string + 'r) \<Rightarrow> nat \<Rightarrow> client \<Rightarrow> (string + 'r) \<times> client" where
  "invoke call conn c = ask call (c\<lparr>cl_calls := cl_calls c @ [conn]\<rparr>)"

definition rotateAndRetry ::
    "admin_env \<Rightarrow> config \<Rightarrow> string \<Rightarrow> (nat \<Rightarrow> string + 'r) \<Rightarrow> string \<Rightarrow> client \<Rightarrow> (string + 'r) \<times> client" where
  "rotateAndRetry E cfg inferredServerName call retryErr c =
     (let classify = (\<lambda>e. classifyAdminRPCError e (cfg_admin_server_ca_path cfg)) in
      if \<not> shouldTryBootstrapRotation retryErr (cfg_bootstrap_token cfg)
      then (Inl (classify retryErr), c)
      else case ensureAgentClientCertificate E cfg inferredServerName True c of
             (Some _, c1) \<Rightarrow> (Inl (classify retryErr), c1)
           | (None, c1) \<Rightarrow>
               (case reconnect E inferredServerName c1 of
                  (Some _, c2) \<Rightarrow> (Inl (classify retryErr), c2)
                | (None, c2) \<Rightarrow>
                    (case cl_conn c2 of
                       None \<Rightarrow> (Inl (classify retryErr), c2)
                     | Some lastConn \<Rightarrow>
                         (case invoke call lastConn c2 of
                            (Inr x, c3) \<Rightarrow> (Inr x, c3)
                          | (Inl lastErr, c3) \<Rightarrow> (Inl (classify lastErr), c3)))))"

definition invokeOn ::
    "admin_env \<Rightarrow> config \<Rightarrow> string \<Rightarrow> (nat \<Rightarrow> string + 'r) \<Rightarrow> nat \<Rightarrow> client \<Rightarrow> (string + 'r) \<times> client" where
  "invokeOn E cfg inferredServerName call conn c =
     (let classify = (\<lambda>e. classifyAdminRPCError e (cfg_admin_server_ca_path cfg)) in
      case invoke call conn c of
        (Inr x, c1) \<Rightarrow> (Inr x, c1)
      | (Inl err, c1) \<Rightarrow>
          if \<not> isRecoverableAdminRPCError err then (Inl (classify err), c1)
          else case reconnect E inferredServerName c1 of
                 (Some e, c2) \<Rightarrow> (Inl (classify err @ ''; reconnect failed: '' @ classify e), c2)
               | (None, c2) \<Rightarrow>
                   (case cl_conn c2 of
                      None \<Rightarrow> (Inl (classify err @ ''; reconnect failed: connection unavailable''), c2)
                    | Some retryConn \<Rightarrow>
                        (case invoke call retryConn c2 of
                           (Inr x, c3) \<Rightarrow> (Inr x, c3)
                         | (Inl retryErr, c3) \<Rightarrow> rotateAndRetry E cfg inferredServerName call retryErr c3)))"

definition invokeConnected ::
    "admin_env \<Rightarrow> config \<Rightarrow> string \<Rightarrow> (nat \<Rightarrow> string + 'r) \<Rightarrow> client \<Rightarrow> (string + 'r) \<times> client" where
  "invokeConnected E cfg inferredServerName call c =
     (case cl_conn c of
        Some conn \<Rightarrow> invokeOn E cfg inferredServerName call conn c
      | None \<Rightarrow>
          (case reconnect E inferredServerName c of
             (Some e, c1) \<Rightarrow> (Inl (classifyAdminRPCError e (cfg_admin_server_ca_path cfg)), c1)
           | (None, c1) \<Rightarrow>
               (case cl_conn c1 of
                  None \<Rightarrow> (Inl ''admin rpc connection is unavailable'', c1)
                | Some conn \<Rightarrow> invokeOn E cfg inferredServerName call conn c1)))"

text \<open>
  The preflight's error is logged and ignored; a preflight that never returns takes the call
  with it.
\<close>

definition invokeWithRecovery ::
    "(client \<Rightarrow> string option run \<times> client) \<Rightarrow> admin_env \<Rightarrow> config \<Rightarrow> string \<Rightarrow> (nat \<Rightarrow> string + 'r)
       \<Rightarrow> client \<Rightarrow> (string + 'r) run \<times> client" where
  "invokeWithRecovery maybeRenew E cfg inferredServerName call c =
     (case maybeRenew c of
        (Blocked, c1) \<Rightarrow> (Blocked, c1)
      | (Out_of_fuel, c1) \<Rightarrow> (Out_of_fuel, c1)
      | (Done _, c1) \<Rightarrow>
          (case invokeConnected E cfg inferredServerName call c1 of (r, c2) \<Rightarrow> (Done r, c2)))"

text \<open>
  \<^verbatim>\<open>maybeRenewClientCertificate\<close>, \<^verbatim>\<open>renewClientCertificate\<close> and \<^verbatim>\<open>invokeWithRecovery\<close> call each
  other.  The fuel bounds the nesting; \<open>one_level_suffices\<close> below shows that one level is all
  there ever is.
\<close>

fun maybeRenewClientCertificate ::
    "nat \<Rightarrow> admin_env \<Rightarrow> config \<Rightarrow> string \<Rightarrow> client \<Rightarrow> string option run \<times> client" where
  "maybeRenewClientCertificate 0 E cfg inferredServerName c =
     lockedRenewCheck E cfg (\<lambda>c. (Out_of_fuel, c)) c"
| "maybeRenewClientCertificate (Suc fuel) E cfg inferredServerName c =
     lockedRenewCheck E cfg
       (renewClientCertificate E cfg inferredServerName
          (invokeWithRecovery (maybeRenewClientCertificate fuel E cfg inferredServerName)
             E cfg inferredServerName (en_renew E))) c"

subsection \<open>What a preflight can and cannot do\<close>

lemma ask_simps [simp]:
  "fst (ask f c) = f (cl_tick c)" "cl_renew_mu (snd (ask f c)) = cl_renew_mu c"
  "cl_calls (snd (ask f c)) = cl_calls c" "cl_disk (snd (ask f c)) = cl_disk c"
  "cl_conn (snd (ask f c)) = cl_conn c" "cl_open (snd (ask f c)) = cl_open c"
  by (simp_all add: ask_def)

text \<open>The parts of the client the outside world sees.\<close>

definition same_contact :: "client \<Rightarrow> client \<Rightarrow> bool" where
  "same_contact c c' \<longleftrightarrow>
     cl_calls c' = cl_calls c \<and> cl_disk c' = cl_disk c \<and> cl_conn c' = cl_conn c \<and> cl_open c' = cl_open c"

lemma same_contact_refl [simp]: "same_contact c c"
  by (simp add: same_contact_def)

lemma same_contact_trans: "same_contact a b \<Longrightarrow> same_contact b c \<Longrightarrow> same_contact a c"
  by (simp add: same_contact_def)

lemma ask_same_contact: "ask f c = (x, c') \<Longrightarrow> same_contact c c' \<and> cl_renew_mu c' = cl_renew_mu c"
  by (auto simp: ask_def same_contact_def)

lemma loadLeaf_same_contact:
  "loadLeafCertificate E p c = (x, c') \<Longrightarrow> same_contact c c' \<and> cl_renew_mu c' = cl_renew_mu c"
  by (auto simp: loadLeafCertificate_def split: prod.splits sum.splits dest: ask_same_contact)

lemma held_lock_blocks:
  "cl_renew_mu c \<Longrightarrow> maybeRenewClientCertificate fuel E cfg nm c = (Blocked, c)"
  by (cases fuel) (simp_all add: lockedRenewCheck_def)

lemma held_lock_blocks_calls:
  "cl_renew_mu c
   \<Longrightarrow> invokeWithRecovery (maybeRenewClientCertificate fuel E cfg nm) E cfg nm call c = (Blocked, c)"
  by (simp add: invokeWithRecovery_def held_lock_blocks)

text \<open>The renewal itself, entered with the lock held: its own call blocks before any traffic.\<close>

lemma renewal_under_lock:
  assumes "cl_renew_mu c"
    and "renewClientCertificate E cfg nm
       (invokeWithRecovery (maybeRenewClientCertificate fuel E cfg nm) E cfg nm call) c = (r, c')"
  shows "same_contact c c' \<and> cl_renew_mu c'
    \<and> (case en_csr E (cl_tick c) False of
         Inl e \<Rightarrow> r = Done (Some e)
       | Inr _ \<Rightarrow> (case en_csr E (Suc (cl_tick c)) True of Inl e \<Rightarrow> r = Done (Some e) | Inr _ \<Rightarrow> r = Blocked))"
  using assms
  by (auto simp: renewClientCertificate_def ask_def held_lock_blocks_calls same_contact_def
      split: prod.splits sum.splits)

lemma renewCheckBody_cases:
  assumes "renewCheckBody E cfg renew c = (r, c')" and "cl_renew_mu c"
  obtains (stop) "same_contact c c'" "cl_renew_mu c'" "\<exists>x. r = Done x"
  | (renew) c3 where "same_contact c c3" "cl_renew_mu c3" "renew c3 = (r, c')"
proof -
  let ?c1 = "c\<lparr>cl_last_cert_check := Some (en_now E (cl_tick c))\<rparr>"
  have s1: "same_contact c ?c1" "cl_renew_mu ?c1" using assms(2) by (simp_all add: same_contact_def)
  obtain x c2 where l1: "loadLeafCertificate E (cfg_client_cert_path cfg) ?c1 = (x, c2)" by (metis surj_pair)
  obtain y c3 where l2: "loadLeafCertificate E (cfg_server_cert_path cfg) c2 = (y, c3)" by (metis surj_pair)
  have s2: "same_contact c c2" "cl_renew_mu c2"
    using s1 loadLeaf_same_contact [OF l1] same_contact_trans by blast+
  then have s3: "same_contact c c3" "cl_renew_mu c3"
    using loadLeaf_same_contact [OF l2] same_contact_trans by blast+
  show ?thesis
    using assms s1 s2 s3 l1 l2 stop renew
    by (auto simp: renewCheckBody_def Let_def split: if_splits sum.splits option.splits)
qed

lemma one_level_suffices:
  assumes "maybeRenewClientCertificate (Suc fuel) E cfg nm c = (r, c')"
  shows "r \<noteq> Out_of_fuel \<and> same_contact c c' \<and> (cl_renew_mu c' \<longleftrightarrow> r = Blocked)"
proof (cases "cl_renew_mu c")
  case True
  then show ?thesis using assms held_lock_blocks [of c "Suc fuel"] by simp
next
  case False
  let ?c0 = "c\<lparr>cl_renew_mu := True\<rparr>"
  let ?renew = "renewClientCertificate E cfg nm
      (invokeWithRecovery (maybeRenewClientCertificate fuel E cfg nm) E cfg nm (en_renew E))"
  obtain x c1 where b: "renewCheckBody E cfg ?renew ?c0 = (x, c1)" by (metis surj_pair)
  have mu: "cl_renew_mu ?c0" and sc: "same_contact c ?c0" by (simp_all add: same_contact_def)
  from b mu have "x \<noteq> Out_of_fuel \<and> same_contact ?c0 c1 \<and> cl_renew_mu c1"
  proof (cases rule: renewCheckBody_cases)
    case (renew c3)
    have "same_contact c3 c1 \<and> cl_renew_mu c1 \<and> x \<noteq> Out_of_fuel"
      using renewal_under_lock [OF renew(2,3)] by (auto split: sum.splits)
    then show ?thesis using renew(1) same_contact_trans by blast
  qed auto
  moreover have "(r, c') = (case x of Done y \<Rightarrow> (Done y, c1\<lparr>cl_renew_mu := False\<rparr>) | Blocked \<Rightarrow> (Blocked, c1)
      | Out_of_fuel \<Rightarrow> (Out_of_fuel, c1))"
    using assms False b by (simp add: lockedRenewCheck_def split: run.splits)
  ultimately show ?thesis using sc by (cases x) (auto simp: same_contact_def)
qed

text \<open>
  C14: the certificate renewal never gets to renew anything: whatever the environment answers,
  the preflight sends no call, writes no file and changes no connection; and a preflight that
  does not return leaves its mutex locked.
\<close>

theorem renewal_has_no_effect:
  assumes "maybeRenewClientCertificate (Suc fuel) E cfg nm c = (r, c')"
  shows "cl_calls c' = cl_calls c \<and> cl_disk c' = cl_disk c \<and> cl_conn c' = cl_conn c
     \<and> r \<noteq> Out_of_fuel \<and> (cl_renew_mu c' \<longleftrightarrow> r = Blocked)"
  using one_level_suffices [OF assms] by (simp add: same_contact_def)

text \<open>A renewal is due when the throttle lets it pass and a certificate is near its end.\<close>

definition renewal_due :: "admin_env \<Rightarrow> config \<Rightarrow> client \<Rightarrow> bool" where
  "renewal_due E cfg c \<longleftrightarrow>
     (let t = cl_tick c; now = en_now E t in
      (case cl_last_cert_check c of None \<Rightarrow> True | Some t0 \<Rightarrow> certRenewCheckInterval \<le> now - t0)
      \<and> (case (fst (loadLeafCertificate E (cfg_client_cert_path cfg) (c\<lparr>cl_tick := t\<rparr>)),
               fst (loadLeafCertificate E (cfg_server_cert_path cfg) (c\<lparr>cl_tick := Suc t\<rparr>))) of
           (Inr clientLeaf, Inr serverLeaf) \<Rightarrow> nearExpiry now clientLeaf serverLeaf
         | _ \<Rightarrow> False))"

lemma loadLeaf_tick:
  "loadLeafCertificate E p c =
     (fst (loadLeafCertificate E p (d\<lparr>cl_tick := cl_tick c\<rparr>)), c\<lparr>cl_tick := Suc (cl_tick c)\<rparr>)"
  by (simp add: loadLeafCertificate_def ask_def split: sum.splits)

lemma due_renewal_blocks:
  assumes "\<not> cl_renew_mu c" and "renewal_due E cfg c"
    and "is_ok (en_csr E (cl_tick c + 2) False)" and "is_ok (en_csr E (cl_tick c + 3) True)"
  shows "fst (maybeRenewClientCertificate (Suc fuel) E cfg nm c) = Blocked"
proof -
  let ?now = "en_now E (cl_tick c)"
  let ?c0 = "c\<lparr>cl_renew_mu := True\<rparr>"
  let ?c1 = "?c0\<lparr>cl_last_cert_check := Some ?now\<rparr>"
  let ?c3 = "?c1\<lparr>cl_tick := cl_tick c + 2\<rparr>"
  let ?renew = "renewClientCertificate E cfg nm
      (invokeWithRecovery (maybeRenewClientCertificate fuel E cfg nm) E cfg nm (en_renew E))"
  obtain lc ls where lv:
    "fst (loadLeafCertificate E (cfg_client_cert_path cfg) (c\<lparr>cl_tick := cl_tick c\<rparr>)) = Inr lc"
    "fst (loadLeafCertificate E (cfg_server_cert_path cfg) (c\<lparr>cl_tick := Suc (cl_tick c)\<rparr>)) = Inr ls"
    "nearExpiry ?now lc ls"
    using assms(2) by (auto simp: renewal_due_def Let_def split: sum.splits prod.splits)
  have l1: "loadLeafCertificate E (cfg_client_cert_path cfg) ?c1 = (Inr lc, ?c1\<lparr>cl_tick := Suc (cl_tick c)\<rparr>)"
    using loadLeaf_tick [of E "cfg_client_cert_path cfg" ?c1 c] lv(1) by simp
  have l2: "loadLeafCertificate E (cfg_server_cert_path cfg) (?c1\<lparr>cl_tick := Suc (cl_tick c)\<rparr>) = (Inr ls, ?c3)"
    using loadLeaf_tick [of E "cfg_server_cert_path cfg" "?c1\<lparr>cl_tick := Suc (cl_tick c)\<rparr>" c] lv(2) by simp
  have pass: "\<not> (case cl_last_cert_check ?c0 of None \<Rightarrow> False | Some t \<Rightarrow> ?now - t < certRenewCheckInterval)"
    using assms(2) by (auto simp: renewal_due_def Let_def split: option.splits)
  have b: "renewCheckBody E cfg ?renew ?c0 = ?renew ?c3"
    using pass l1 l2 lv(3) by (simp add: renewCheckBody_def Let_def)
  obtain r c4 where rn: "?renew ?c3 = (r, c4)" by (metis surj_pair)
  have "r = Blocked"
    using renewal_under_lock [OF _ rn] assms(3,4)
    by (auto simp: is_ok_iff numeral_2_eq_2 numeral_3_eq_3)
  with b rn assms(1) show ?thesis by (simp add: lockedRenewCheck_def)
qed

lemma deadlock:
  assumes "\<not> cl_renew_mu c" and "renewal_due E cfg c"
    and "is_ok (en_csr E (cl_tick c + 2) False)" and "is_ok (en_csr E (cl_tick c + 3) True)"
  shows "\<exists>c'. invokeWithRecovery (maybeRenewClientCertificate (Suc fuel) E cfg nm) E cfg nm call c = (Blocked, c')
     \<and> cl_calls c' = cl_calls c
     \<and> (\<forall>n call2. invokeWithRecovery (maybeRenewClientCertificate n E cfg nm) E cfg nm call2 c' = (Blocked, c'))"
proof -
  obtain c' where m: "maybeRenewClientCertificate (Suc fuel) E cfg nm c = (Blocked, c')"
    using due_renewal_blocks [OF assms, of fuel nm] by (metis prod.collapse)
  have "cl_calls c' = cl_calls c \<and> cl_renew_mu c'"
    using one_level_suffices [OF m] by (simp add: same_contact_def)
  moreover have "invokeWithRecovery (maybeRenewClientCertificate (Suc fuel) E cfg nm) E cfg nm call c = (Blocked, c')"
    using m by (simp add: invokeWithRecovery_def del: maybeRenewClientCertificate.simps)
  ultimately show ?thesis
    using held_lock_blocks_calls by (intro exI [of _ c']) blast
qed

text \<open>
  C13: once a certificate is near its expiry, the next call to the control plane never returns
  and sends nothing, and neither does any call after it: the renewal is started while the
  preflight holds its mutex, and the renewal's own call runs the preflight again.  The renewal
  starts when the last check is a minute or more ago and the keys and requests can be made.
\<close>

theorem certificate_renewal_deadlocks:
  assumes "\<not> cl_renew_mu c" and "renewal_due E cfg c"
    and "is_ok (en_csr E (cl_tick c + 2) False)" and "is_ok (en_csr E (cl_tick c + 3) True)"
  shows "\<exists>c'. invokeWithRecovery (maybeRenewClientCertificate (Suc fuel) E cfg nm) E cfg nm call c = (Blocked, c')
     \<and> cl_calls c' = cl_calls c
     \<and> (\<forall>n call2. invokeWithRecovery (maybeRenewClientCertificate n E cfg nm) E cfg nm call2 c' = (Blocked, c'))"
  by (rule deadlock [OF assms])

subsection \<open>Calls and connections\<close>

text \<open>Exactly the current connection is open.\<close>

definition conns_ok :: "client \<Rightarrow> bool" where
  "conns_ok c \<longleftrightarrow> cl_open c = (case cl_conn c of None \<Rightarrow> [] | Some n \<Rightarrow> [n])"

lemma reconnect_cases:
  assumes "reconnect E nm c = (r, c')"
  shows "cl_calls c' = cl_calls c \<and> (conns_ok c \<longrightarrow> conns_ok c') \<and> (r = None \<longrightarrow> cl_conn c' \<noteq> None)"
  using assms
  by (auto simp: reconnect_def ask_def conns_ok_def closeOld_def split: prod.splits sum.splits option.splits)

lemma Close_conns_ok: "conns_ok c \<Longrightarrow> conns_ok (Close c) \<and> cl_open (Close c) = []"
  by (auto simp: Close_def conns_ok_def closeOld_def split: option.splits)

lemma writeSecureFile_frame:
  "writeSecureFile E p x c = (r, c') \<Longrightarrow>
     cl_calls c' = cl_calls c \<and> cl_open c' = cl_open c \<and> cl_conn c' = cl_conn c"
  by (auto simp: writeSecureFile_def ask_def split: if_splits prod.splits option.splits)

lemma writeSecureFiles_frame:
  "writeSecureFiles E files c = (r, c') \<Longrightarrow>
     cl_calls c' = cl_calls c \<and> cl_open c' = cl_open c \<and> cl_conn c' = cl_conn c"
proof (induction E files c rule: writeSecureFiles.induct)
  case (2 E what path content files c)
  then show ?case
    by (auto split: prod.splits option.splits dest!: writeSecureFile_frame)
qed simp

lemma buildBootstrapTLSConfig_frame:
  "buildBootstrapTLSConfig E cfg nm c = (r, c') \<Longrightarrow>
     cl_calls c' = cl_calls c \<and> cl_open c' = cl_open c \<and> cl_conn c' = cl_conn c"
  by (auto simp: buildBootstrapTLSConfig_def Let_def ask_def split: if_splits prod.splits sum.splits bool.splits)

lemma bootstrapExchange_frame:
  "bootstrapExchange E cfg k s c = (r, c') \<Longrightarrow>
     cl_calls c' = cl_calls c \<and> cl_open c' = cl_open c \<and> cl_conn c' = cl_conn c"
  by (auto simp: bootstrapExchange_def ask_def split: if_splits prod.splits sum.splits option.splits
      dest!: writeSecureFiles_frame)

lemma ensure_frame:
  "ensureAgentClientCertificate E cfg nm force c = (r, c') \<Longrightarrow>
     cl_calls c' = cl_calls c \<and> cl_open c' = cl_open c \<and> cl_conn c' = cl_conn c"
  by (auto simp: ensureAgentClientCertificate_def Let_def ask_def split: if_splits prod.splits sum.splits
      dest!: bootstrapExchange_frame buildBootstrapTLSConfig_frame)

text \<open>What one bounded series of invocations does: \<open>n\<close> invocations at most, the last one decides.\<close>

definition series :: "nat \<Rightarrow> (nat \<Rightarrow> string + 'r) \<Rightarrow> client \<Rightarrow> (string + 'r) \<times> client \<Rightarrow> bool" where
  "series n call c res \<longleftrightarrow>
     length (cl_calls (snd res)) \<le> length (cl_calls c) + n
     \<and> (conns_ok c \<longrightarrow> conns_ok (snd res))
     \<and> (\<forall>x. fst res = Inr x \<longrightarrow> (\<exists>t. call t = Inr x) \<and> length (cl_calls c) < length (cl_calls (snd res)))"

lemma series_Inl: "(conns_ok c \<longrightarrow> conns_ok c') \<Longrightarrow> cl_calls c' = cl_calls c \<Longrightarrow> series n call c (Inl e, c')"
  by (simp add: series_def)

lemma invoke_parts:
  assumes "invoke call conn c = (x, c')"
  shows "\<And>y. x = Inr y \<Longrightarrow> \<exists>t. call t = Inr y" "cl_calls c' = cl_calls c @ [conn]" "conns_ok c' = conns_ok c"
  using assms by (auto simp: invoke_def ask_def conns_ok_def)

lemma series_invoke: "invoke call conn c = (x, c') \<Longrightarrow> series (Suc n) call c (x, c')"
  using invoke_parts [of call conn c x c'] by (auto simp: series_def)

lemma series_after:
  assumes "length (cl_calls c1) \<le> length (cl_calls c) + k" "length (cl_calls c) \<le> length (cl_calls c1)"
    and "conns_ok c \<longrightarrow> conns_ok c1" and "series n call c1 res"
  shows "series (k + n) call c res"
  using assms by (fastforce simp: series_def)

lemma series_rotate: "series 1 call c (rotateAndRetry E cfg nm call err c)"
proof -
  let ?cl = "\<lambda>e. classifyAdminRPCError e (cfg_admin_server_ca_path cfg)"
  obtain x1 c1 where e: "ensureAgentClientCertificate E cfg nm True c = (x1, c1)" by (metis surj_pair)
  obtain x2 c2 where r: "reconnect E nm c1 = (x2, c2)" by (metis surj_pair)
  note e' = ensure_frame [OF e] and r' = reconnect_cases [OF r]
  have k1: "conns_ok c \<longrightarrow> conns_ok c1" "cl_calls c1 = cl_calls c" using e' by (simp_all add: conns_ok_def)
  have k2: "conns_ok c \<longrightarrow> conns_ok c2" "cl_calls c2 = cl_calls c" using k1 r' by simp_all
  have "series 1 call c
      (case cl_conn c2 of
         None \<Rightarrow> (Inl (?cl err), c2)
       | Some lastConn \<Rightarrow>
           (case invoke call lastConn c2 of (Inr x, c3) \<Rightarrow> (Inr x, c3) | (Inl lastErr, c3) \<Rightarrow> (Inl (?cl lastErr), c3)))"
  proof (cases "cl_conn c2")
    case (Some n)
    obtain x c3 where i: "invoke call n c2 = (x, c3)" by (metis surj_pair)
    show ?thesis
      using Some i invoke_parts [OF i] k2 by (cases x) (auto simp: series_def intro: sym)
  qed (simp add: series_Inl k2)
  then show ?thesis
    using k1 k2 e r by (auto simp: rotateAndRetry_def Let_def series_Inl split: option.splits)
qed

lemma series_invokeOn: "series 3 call c (invokeOn E cfg nm call conn c)"
proof -
  obtain x c1 where i: "invoke call conn c = (x, c1)" by (metis surj_pair)
  note ip = invoke_parts [OF i]
  show ?thesis
  proof (cases x)
    case (Inr y)
    then show ?thesis using i ip by (auto simp: invokeOn_def series_def)
  next
    case (Inl err)
    obtain r c2 where rc: "reconnect E nm c1 = (r, c2)" by (metis surj_pair)
    note rp = reconnect_cases [OF rc]
    show ?thesis
    proof (cases "r = None \<and> isRecoverableAdminRPCError err \<and> cl_conn c2 \<noteq> None")
      case False
      then show ?thesis
        using i ip Inl rc rp
        by (auto simp: invokeOn_def Let_def series_def split: option.splits)
    next
      case True
      then obtain n where n: "cl_conn c2 = Some n" by blast
      obtain y c3 where j: "invoke call n c2 = (y, c3)" by (metis surj_pair)
      note jp = invoke_parts [OF j]
      have eq: "invokeOn E cfg nm call conn c =
          (case y of Inr x \<Rightarrow> (Inr x, c3) | Inl e \<Rightarrow> rotateAndRetry E cfg nm call e c3)"
        using True i Inl rc n j by (simp add: invokeOn_def Let_def split: sum.splits)
      have k: "length (cl_calls c3) \<le> length (cl_calls c) + 2" "length (cl_calls c) \<le> length (cl_calls c3)"
        "conns_ok c \<longrightarrow> conns_ok c3"
        using ip rp jp by simp_all
      show ?thesis
      proof (cases y)
        case (Inl e)
        have "series (2 + 1) call c (rotateAndRetry E cfg nm call e c3)"
          by (rule series_after [OF k series_rotate])
        then show ?thesis using eq Inl by simp
      next
        case (Inr z)
        then show ?thesis using eq jp ip rp k by (auto simp: series_def)
      qed
    qed
  qed
qed

lemma series_connected: "series 3 call c (invokeConnected E cfg nm call c)"
proof (cases "cl_conn c")
  case None
  obtain r c1 where rc: "reconnect E nm c = (r, c1)" by (metis surj_pair)
  note rp = reconnect_cases [OF rc]
  show ?thesis
  proof (cases "\<exists>n. r = None \<and> cl_conn c1 = Some n")
    case True
    then obtain n where n: "r = None" "cl_conn c1 = Some n" by blast
    have "series (0 + 3) call c (invokeOn E cfg nm call n c1)"
      by (rule series_after [OF _ _ _ series_invokeOn]) (use rp in simp_all)
    then show ?thesis using None rc n by (simp add: invokeConnected_def)
  qed (use None rc rp in \<open>auto simp: invokeConnected_def series_Inl split: option.splits\<close>)
qed (simp add: invokeConnected_def series_invokeOn)

text \<open>
  C15: a call that returns has been sent at most three times, returns a result only if one of
  the invocations returned it, and leaves exactly the current connection open.
\<close>

theorem invokeWithRecovery_bounded:
  assumes "invokeWithRecovery (maybeRenewClientCertificate (Suc fuel) E cfg nm) E cfg nm call c = (Done r, c')"
    and "conns_ok c"
  shows "length (cl_calls c') \<le> length (cl_calls c) + 3 \<and> conns_ok c'
     \<and> (\<forall>x. r = Inr x \<longrightarrow> (\<exists>t. call t = Inr x) \<and> length (cl_calls c) < length (cl_calls c'))"
proof -
  obtain m c1 where m: "maybeRenewClientCertificate (Suc fuel) E cfg nm c = (m, c1)" by (metis surj_pair)
  from one_level_suffices [OF m] have s: "cl_calls c1 = cl_calls c" "conns_ok c1"
    using assms(2) by (auto simp: same_contact_def conns_ok_def)
  from assms(1) m have "invokeConnected E cfg nm call c1 = (r, c')"
    by (auto simp: invokeWithRecovery_def split: run.splits prod.splits)
  then show ?thesis using series_connected [of call c1 E cfg nm] s by (auto simp: series_def)
qed

subsection \<open>The target of the control plane\<close>

datatype target_error =
    Endpoint_empty
  | Endpoint_invalid string
  | Endpoint_not_tls
  | Endpoint_no_host string
  | Endpoint_no_port string
  | Endpoint_port_blank string

definition normalizeAdminRPCTarget :: "string \<Rightarrow> target_error + string \<times> string" where
  "normalizeAdminRPCTarget endpoint =
     (let raw = trim_space endpoint in
      if raw = [] then Inl Endpoint_empty
      else if contains raw ''://''
      then case url_parse raw of
             None \<Rightarrow> Inl (Endpoint_invalid endpoint)
           | Some parsed \<Rightarrow>
               if to_lower (trim_space (u_scheme parsed)) \<notin> {''https'', ''grpcs'', ''tls''} then Inl Endpoint_not_tls
               else let host = trim_space (url_hostname parsed) in
                 if host = [] then Inl (Endpoint_no_host endpoint)
                 else let port = trim_space (url_port parsed) in
                   if port = [] then Inl (Endpoint_no_port endpoint)
                   else Inr (join_host_port host port, host)
      else case split_host_port raw of
             None \<Rightarrow> Inl (Endpoint_no_port endpoint)
           | Some (host0, port) \<Rightarrow>
               let host = trim_set ''[]'' (trim_space host0) in
               if host = [] then Inl (Endpoint_no_host endpoint)
               else if trim_space port = [] then Inl (Endpoint_port_blank endpoint)
               else Inr (join_host_port host port, host))"

text \<open>
  an accepted endpoint names a host and a port explicitly, the target is their join and
  the server name is the host; a URL is accepted only with one of the three TLS schemes.
\<close>

theorem normalizeAdminRPCTarget_shape:
  assumes "normalizeAdminRPCTarget endpoint = Inr (target, serverName)"
  shows "\<exists>port. target = join_host_port serverName port \<and> serverName \<noteq> [] \<and> trim_space port \<noteq> []
     \<and> (contains (trim_space endpoint) ''://'' \<longrightarrow>
          (\<exists>u. url_parse (trim_space endpoint) = Some u
             \<and> to_lower (trim_space (u_scheme u)) \<in> {''https'', ''grpcs'', ''tls''}
             \<and> serverName = trim_space (url_hostname u) \<and> port = trim_space (url_port u)))"
  using assms
  by (fastforce simp: normalizeAdminRPCTarget_def Let_def split: if_splits option.splits prod.splits)

theorem normalizeAdminRPCTarget_shape_witness:
  "normalizeAdminRPCTarget '' HTTPS://admin.local:50544 '' = Inr (''admin.local:50544'', ''admin.local'')
   \<and> (\<exists>port. ''admin.local:50544'' = join_host_port ''admin.local'' port \<and> trim_space port \<noteq> [])"
proof -
  have n: "normalizeAdminRPCTarget '' HTTPS://admin.local:50544 '' = Inr (''admin.local:50544'', ''admin.local'')"
    by code_simp
  from normalizeAdminRPCTarget_shape [OF n] n show ?thesis by blast
qed

datatype start_error = Bad_target target_error | Start_failed string

text \<open>The result carries the inferred server name that the client keeps.\<close>

definition NewHeartbeatClient :: "admin_env \<Rightarrow> config \<Rightarrow> client \<Rightarrow> (start_error + string) \<times> client" where
  "NewHeartbeatClient E cfg c =
     (case normalizeAdminRPCTarget (cfg_admin_grpc_addr cfg) of
        Inl e \<Rightarrow> (Inl (Bad_target e), c)
      | Inr (target, inferredServerName) \<Rightarrow>
          (case ensureAgentClientCertificate E cfg inferredServerName False c of
             (Some e, c1) \<Rightarrow> (Inl (Start_failed e), c1)
           | (None, c1) \<Rightarrow>
               (case reconnect E inferredServerName c1 of
                  (Some e, c2) \<Rightarrow> (Inl (Start_failed e), c2)
                | (None, c2) \<Rightarrow> (Inr inferredServerName, c2))))"

subsection \<open>Samples\<close>

definition sample_env :: "int \<Rightarrow> admin_env" where
  "sample_env now =
     \<lparr>en_now = (\<lambda>_. now),
      en_cert_file = (\<lambda>_ _. Inr [(''CERTIFICATE'', Inr \<lparr>lf_not_before = 0, lf_not_after = 100 * hour\<rparr>)]),
      en_exists = (\<lambda>_ _. True), en_ca_pool = (\<lambda>_ _. Inr True), en_csr = (\<lambda>_ _. Inr (''key'', ''csr'')),
      en_tls = (\<lambda>_. Inr []), en_dial = (\<lambda>_. None),
      en_renew = (\<lambda>_. Inr \<lparr>cr_client_cert = ''c'', cr_server_cert = ''s'', cr_admin_ca = ''a''\<rparr>),
      en_bootstrap = (\<lambda>_. Inr \<lparr>cr_client_cert = ''c'', cr_server_cert = ''s'', cr_admin_ca = ''a''\<rparr>),
      en_write = (\<lambda>_. None)\<rparr>"

definition fresh_client :: client where
  "fresh_client =
     \<lparr>cl_conn = None, cl_open = [], cl_server_name = [], cl_renew_mu = False, cl_last_cert_check = None,
      cl_disk = (\<lambda>_. None), cl_calls = [], cl_tick = 0\<rparr>"

lemma sample_leaf:
  "fst (loadLeafCertificate (sample_env now) p c) = Inr \<lparr>lf_not_before = 0, lf_not_after = 100 * hour\<rparr>"
  by (simp add: loadLeafCertificate_def ask_def sample_env_def)

lemma sample_window: "calculateRenewBeforeWindow \<lparr>lf_not_before = 0, lf_not_after = 100 * hour\<rparr> = 20 * hour"
  by (simp add: calculateRenewBeforeWindow_def duration_defs)

lemma sample_due: "renewal_due (sample_env (81 * hour)) cfg fresh_client"
  by (simp add: renewal_due_def Let_def sample_leaf nearExpiry_def sample_window)
    (simp add: sample_env_def fresh_client_def duration_defs)

theorem certificate_renewal_deadlocks_witness:
  "\<exists>c'. invokeWithRecovery (maybeRenewClientCertificate 1 (sample_env (81 * hour)) (loadRaw sample_host) [])
          (sample_env (81 * hour)) (loadRaw sample_host) [] (\<lambda>_. Inr ()) fresh_client = (Blocked, c')
     \<and> cl_calls c' = []"
proof -
  have m: "\<not> cl_renew_mu fresh_client" "cl_calls fresh_client = []" by (simp_all add: fresh_client_def)
  have k: "is_ok (en_csr (sample_env (81 * hour)) n b)" for n b by (simp add: sample_env_def)
  from certificate_renewal_deadlocks [OF m(1) sample_due k k,
      where call = "\<lambda>_. Inr ()" and fuel = 0 and nm = "[]" and cfg = "loadRaw sample_host"] m(2)
  show ?thesis by (simp only: One_nat_def) blast
qed

lemma sample_not_due:
  "maybeRenewClientCertificate 1 (sample_env 0) cfg nm fresh_client
     = (Done None, fresh_client\<lparr>cl_last_cert_check := Some 0, cl_tick := 2\<rparr>)"
  by (simp add: lockedRenewCheck_def renewCheckBody_def Let_def fresh_client_def loadLeafCertificate_def ask_def
      nearExpiry_def sample_env_def calculateRenewBeforeWindow_def duration_defs)

theorem renewal_has_no_effect_witness:
  "\<exists>r c'. maybeRenewClientCertificate 1 (sample_env 0) (loadRaw sample_host) [] fresh_client = (r, c')
     \<and> cl_calls c' = [] \<and> r \<noteq> Out_of_fuel"
proof -
  obtain r c' where m: "maybeRenewClientCertificate (Suc 0) (sample_env 0) (loadRaw sample_host) [] fresh_client = (r, c')"
    by (metis surj_pair)
  from renewal_has_no_effect [OF m] m show ?thesis
    by (simp del: maybeRenewClientCertificate.simps add: fresh_client_def)
qed

theorem invokeWithRecovery_bounded_witness:
  "\<exists>c'. invokeWithRecovery (maybeRenewClientCertificate 1 (sample_env 0) (loadRaw sample_host) [])
          (sample_env 0) (loadRaw sample_host) [] (\<lambda>_. Inr ()) fresh_client = (Done (Inr ()), c')
     \<and> length (cl_calls c') \<le> 3 \<and> conns_ok c'"
proof -
  obtain c' where i: "invokeWithRecovery (maybeRenewClientCertificate (Suc 0) (sample_env 0) (loadRaw sample_host) [])
          (sample_env 0) (loadRaw sample_host) [] (\<lambda>_. Inr ()) fresh_client = (Done (Inr ()), c')"
    using sample_not_due [of "loadRaw sample_host" "[]"]
    by (simp add: invokeWithRecovery_def invokeConnected_def reconnect_def ask_def invokeOn_def invoke_def
        fresh_client_def sample_env_def del: maybeRenewClientCertificate.simps)
  have "conns_ok fresh_client" "cl_calls fresh_client = []" by (simp_all add: conns_ok_def fresh_client_def)
  with invokeWithRecovery_bounded [OF i] i show ?thesis by (simp del: maybeRenewClientCertificate.simps)
qed

lemma calculateRenewBeforeWindow_bounds:
  "6 * hour \<le> calculateRenewBeforeWindow cert \<and> calculateRenewBeforeWindow cert \<le> 72 * hour"
  by (simp add: calculateRenewBeforeWindow_def Let_def duration_defs)

end
