(* ===== verification/Identity.thy ===== *)
theory Identity
  imports Probe_Auth Admin_Client
begin

text \<open>
  The identity an agent asks for (\<^verbatim>\<open>internal/adminrpc/bootstrap.go\<close>, \<^verbatim>\<open>helpers.go\<close>): the names,
  addresses and URIs of its two certificate requests.  Generating a key, signing and encoding
  are the libraries', and so is \<^verbatim>\<open>net.ParseIP\<close>, which comes in as the canonical text of an
  address, if it is one.
\<close>

subsection \<open>Collecting names and addresses\<close>

definition uniqueStrings :: "string list \<Rightarrow> string list" where
  "uniqueStrings items = collect_unique trim_space [] items"

text \<open>An address is its canonical text, a nil address is \<open>None\<close>.\<close>

definition uniqueIPs :: "string option list \<Rightarrow> string list" where
  "uniqueIPs items = collect_unique (\<lambda>ip. ip) [] (List.map_filter id items)"

definition endpointHost :: "string \<Rightarrow> string option" where
  "endpointHost endpoint =
     map_option (\<lambda>hp. trim_set ''[]'' (trim_space (fst hp))) (split_host_port (trim_space endpoint))"

definition serverEndpointHost :: "(string \<Rightarrow> string option) \<Rightarrow> string \<Rightarrow> string" where
  "serverEndpointHost parseIP endpoint =
     (case endpointHost endpoint of
        None \<Rightarrow> []
      | Some host \<Rightarrow> if host = [] \<or> parseIP host \<noteq> None then [] else host)"

definition parseEndpointIP :: "(string \<Rightarrow> string option) \<Rightarrow> string \<Rightarrow> string option" where
  "parseEndpointIP parseIP endpoint =
     (case endpointHost endpoint of None \<Rightarrow> None | Some host \<Rightarrow> parseIP host)"

subsection \<open>Certificate requests\<close>

definition identityURI :: "string \<Rightarrow> string \<Rightarrow> string" where
  "identityURI kind name = ''spiffe://aurora.local/'' @ kind @ ''/'' @ trim_space name"

definition buildAgentIdentityURIs :: "config \<Rightarrow> url list" where
  "buildAgentIdentityURIs cfg =
     List.map_filter url_parse
       [identityURI ''node'' (cfg_node_id cfg), identityURI ''service'' (cfg_service_id cfg),
        identityURI ''role'' (cfg_role cfg), identityURI ''cluster'' (cfg_cluster_id cfg)]"

record csr_template =
  ce_common_name :: string
  ce_dns_names :: "string list"
  ce_ip_addresses :: "string list"
  ce_uris :: "url list"

definition clientTemplate :: "(string \<Rightarrow> string option) \<Rightarrow> config \<Rightarrow> csr_template" where
  "clientTemplate parseIP cfg =
     \<lparr>ce_common_name = ''agent:'' @ trim_space (cfg_node_id cfg),
      ce_dns_names = uniqueStrings [trim_space (cfg_node_id cfg), trim_space (cfg_hostname cfg)],
      ce_ip_addresses = (case parseIP (trim_space (cfg_agent_ip cfg)) of None \<Rightarrow> [] | Some ip \<Rightarrow> [ip]),
      ce_uris = buildAgentIdentityURIs cfg\<rparr>"

definition serverTemplate :: "(string \<Rightarrow> string option) \<Rightarrow> config \<Rightarrow> csr_template" where
  "serverTemplate parseIP cfg =
     \<lparr>ce_common_name = ''agent-server:'' @ trim_space (cfg_node_id cfg),
      ce_dns_names = uniqueStrings [trim_space (cfg_node_id cfg), trim_space (cfg_hostname cfg),
                                    serverEndpointHost parseIP (cfg_agent_grpc_endpoint cfg)],
      ce_ip_addresses = uniqueIPs [parseIP (trim_space (cfg_agent_ip cfg)),
                                   parseEndpointIP parseIP (cfg_agent_grpc_endpoint cfg)],
      ce_uris = buildAgentIdentityURIs cfg\<rparr>"

text \<open>
  The libraries: the PEM text of a new key, the PEM text of a request signed with it.  The
  labels are the error prefixes of the two functions.
\<close>

record key_library =
  kl_key :: "string + string"
  kl_sign :: "csr_template \<Rightarrow> string + string"

definition generateKeyAndCSR ::
    "string \<times> string \<times> string \<Rightarrow> key_library \<Rightarrow> csr_template \<Rightarrow> string + string \<times> string" where
  "generateKeyAndCSR labels lib template =
     (case (labels, kl_key lib) of
        ((keyFailed, _, _), Inl e) \<Rightarrow> Inl (keyFailed @ e)
      | ((_, signFailed, encodeFailed), Inr keyPEM) \<Rightarrow>
          (case kl_sign lib template of
             Inl e \<Rightarrow> Inl (signFailed @ e)
           | Inr csrPEM \<Rightarrow> if keyPEM = [] \<or> csrPEM = [] then Inl encodeFailed else Inr (keyPEM, csrPEM)))"

definition generateAgentClientKeyAndCSR ::
    "(string \<Rightarrow> string option) \<Rightarrow> key_library \<Rightarrow> config \<Rightarrow> string + string \<times> string" where
  "generateAgentClientKeyAndCSR parseIP lib cfg =
     generateKeyAndCSR (''generate agent private key failed: '', ''create csr failed: '', ''encode csr/key pem failed'')
       lib (clientTemplate parseIP cfg)"

definition generateAgentServerKeyAndCSR ::
    "(string \<Rightarrow> string option) \<Rightarrow> key_library \<Rightarrow> config \<Rightarrow> string + string \<times> string" where
  "generateAgentServerKeyAndCSR parseIP lib cfg =
     generateKeyAndCSR (''generate agent server private key failed: '', ''create server csr failed: '',
         ''encode server csr/key pem failed'')
       lib (serverTemplate parseIP cfg)"

subsection \<open>The claims of an agent's own certificate\<close>

text \<open>Identifiers without the characters that mean something in a URL.\<close>

definition plain_id :: "string \<Rightarrow> bool" where
  "plain_id s \<longleftrightarrow> printable s \<and> set s \<inter> {CHR ''%'', CHR ''#'', CHR ''?'', CHR ''/''} = {}"

definition plain_kind :: "string \<Rightarrow> bool" where
  "plain_kind k \<longleftrightarrow> k \<in> {''node'', ''service'', ''role'', ''cluster''}"

lemma unescape_path_plain: "CHR ''%'' \<notin> set s \<Longrightarrow> unescape_path s = Some s"
  by (induction s) (auto simp: unescape_path_def)

lemma plain_kind_text:
  assumes "plain_kind k"
  shows "printable k" "CHR ''%'' \<notin> set k" "CHR ''#'' \<notin> set k" "CHR ''?'' \<notin> set k" "CHR ''/'' \<notin> set k"
    "k \<noteq> []" "hd k \<noteq> CHR 0x20" "trim_space k = k" "to_lower k = k"
  using assms by (auto simp: plain_kind_def trimmed_printable lower_char_def)

lemma printable_no_ctl:
  "printable s \<Longrightarrow> \<not> list_ex (\<lambda>c. (of_char c :: nat) < 32 \<or> of_char c = (127::nat)) s"
  by (induction s) auto

lemma scheme_spiffe: "get_scheme (''spiffe:'' @ rest) = Some (''spiffe'', rest)"
  by (simp add: get_scheme_def)

lemma parse_identity:
  assumes "plain_kind k" "plain_id v"
  shows "url_parse (''spiffe://aurora.local/'' @ k @ ''/'' @ v)
    = Some \<lparr>u_scheme = ''spiffe'', u_host = ''aurora.local'', u_path = CHR ''/'' # k @ ''/'' @ v\<rparr>"
proof -
  let ?raw = "''spiffe://aurora.local/'' @ k @ ''/'' @ v"
  note k = plain_kind_text [OF assms(1)]
  have v: "printable v" "CHR ''%'' \<notin> set v" "CHR ''#'' \<notin> set v" "CHR ''?'' \<notin> set v"
    using assms(2) by (auto simp: plain_id_def)
  have "printable ?raw" using k v by simp
  then have ctl: "\<not> list_ex (\<lambda>c. (of_char c :: nat) < 32 \<or> of_char c = (127::nat)) ?raw"
    by (rule printable_no_ctl)
  have frag: "cut_at (CHR ''#'') ?raw = (?raw, None)" using k v by (intro cut_at_absent) simp
  have q: "cut_query (''//aurora.local/'' @ k @ ''/'' @ v) = ''//aurora.local/'' @ k @ ''/'' @ v"
    using k v by (simp add: cut_query_def cut_at_absent)
  have a: "cut_at (CHR ''/'') (''aurora.local/'' @ k @ ''/'' @ v) = (''aurora.local'', Some (k @ ''/'' @ v))"
    using cut_at_append [of "CHR ''/''" "''aurora.local''" "k @ ''/'' @ v"] by simp
  have h: "parse_authority ''aurora.local'' = Some ''aurora.local''" by code_simp
  have l: "to_lower ''spiffe'' = ''spiffe''" by code_simp
  have u: "unescape_path (CHR ''/'' # k @ ''/'' @ v) = Some (CHR ''/'' # k @ ''/'' @ v)"
    using k v by (intro unescape_path_plain) simp
  have g: "get_scheme ?raw = Some (''spiffe'', ''//aurora.local/'' @ k @ ''/'' @ v)"
    using scheme_spiffe [of "''//aurora.local/'' @ k @ ''/'' @ v"] by simp
  have "parse_url_body ?raw =
      Some \<lparr>u_scheme = ''spiffe'', u_host = ''aurora.local'', u_path = CHR ''/'' # k @ ''/'' @ v\<rparr>"
    unfolding parse_url_body_def using ctl g q a h u l by (simp add: Let_def)
  then show ?thesis using frag by (simp add: url_parse_def)
qed

lemma claim_of_identity:
  assumes "plain_kind k" "plain_id v" "trim_space v = v"
  shows "claimParts (Some \<lparr>u_scheme = ''spiffe'', u_host = ''aurora.local'', u_path = CHR ''/'' # k @ ''/'' @ v\<rparr>)
    = (if v = [] then None else Some (k, v))"
proof -
  note k = plain_kind_text [OF assms(1)]
  have v: "printable v" "CHR ''/'' \<notin> set v" using assms(2) by (auto simp: plain_id_def)
  have eq: "equal_fold (trim_space ''spiffe'') ''spiffe''" "equal_fold (trim_space ''aurora.local'') ''aurora.local''"
    by code_simp+
  have e: "v \<noteq> [] \<Longrightarrow> last v \<noteq> CHR 0x20"
    using assms(3) v(1) trim_set_ends [of "[CHR 0x20]" v] by (auto simp: trim_space_printable)
  have t: "trim_space (CHR ''/'' # k @ ''/'' @ v) = CHR ''/'' # k @ ''/'' @ v"
    using k v e by (intro trimmed_printable) auto
  show ?thesis
  proof (cases "v = []")
    case True
    have "trim_set ''/'' (CHR ''/'' # k @ ''/'') = k"
      using assms(1) by (auto simp: plain_kind_def trim_set_def)
    moreover have "split_on (CHR ''/'') k = [k]" using k by (simp add: split_on_absent)
    ultimately show ?thesis using True t eq by (simp add: claimParts_def)
  next
    case False
    have "last v \<noteq> CHR ''/''" "k \<noteq> []" "hd k \<noteq> CHR ''/''"
      using False v(2) k by (auto simp: in_set_conv_nth last_conv_nth hd_conv_nth)
    then have "trim_set ''/'' (CHR ''/'' # k @ ''/'' @ v) = k @ ''/'' @ v"
      using False trim_set_fixedI [of "k @ ''/'' @ v" "''/''"] by (simp add: trim_set_def)
    moreover have "split_on (CHR ''/'') (k @ ''/'' @ v) = [k, v]"
      using split_on_append [of "CHR ''/''" k v] k v by (simp add: split_on_absent)
    ultimately show ?thesis using False t eq k assms(3) by (simp add: claimParts_def)
  qed
qed

lemma identity_uri:
  assumes "plain_kind k" "plain_id (trim_space name)"
  shows "\<exists>u. url_parse (identityURI k name) = Some u
    \<and> claimParts (Some u) = (if trim_space name = [] then None else Some (k, trim_space name))"
  using parse_identity [OF assms] claim_of_identity [OF assms] by (simp add: identityURI_def)

subsection \<open>Identifiers of any form\<close>

text \<open>Whatever follows the kind, the path begins with it if the URI parses at all.\<close>

lemma fst_cut_at: "c \<notin> set x \<Longrightarrow> fst (cut_at c (x @ v)) = x @ fst (cut_at c v)"
  by (induction x) (auto simp: cut_at_def)

lemma unescape_path_append: "CHR ''%'' \<notin> set x \<Longrightarrow> unescape_path (x @ y) = map_option ((@) x) (unescape_path y)"
  by (cases "unescape_path y"; induction x) (auto simp: unescape_path_def)

lemma parsed_path:
  assumes "plain_kind k" and "url_parse (''spiffe://aurora.local/'' @ k @ ''/'' @ v) = Some u"
  shows "\<exists>w. u_path u = CHR ''/'' # k @ CHR ''/'' # w"
proof -
  note k = plain_kind_text [OF assms(1)]
  let ?v = "fst (cut_at (CHR ''#'') v)"
  let ?raw = "''spiffe://aurora.local/'' @ k @ ''/'' @ ?v" and ?q = "fst (cut_at (CHR ''?'') ?v)"
  have f: "fst (cut_at (CHR ''#'') (''spiffe://aurora.local/'' @ k @ ''/'' @ v)) = ?raw"
    using fst_cut_at [of "CHR ''#''" "''spiffe://aurora.local/'' @ k @ ''/''" v] k by simp
  have body: "parse_url_body ?raw = Some u"
    using assms(2) f unfolding url_parse_def by (auto split: prod.splits option.splits if_splits)
  have g: "get_scheme ?raw = Some (''spiffe'', ''//aurora.local/'' @ k @ ''/'' @ ?v)"
    using scheme_spiffe [of "''//aurora.local/'' @ k @ ''/'' @ ?v"] by simp
  have q: "cut_query (''//aurora.local/'' @ k @ ''/'' @ ?v) = ''//aurora.local/'' @ k @ ''/'' @ ?q"
    using fst_cut_at [of "CHR ''?''" "''//aurora.local/'' @ k @ ''/''" ?v] k by (simp add: cut_query_def)
  have a: "cut_at (CHR ''/'') (''aurora.local/'' @ k @ ''/'' @ ?q) = (''aurora.local'', Some (k @ ''/'' @ ?q))"
    using cut_at_append [of "CHR ''/''" "''aurora.local''" "k @ ''/'' @ ?q"] by simp
  have l: "to_lower ''spiffe'' = ''spiffe''" by code_simp
  have un: "unescape_path (CHR ''/'' # k @ ''/'' @ ?q) = map_option ((@) (CHR ''/'' # k @ ''/'')) (unescape_path ?q)"
    using unescape_path_append [of "CHR ''/'' # k @ ''/''" ?q] k by simp
  obtain p where p: "unescape_path (CHR ''/'' # k @ ''/'' @ ?q) = Some p" "u_path u = p"
    using body g q a l unfolding parse_url_body_def
    by (auto simp: Let_def split: if_splits option.splits)
  then have "map_option ((@) (CHR ''/'' # k @ ''/'')) (unescape_path ?q) = Some p" using un by simp
  then obtain z where "p = (CHR ''/'' # k @ ''/'') @ z" by (cases "unescape_path ?q") auto
  then have "u_path u = CHR ''/'' # k @ CHR ''/'' # z" using p(2) by simp
  then show ?thesis by blast
qed

lemma prefix_trim_space: "prefix (trim_space (CHR ''/'' # s)) (CHR ''/'' # s)"
proof -
  have "CHR ''/'' \<notin> hd ` set ws_seqs" by code_simp
  then have "starts_seq ws_seqs (CHR ''/'' # s) = None"
    by (force simp: starts_seq_None_iff prefix_Cons neq_Nil_conv)
  then show ?thesis by (simp add: trim_space_def trim_left_def strip_seqs_id prefix_trim_right)
qed

lemma prefix_until: "(c :: char) \<notin> set x \<Longrightarrow> c \<notin> set y \<Longrightarrow> prefix (x @ c # s) (y @ c # t) \<Longrightarrow> x = y"
proof -
  assume c: "c \<notin> set x" "c \<notin> set y" and "prefix (x @ c # s) (y @ c # t)"
  then obtain z where "y @ c # t = x @ c # (s @ z)" by (auto simp: prefix_def)
  then show "x = y" using cut_at_append [OF c(1), of "s @ z"] cut_at_append [OF c(2), of t] by simp
qed

text \<open>So a URI of one kind never claims anything of another kind.\<close>

lemma claim_kind:
  assumes "plain_kind k" and "u_path u = CHR ''/'' # k @ CHR ''/'' # w" and "claimParts (Some u) = Some (kind, val)"
  shows "kind = k"
proof -
  note k = plain_kind_text [OF assms(1)]
  let ?p = "CHR ''/'' # k @ CHR ''/'' # w" and ?t = "trim_space (u_path u)"
  obtain a b where ab: "split_on (CHR ''/'') (trim_set ''/'' ?t) = [a, b]" "kind = to_lower (trim_space a)"
    using assms(3) by (auto simp: claimParts_def split: if_splits list.splits)
  have s: "trim_set ''/'' ?t = a @ CHR ''/'' # b" "CHR ''/'' \<notin> set a"
    using join_split_on [of "CHR ''/''" "trim_set ''/'' ?t"] split_on_free [of a "CHR ''/''" "trim_set ''/'' ?t"] ab(1)
    by simp_all
  have "prefix ?t ?p" unfolding assms(2) by (rule prefix_trim_space)
  moreover have "?t \<noteq> []" using s(1) by (auto simp: trim_set_def)
  ultimately obtain t where t: "?t = CHR ''/'' # t" "prefix t (k @ CHR ''/'' # w)"
    by (cases ?t) auto
  have "k \<noteq> []" by (rule k(6))
  moreover from this k(5) have "hd k \<noteq> CHR ''/''" by (metis hd_in_set)
  ultimately have "t = [] \<or> hd t \<noteq> CHR ''/''" using t(2) by (cases t; cases k) auto
  then have "dropWhile (\<lambda>c. c \<in> set ''/'') t = t" by (cases t) auto
  then have "trim_set ''/'' ?t = trim_right_set ''/'' t"
    by (simp add: t(1) trim_set_def trim_right_set_def)
  then have "prefix (a @ CHR ''/'' # b) t"
    using s(1) prefix_rev_dropWhile [of "\<lambda>c. c \<in> set ''/''" t] by (simp add: trim_right_set_def)
  with t(2) have "prefix (a @ CHR ''/'' # b) (k @ CHR ''/'' # w)" by (rule prefix_order.trans [rotated])
  from prefix_until [OF s(2) k(5) this] have "a = k" .
  then show "kind = k" using ab(2) k by simp
qed

lemma no_claim_of_identity:
  assumes "plain_kind k" "k \<noteq> ''service''" "k \<noteq> ''role''" "url_parse (identityURI k name) = Some u"
  shows "addClaim (Some u) claims = claims"
proof -
  from parsed_path [OF assms(1)] assms(4) obtain w where w: "u_path u = CHR ''/'' # k @ CHR ''/'' # w"
    unfolding identityURI_def by blast
  show ?thesis
    using claim_kind [OF assms(1) w] assms(2,3) by (auto simp: addClaim_def split: option.splits)
qed

text \<open>
  C25: The identity an agent asks for is the identity another agent would read from its
  certificate: the service and the role of the configuration, whatever the node and the
  cluster are called.  The service and the role must be printable ASCII without a percent sign,
  a hash sign, a question mark or a slash (\<^verbatim>\<open>plain_id\<close>): the code puts a name into a URI without
  escaping it, and a claim with one of these is lost or cut (\<^verbatim>\<open>slash_loses_service\<close> below).
  The certificate is assumed to carry the URIs of the request.
\<close>

theorem identity_read_back:
  assumes "plain_id (trim_space (cfg_service_id cfg))" and "plain_id (trim_space (cfg_role cfg))"
    and "ct_uris cert = map Some (ce_uris (clientTemplate parseIP cfg))"
  shows "readIdentityClaimsFromCertificateURIs cert =
    \<lparr>cm_service_id = trim_space (cfg_service_id cfg), cm_role = trim_space (cfg_role cfg)\<rparr>"
proof -
  have p: "plain_kind ''node''" "plain_kind ''service''" "plain_kind ''role''" "plain_kind ''cluster''"
    by (simp_all add: plain_kind_def)
  obtain s where s: "url_parse (identityURI ''service'' (cfg_service_id cfg)) = Some s"
    "claimParts (Some s) = (if trim_space (cfg_service_id cfg) = [] then None else Some (''service'', trim_space (cfg_service_id cfg)))"
    using identity_uri [OF p(2) assms(1)] by blast
  obtain r where r: "url_parse (identityURI ''role'' (cfg_role cfg)) = Some r"
    "claimParts (Some r) = (if trim_space (cfg_role cfg) = [] then None else Some (''role'', trim_space (cfg_role cfg)))"
    using identity_uri [OF p(3) assms(2)] by blast
  let ?n = "url_parse (identityURI ''node'' (cfg_node_id cfg))"
    and ?c = "url_parse (identityURI ''cluster'' (cfg_cluster_id cfg))"
  have n: "addClaim (Some u) claims = claims" if "?n = Some u" for u claims
    using no_claim_of_identity [OF p(1) _ _ that] by simp
  have c: "addClaim (Some u) claims = claims" if "?c = Some u" for u claims
    using no_claim_of_identity [OF p(4) _ _ that] by simp
  have "fold addClaim (ct_uris cert) no_claims = addClaim (Some r) (addClaim (Some s) no_claims)"
    using assms(3) s(1) r(1) n c
    by (cases ?n; cases ?c)
      (simp_all add: clientTemplate_def buildAgentIdentityURIs_def List.map_filter_simps)
  then show ?thesis
    using s(2) r(2) by (simp add: readIdentityClaimsFromCertificateURIs_def addClaim_def no_claims_def)
qed

text \<open>A service id with a slash in it makes three parts of the path, and its claim is ignored.\<close>

lemma slash_loses_service:
  "claimParts (url_parse (identityURI ''service'' ''a/b'')) = None"
  by code_simp

definition sample_cert :: "config \<Rightarrow> certificate" where
  "sample_cert cfg =
     \<lparr>ct_common_name = [], ct_dns_names = [], ct_uris = map Some (ce_uris (clientTemplate (\<lambda>_. None) cfg))\<rparr>"

definition odd_config :: config where
  "odd_config = (loadRaw sample_host)\<lparr>cfg_node_id := ''n/1?%2'', cfg_service_id := '' ums '', cfg_role := ''agent'',
     cfg_cluster_id := ''#eu''\<rparr>"

theorem identity_read_back_witness:
  "readIdentityClaimsFromCertificateURIs (sample_cert odd_config) = \<lparr>cm_service_id = ''ums'', cm_role = ''agent''\<rparr>"
proof -
  have p: "plain_id (trim_space (cfg_service_id odd_config))" "plain_id (trim_space (cfg_role odd_config))"
    and t: "trim_space (cfg_service_id odd_config) = ''ums''" "trim_space (cfg_role odd_config) = ''agent''"
    by code_simp+
  from identity_read_back [OF p, of "sample_cert odd_config" "\<lambda>_. None"] t show ?thesis
    by (simp add: sample_cert_def)
qed

end
