(* ===== verification/Host_Routing.thy ===== *)
theory Host_Routing
  imports Admin_Client "HOL-Library.Char_ord" "HOL-Library.List_Lexorder" "HOL-Library.Product_Lexorder"
begin

text \<open>
  Heartbeats and the routing entries they fetch (\<^verbatim>\<open>internal/adminrpc/host_routing.go\<close>,
  \<^verbatim>\<open>rpc.go\<close>): the agent keeps one marked block of \<^verbatim>\<open>/etc/hosts\<close> up to date with the control
  plane's snapshot and leaves the rest of the file alone.
\<close>

subsection \<open>Entries\<close>

type_synonym routing_entry = "string \<times> string"  \<comment> \<open>host, address\<close>

definition readHostRoutingEntries :: "routing_entry option list \<Rightarrow> routing_entry list" where
  "readHostRoutingEntries items =
     List.map_filter (\<lambda>item. case item of
         None \<Rightarrow> None
       | Some (h, a) \<Rightarrow>
           if trim_space h = [] \<or> trim_space a = [] then None else Some (trim_space h, trim_space a)) items"

text \<open>\<open>sha\<close> is \<^verbatim>\<open>sha256.Sum256\<close> printed in hexadecimal.\<close>

definition computeHostRoutingSnapshotHash :: "(string \<Rightarrow> string) \<Rightarrow> routing_entry list \<Rightarrow> string" where
  "computeHostRoutingSnapshotHash sha entries =
     (if entries = [] then ''empty''
      else let normalized = map (\<lambda>(h, a). trim_space h @ ''='' @ trim_space a)
             (filter (\<lambda>(h, a). trim_space h \<noteq> [] \<and> trim_space a \<noteq> []) entries)
           in if normalized = [] then ''empty'' else sha (join newline (sort normalized)))"

subsection \<open>The managed block\<close>

definition beginMarker :: string where "beginMarker = ''# BEGIN AURORA HOST ROUTING''"
definition endMarker :: string where "endMarker = ''# END AURORA HOST ROUTING''"

definition entryLines :: "routing_entry list \<Rightarrow> string list" where
  "entryLines entries =
     List.map_filter (\<lambda>(h, a).
         if trim_space h = [] \<or> trim_space a = [] then None
         else Some (trim_space a @ '' '' @ trim_space h)) (sort entries)"

definition hostsBlock :: "routing_entry list \<Rightarrow> string" where
  "hostsBlock entries = join newline (beginMarker # entryLines entries @ [endMarker])"

definition stripManagedHostsBlock :: "string \<Rightarrow> string" where
  "stripManagedHostsBlock content =
     (let normalized = replace_all [CHR 0x0D, CHR 0x0A] newline content in
      case (index_of beginMarker normalized, index_of endMarker normalized) of
        (Some b, Some e) \<Rightarrow>
          if e < b then normalized
          else let e1 = e + length endMarker;
                   e2 = (if e1 < length normalized \<and> normalized ! e1 = CHR 0x0A then e1 + 1 else e1)
               in trim_set newline (take b normalized @ drop e2 normalized)
      | _ \<Rightarrow> normalized)"

definition hostsContent :: "routing_entry list \<Rightarrow> string \<Rightarrow> string" where
  "hostsContent entries current =
     (let base = trim_right_set newline (stripManagedHostsBlock current); block = hostsBlock entries
      in if base \<noteq> [] then base @ newline @ newline @ block @ newline else block @ newline)"

text \<open>
  The file is read (\<open>None\<close> is a missing file), a temporary one is written and renamed over it.
  A failed write or rename leaves the file as it was.
\<close>

record hosts_io =
  hi_read :: "string option"
  hi_write :: "string option"
  hi_rename :: "string option"

definition applyHostRoutingSnapshot ::
    "hosts_io \<Rightarrow> routing_entry list \<Rightarrow> string option \<Rightarrow> string option \<times> string option" where
  "applyHostRoutingSnapshot io entries hosts =
     (case hi_read io of
        Some e \<Rightarrow> (Some (''read /etc/hosts failed: '' @ e), hosts)
      | None \<Rightarrow>
          (let content = hostsContent entries (case hosts of None \<Rightarrow> [] | Some s \<Rightarrow> s) in
           case hi_write io of
             Some e \<Rightarrow> (Some (''write temporary hosts file failed: '' @ e), hosts)
           | None \<Rightarrow>
               (case hi_rename io of
                  Some e \<Rightarrow> (Some (''replace /etc/hosts failed: '' @ e), hosts)
                | None \<Rightarrow> (None, Some content))))"

subsection \<open>Heartbeats\<close>

record routing =
  ro_last_sync_at :: "int option"
  ro_last_hash :: string
  ro_hosts :: "string option"

definition hostRoutingSyncInterval :: duration where "hostRoutingSyncInterval = 1 * minute"

definition storeSnapshot ::
    "(string \<Rightarrow> string) \<Rightarrow> hosts_io \<Rightarrow> routing_entry option list \<Rightarrow> routing \<Rightarrow> string option \<times> routing" where
  "storeSnapshot sha io items s =
     (let entries = readHostRoutingEntries items; hash = computeHostRoutingSnapshotHash sha entries in
      if hash = ro_last_hash s then (None, s)
      else case applyHostRoutingSnapshot io entries (ro_hosts s) of
             (Some e, hosts) \<Rightarrow> (Some e, s\<lparr>ro_hosts := hosts\<rparr>)
           | (None, hosts) \<Rightarrow> (None, s\<lparr>ro_hosts := hosts, ro_last_hash := hash\<rparr>))"

type_synonym preflight = "client \<Rightarrow> string option run \<times> client"

definition syncHostRoutingSnapshot ::
    "preflight \<Rightarrow> admin_env \<Rightarrow> config \<Rightarrow> string \<Rightarrow> (nat \<Rightarrow> string + routing_entry option list)
       \<Rightarrow> (string \<Rightarrow> string) \<Rightarrow> hosts_io \<Rightarrow> client \<times> routing \<Rightarrow> string option run \<times> client \<times> routing" where
  "syncHostRoutingSnapshot pre E cfg nm fetch sha io st =
     (case st of (c, s) \<Rightarrow>
        if cl_conn c = None then (Done (Some ''heartbeat client is nil''), c, s)
        else case invokeWithRecovery pre E cfg nm fetch c of
               (Blocked, c1) \<Rightarrow> (Blocked, c1, s)
             | (Out_of_fuel, c1) \<Rightarrow> (Out_of_fuel, c1, s)
             | (Done (Inl e), c1) \<Rightarrow> (Done (Some e), c1, s)
             | (Done (Inr items), c1) \<Rightarrow>
                 (case storeSnapshot sha io items s of (r, s1) \<Rightarrow> (Done r, c1, s1)))"

definition maybeSyncHostRouting ::
    "preflight \<Rightarrow> admin_env \<Rightarrow> config \<Rightarrow> string \<Rightarrow> (nat \<Rightarrow> string + routing_entry option list)
       \<Rightarrow> (string \<Rightarrow> string) \<Rightarrow> hosts_io \<Rightarrow> client \<times> routing \<Rightarrow> string option run \<times> client \<times> routing" where
  "maybeSyncHostRouting pre E cfg nm fetch sha io st =
     (case st of (c, s) \<Rightarrow>
        let now = en_now E (cl_tick c) in
        if (case ro_last_sync_at s of None \<Rightarrow> False | Some t \<Rightarrow> now - t < hostRoutingSyncInterval)
        then (Done None, c, s)
        else syncHostRoutingSnapshot pre E cfg nm fetch sha io (c, s\<lparr>ro_last_sync_at := Some now\<rparr>))"

text \<open>A routing failure is logged and does not fail the heartbeat; a routing call that never returns does not let it return.\<close>

definition ReportHeartbeat ::
    "preflight \<Rightarrow> admin_env \<Rightarrow> config \<Rightarrow> string \<Rightarrow> (nat \<Rightarrow> string + unit) \<Rightarrow> (nat \<Rightarrow> string + routing_entry option list)
       \<Rightarrow> (string \<Rightarrow> string) \<Rightarrow> hosts_io \<Rightarrow> client \<times> routing \<Rightarrow> string option run \<times> client \<times> routing" where
  "ReportHeartbeat pre E cfg nm report fetch sha io st =
     (case st of (c, s) \<Rightarrow>
        if cl_conn c = None then (Done (Some ''heartbeat client is nil''), c, s)
        else case invokeWithRecovery pre E cfg nm report c of
               (Blocked, c1) \<Rightarrow> (Blocked, c1, s)
             | (Out_of_fuel, c1) \<Rightarrow> (Out_of_fuel, c1, s)
             | (Done (Inl e), c1) \<Rightarrow> (Done (Some (''report heartbeat failed: '' @ e)), c1, s)
             | (Done (Inr _), c1) \<Rightarrow>
                 (case maybeSyncHostRouting pre E cfg nm fetch sha io (c1, s) of
                    (Done _, st2) \<Rightarrow> (Done None, st2)
                  | (Blocked, st2) \<Rightarrow> (Blocked, st2)
                  | (Out_of_fuel, st2) \<Rightarrow> (Out_of_fuel, st2)))"

subsection \<open>Lines and markers\<close>

lemma prefix_before_newline:
  "CHR 0x0A \<notin> set m \<Longrightarrow> prefix m (x @ CHR 0x0A # y) \<Longrightarrow> prefix m x"
  by (auto simp: prefix_append prefix_Cons)

lemma sublist_lines:
  assumes "CHR 0x0A \<notin> set m" "m \<noteq> []"
  shows "sublist m (x @ CHR 0x0A # y) \<Longrightarrow> sublist m x \<or> sublist m y"
proof (induction x)
  case Nil
  then show ?case using assms by (cases m) (auto simp: sublist_Cons_right)
next
  case (Cons c x)
  then show ?case
    using prefix_before_newline [OF assms(1), of "c # x" y] by (auto simp: sublist_Cons_right)
qed

lemma index_of_start: "m \<noteq> [] \<Longrightarrow> index_of m (m @ b) = Some 0"
  by (cases m) auto

lemma index_of_line:
  assumes "CHR 0x0A \<notin> set m" "m \<noteq> []" "\<not> sublist m a"
  shows "index_of m (a @ CHR 0x0A # m @ b) = Some (Suc (length a))"
  using assms(3)
proof (induction a)
  case Nil
  have "\<not> prefix m (CHR 0x0A # m @ b)" using assms(1,2) by (cases m) auto
  then show ?case using index_of_start [OF assms(2), of b] by simp
next
  case (Cons c a)
  then have "\<not> prefix m (c # a @ CHR 0x0A # m @ b)"
    using prefix_before_newline [OF assms(1), of "c # a" "m @ b"] by (metis append_Cons prefix_imp_sublist)
  moreover have "\<not> sublist m a" using Cons.prems by (auto simp: sublist_Cons_right)
  ultimately show ?case using Cons.IH by simp
qed

lemma markers: "CHR 0x0A \<notin> set beginMarker" "CHR 0x0A \<notin> set endMarker" "beginMarker \<noteq> []" "endMarker \<noteq> []"
  "CHR 0x0D \<notin> set beginMarker" "CHR 0x0D \<notin> set endMarker" "\<not> sublist endMarker beginMarker"
  by code_simp+

lemma sublist_join:
  assumes "CHR 0x0A \<notin> set m" "m \<noteq> []"
  shows "sublist m (join newline ls) \<Longrightarrow> \<exists>l \<in> set ls. sublist m l"
proof (induction newline ls rule: join.induct)
  case (3 x y xs)
  then show ?case using sublist_lines [OF assms, of x "join newline (y # xs)"]
    by (auto simp: newline_def)
qed (use assms in auto)

lemma join_snoc: "ls \<noteq> [] \<Longrightarrow> join newline (ls @ [l]) = join newline ls @ newline @ l"
  by (induction newline ls rule: join.induct) auto

lemma no_crlf: "CHR 0x0D \<notin> set s \<Longrightarrow> replace_all [CHR 0x0D, CHR 0x0A] newline s = s"
  by (rule replace_all_id) (auto simp: sublist_def)

lemma set_join: "set (join newline ls) \<subseteq> insert (CHR 0x0A) (\<Union> (set ` set ls))"
  by (induction newline ls rule: join.induct) (auto simp: newline_def)

subsection \<open>One block, and the rest of the file\<close>

text \<open>
  An entry's line must not contain the end marker (the block would be taken to end there) nor
  a carriage return; the same holds of the lines that are not the agent's, which must not
  contain the begin marker either.
\<close>

definition clean_line :: "string \<Rightarrow> bool" where
  "clean_line l \<longleftrightarrow> CHR 0x0D \<notin> set l \<and> \<not> sublist endMarker l"

definition clean_entries :: "routing_entry list \<Rightarrow> bool" where
  "clean_entries es \<longleftrightarrow> list_all clean_line (entryLines es)"

definition plain :: "string \<Rightarrow> bool" where
  "plain l \<longleftrightarrow> clean_line l \<and> \<not> sublist beginMarker l"

text \<open>The file may contain a block already: what counts is what stripping it leaves.\<close>

definition plain_rest :: "string \<Rightarrow> bool" where
  "plain_rest s \<longleftrightarrow> plain (stripManagedHostsBlock s)"

text \<open>The lines that are not the agent's, without blank lines at either end.\<close>

definition own_lines :: "string \<Rightarrow> string" where
  "own_lines s = trim_set newline (stripManagedHostsBlock s)"

lemma trim_set_append: "set t \<subseteq> set cs \<Longrightarrow> trim_set cs (s @ t) = trim_set cs s"
proof -
  assume t: "set t \<subseteq> set cs"
  have r: "dropWhile (\<lambda>c. c \<in> set cs) (rev (x @ t)) = dropWhile (\<lambda>c. c \<in> set cs) (rev x)" for x
    using t by (subst rev_append, subst dropWhile_append2) auto
  show ?thesis
  proof (cases "\<exists>x \<in> set s. x \<notin> set cs")
    case True
    then have "dropWhile (\<lambda>c. c \<in> set cs) (s @ t) = dropWhile (\<lambda>c. c \<in> set cs) s @ t"
      by (auto intro: dropWhile_append1)
    then show ?thesis by (simp only: trim_set_def r)
  next
    case False
    then have "dropWhile (\<lambda>c. c \<in> set cs) (s @ t) = []" "dropWhile (\<lambda>c. c \<in> set cs) s = []"
      using t by (auto simp: dropWhile_eq_Nil_conv)
    then show ?thesis by (simp only: trim_set_def)
  qed
qed

lemma trim_right_set_split: "\<exists>t. s = trim_right_set cs s @ t \<and> set t \<subseteq> set cs"
proof (intro exI conjI)
  let ?P = "\<lambda>c. c \<in> set cs"
  have "s = rev (takeWhile ?P (rev s) @ dropWhile ?P (rev s))" by simp
  then show "s = trim_right_set cs s @ rev (takeWhile ?P (rev s))"
    unfolding trim_right_set_def rev_append .
  show "set (rev (takeWhile ?P (rev s))) \<subseteq> set cs" by (auto dest: set_takeWhileD)
qed

lemma trim_set_trim_right: "trim_set cs (trim_right_set cs s) = trim_set cs s"
  using trim_right_set_split [of s cs] trim_set_append by metis

lemma block_parts:
  "hostsBlock es = join newline (beginMarker # entryLines es) @ newline @ endMarker"
  using join_snoc [of "beginMarker # entryLines es" endMarker] by (simp add: hostsBlock_def)

lemma block_start: "\<exists>r. join newline (beginMarker # ls) = beginMarker @ r"
  by (cases ls) auto

lemma strip_block:
  assumes "plain base" and "clean_entries es"
    and content: "content = (if base \<noteq> [] then base @ newline @ newline @ hostsBlock es @ newline
                             else hostsBlock es @ newline)"
  shows "stripManagedHostsBlock content = trim_set newline base"
proof -
  have base: "CHR 0x0D \<notin> set base" "\<not> sublist beginMarker base" "\<not> sublist endMarker base"
    using assms(1) by (simp_all add: plain_def clean_line_def)
  let ?pre = "if base \<noteq> [] then base @ newline @ newline else []"
  let ?body = "join newline (beginMarker # entryLines es)"
  obtain r where r: "?body = beginMarker @ r" using block_start by blast
  have c: "content = (?pre @ ?body) @ CHR 0x0A # endMarker @ newline"
    by (simp add: content block_parts newline_def)
  have body: "CHR 0x0D \<notin> set ?body" "\<not> sublist endMarker ?body"
  proof -
    show "CHR 0x0D \<notin> set ?body"
      using assms(2) markers(5) set_join [of "beginMarker # entryLines es"]
      by (auto simp: clean_entries_def clean_line_def list_all_iff)
    show "\<not> sublist endMarker ?body"
    proof
      assume "sublist endMarker ?body"
      from sublist_join [OF markers(2,4) this] show False
        using assms(2) markers(7) by (auto simp: clean_entries_def clean_line_def list_all_iff)
    qed
  qed
  have norm: "replace_all [CHR 0x0D, CHR 0x0A] newline content = content"
    by (rule no_crlf) (use base(1) body(1) markers(6) in \<open>auto simp: c newline_def\<close>)
  have b: "index_of beginMarker content = Some (length ?pre)"
  proof (cases "base = []")
    case True
    then show ?thesis using index_of_start [OF markers(3)] r by (simp add: c)
  next
    case False
    have "\<not> sublist beginMarker (base @ newline)"
      using base(2) False sublist_lines [OF markers(1,3), of base "[]"] markers(3) by (auto simp: newline_def)
    from index_of_line [OF markers(1,3) this, of "r @ CHR 0x0A # endMarker @ newline"] False r
    show ?thesis by (simp add: c newline_def)
  qed
  have "\<not> sublist endMarker (?pre @ ?body)"
  proof (cases "base = []")
    case False
    have "\<not> sublist endMarker (base @ CHR 0x0A # ([] @ CHR 0x0A # ?body))"
      using base(3) False body(2) sublist_lines [OF markers(2,4), of base "[] @ CHR 0x0A # ?body"]
        sublist_lines [OF markers(2,4), of "[]" ?body] markers(4) by auto
    then show ?thesis using False by (simp add: newline_def)
  qed (use body in simp)
  from index_of_line [OF markers(2,4) this, of newline]
  have e: "index_of endMarker content = Some (Suc (length (?pre @ ?body)))" by (simp add: c)
  let ?e = "Suc (length (?pre @ ?body))"
  have len: "length content = Suc (?e + length endMarker)" by (simp add: c newline_def)
  have nl: "content ! (?e + length endMarker) = CHR 0x0A"
    by (simp add: c nth_append newline_def)
  have "stripManagedHostsBlock content = trim_set newline (take (length ?pre) content @ drop (length content) content)"
    using norm b e len nl by (simp add: stripManagedHostsBlock_def Let_def)
  also have "\<dots> = trim_set newline ?pre" by (simp add: c)
  also have "\<dots> = trim_set newline base" using trim_set_append [of "newline @ newline" newline base] by auto
  finally show ?thesis .
qed

lemma trim_right_set_last: "trim_right_set cs s = [] \<or> last (trim_right_set cs s) \<notin> set cs"
  using hd_dropWhile [of "\<lambda>c. c \<in> set cs" "rev s"] by (auto simp: trim_right_set_def last_rev)

lemma prefix_trim_right_set: "prefix (trim_right_set cs s) s"
  unfolding trim_right_set_def by (rule prefix_rev_dropWhile)

lemma plain_part:
  assumes "plain s" and "sublist t s"
  shows "plain t"
proof -
  have "set t \<subseteq> set s" using assms(2) by (auto simp: sublist_def)
  with assms show ?thesis
    unfolding plain_def clean_line_def using sublist_order.order.trans by blast
qed

lemma plain_trim_right: "plain s \<Longrightarrow> plain (trim_right_set newline s)"
  by (erule plain_part) (intro prefix_imp_sublist prefix_trim_right_set)

lemma strip_plain: "plain s \<Longrightarrow> stripManagedHostsBlock s = s"
  by (simp add: stripManagedHostsBlock_def Let_def no_crlf plain_def clean_line_def index_of_None_iff [THEN iffD2])

lemma sublist_trim_set: "sublist (trim_set cs s) s"
proof -
  let ?d = "dropWhile (\<lambda>c. c \<in> set cs) s"
  have "suffix ?d s" by (rule suffix_dropWhile)
  moreover have "prefix (trim_set cs s) ?d" by (simp add: trim_set_def prefix_rev_dropWhile)
  ultimately show ?thesis by (meson prefix_imp_sublist suffix_imp_sublist sublist_order.order.trans)
qed

lemma plain_own_lines: "plain_rest s \<Longrightarrow> plain (own_lines s)"
  unfolding plain_rest_def own_lines_def by (erule plain_part) (rule sublist_trim_set)

lemma own_lines_ends: "own_lines s = [] \<or> hd (own_lines s) \<noteq> CHR 0x0A \<and> last (own_lines s) \<noteq> CHR 0x0A"
  using trim_set_ends [of newline "stripManagedHostsBlock s"] by (auto simp: own_lines_def newline_def)

lemma strip_own_lines:
  assumes "plain_rest s"
  shows "stripManagedHostsBlock (own_lines s) = own_lines s" "trim_right_set newline (own_lines s) = own_lines s"
    "own_lines (own_lines s) = own_lines s" "plain_rest (own_lines s)"
proof -
  show st: "stripManagedHostsBlock (own_lines s) = own_lines s" by (rule strip_plain [OF plain_own_lines [OF assms]])
  show "plain_rest (own_lines s)" using plain_own_lines [OF assms] st by (simp add: plain_rest_def)
  have e: "own_lines s = [] \<or> hd (own_lines s) \<notin> set newline \<and> last (own_lines s) \<notin> set newline"
    using own_lines_ends [of s] by (auto simp: newline_def)
  show "own_lines (own_lines s) = own_lines s"
    unfolding own_lines_def [of "own_lines s"] st using e by (rule trim_set_fixedI)
  show "trim_right_set newline (own_lines s) = own_lines s"
    using e by (cases "own_lines s = []") (auto simp: trim_right_set_def dropWhile_id_iff [THEN iffD2] hd_rev)
qed

lemma hostsContent_strip:
  assumes "plain_rest s" "clean_entries es"
  shows "stripManagedHostsBlock (hostsContent es s) = own_lines s"
proof -
  have "plain (trim_right_set newline (stripManagedHostsBlock s))"
    using assms(1) by (simp add: plain_rest_def plain_trim_right)
  then have "stripManagedHostsBlock (hostsContent es s)
      = trim_set newline (trim_right_set newline (stripManagedHostsBlock s))"
    by (rule strip_block [OF _ assms(2)]) (simp add: hostsContent_def Let_def)
  then show ?thesis by (simp add: trim_set_trim_right own_lines_def)
qed

lemma hostsContent_again:
  assumes "plain_rest s" "clean_entries es"
  shows "hostsContent es2 (hostsContent es s) = hostsContent es2 (own_lines s)"
  by (simp add: hostsContent_def [of es2] Let_def hostsContent_strip [OF assms] strip_own_lines [OF assms(1)])

text \<open>A rest that does not begin with an empty line is kept as it is by the first block, too.\<close>

lemma hostsContent_own_lines:
  assumes "plain_rest s" "stripManagedHostsBlock s = [] \<or> hd (stripManagedHostsBlock s) \<noteq> CHR 0x0A"
  shows "hostsContent es (own_lines s) = hostsContent es s"
proof -
  let ?b = "stripManagedHostsBlock s"
  have "dropWhile (\<lambda>c. c \<in> set newline) ?b = ?b"
    using assms(2) by (cases ?b) (auto simp: newline_def)
  then have "trim_right_set newline ?b = own_lines s"
    by (simp add: own_lines_def trim_set_def trim_right_set_def)
  then show ?thesis
    by (simp add: hostsContent_def Let_def strip_own_lines(1,2) [OF assms(1)])
qed

definition io_works :: "hosts_io \<Rightarrow> bool" where
  "io_works io \<longleftrightarrow> hi_read io = None \<and> hi_write io = None \<and> hi_rename io = None"

definition applySnapshots :: "(hosts_io \<times> routing_entry list) list \<Rightarrow> string option \<Rightarrow> string option" where
  "applySnapshots steps hosts = foldl (\<lambda>f (io, es). snd (applyHostRoutingSnapshot io es f)) hosts steps"

text \<open>A missing file is read as an empty one.\<close>

definition text_of :: "string option \<Rightarrow> string" where
  "text_of hosts = (case hosts of None \<Rightarrow> [] | Some s \<Rightarrow> s)"

lemma text_of_Some [simp]: "text_of (Some s) = s"
  by (simp add: text_of_def)

lemma apply_outcome:
  "snd (applyHostRoutingSnapshot io es hosts) =
     (if io_works io then Some (hostsContent es (text_of hosts)) else hosts)"
  by (auto simp: applyHostRoutingSnapshot_def io_works_def text_of_def Let_def split: option.splits)

text \<open>The file that the successful steps make of the original one, the last step first.\<close>

fun hosts_after :: "routing_entry list list \<Rightarrow> string option \<Rightarrow> string option" where
  "hosts_after [] hosts = hosts"
| "hosts_after [es] hosts = Some (hostsContent es (text_of hosts))"
| "hosts_after (es # _ # _) hosts = Some (hostsContent es (own_lines (text_of hosts)))"

lemma hosts_after_step:
  assumes "plain_rest (text_of hosts)" "list_all clean_entries oks"
  shows "Some (hostsContent es (text_of (hosts_after oks hosts))) = hosts_after (es # oks) hosts"
proof (cases "(oks, hosts)" rule: hosts_after.cases)
  case (2 x)
  then show ?thesis using assms hostsContent_again by simp
next
  case (3 x y ys)
  let ?s = "text_of hosts"
  have "hostsContent es (hostsContent x (own_lines ?s)) = hostsContent es (own_lines (own_lines ?s))"
    by (rule hostsContent_again) (use assms 3 strip_own_lines in simp_all)
  then show ?thesis using 3 strip_own_lines [OF assms(1)] by simp
qed simp

lemma applySnapshots_outcome:
  assumes "plain_rest (text_of hosts)" "list_all (\<lambda>st. clean_entries (snd st)) steps"
  shows "applySnapshots steps hosts = hosts_after (rev (map snd (filter (\<lambda>st. io_works (fst st)) steps))) hosts"
  using assms(2)
proof (induction steps rule: rev_induct)
  case (snoc step steps)
  obtain io es where step: "step = (io, es)" by (metis surj_pair)
  let ?oks = "rev (map snd (filter (\<lambda>st. io_works (fst st)) steps))"
  have "applySnapshots (steps @ [step]) hosts =
      (if io_works io then Some (hostsContent es (text_of (hosts_after ?oks hosts))) else hosts_after ?oks hosts)"
    using snoc by (simp add: applySnapshots_def step apply_outcome)
  moreover have "list_all clean_entries ?oks" using snoc.prems by (auto simp: list_all_iff)
  ultimately show ?case using hosts_after_step [OF assms(1), of ?oks es] by (simp add: step)
qed (simp add: applySnapshots_def)

text \<open>
  C20: whatever snapshots arrive and whichever reads, writes and renames fail, the hosts file
  holds one block, that of the last snapshot that was applied, after the lines of the original
  file that are not the agent's: blocks do not pile up, earlier snapshots leave nothing behind,
  and taking the block out gives those lines back.  From the second application on, blank
  lines at the start of the file are gone; a file without such lines is kept.  Two conditions:
  no entry contains a carriage return or the text of the end marker, and what stripping leaves
  of the original file contains no carriage return and no marker.  Without the first, blocks
  do pile up (\<^verbatim>\<open>end_marker_piles_up\<close> below): the code does not check the entries it gets.
\<close>

theorem hosts_file_last_applied:
  assumes "plain_rest (text_of hosts)" "list_all (\<lambda>st. clean_entries (snd st)) steps"
  shows "(let oks = map snd (filter (\<lambda>st. io_works (fst st)) steps); s = text_of hosts in
      applySnapshots steps hosts =
        (if oks = [] then hosts
         else Some (hostsContent (last oks) (if length oks = 1 then s else own_lines s))))
    \<and> (\<forall>es. clean_entries es \<longrightarrow>
         stripManagedHostsBlock (hostsContent es (text_of hosts)) = own_lines (text_of hosts))
    \<and> (\<forall>es. stripManagedHostsBlock (text_of hosts) = []
           \<or> hd (stripManagedHostsBlock (text_of hosts)) \<noteq> CHR 0x0A \<longrightarrow>
         hostsContent es (own_lines (text_of hosts)) = hostsContent es (text_of hosts))"
proof -
  have "hosts_after (rev oks) hosts =
      (if oks = [] then hosts
       else Some (hostsContent (last oks) (if length oks = 1 then text_of hosts else own_lines (text_of hosts))))" for oks
    by (cases "(rev oks, hosts)" rule: hosts_after.cases) (auto simp: rev_swap)
  then show ?thesis
    using applySnapshots_outcome [OF assms] hostsContent_strip [OF assms(1)] hostsContent_own_lines [OF assms(1)]
    by (simp add: Let_def)
qed

text \<open>An entry that contains the end marker: the second block is added beside the first.\<close>

lemma end_marker_piles_up:
  "let es = [(''x# END AURORA HOST ROUTING'', ''10.0.0.1'')]; first = hostsContent es []
   in length first < length (hostsContent es first)"
  by code_simp

definition works :: hosts_io where
  "works = \<lparr>hi_read = None, hi_write = None, hi_rename = None\<rparr>"

lemma sample_clean: "clean_entries [(''a.local'', ''10.0.0.1'')]"
proof -
  have t: "trim_space ''a.local'' = ''a.local''" "trim_space ''10.0.0.1'' = ''10.0.0.1''"
    by (rule trimmed_printable; simp)+
  have "clean_line ''10.0.0.1 a.local''" by code_simp
  then show ?thesis by (simp add: clean_entries_def entryLines_def List.map_filter_def t)
qed

lemma sample_plain: "plain_rest ''127.0.0.1 localhost''"
  by code_simp

theorem hosts_file_last_applied_witness:
  "applySnapshots [(works, [(''a.local'', ''10.0.0.1'')]), (works\<lparr>hi_rename := Some ''EIO''\<rparr>, []), (works, [])]
      (Some ''127.0.0.1 localhost'') = Some (hostsContent [] ''127.0.0.1 localhost'')"
proof -
  have "clean_entries []" by (simp add: clean_entries_def entryLines_def List.map_filter_def)
  then have c: "list_all (\<lambda>st. clean_entries (snd st))
      [(works, [(''a.local'', ''10.0.0.1'')]), (works\<lparr>hi_rename := Some ''EIO''\<rparr>, []), (works, [])]"
    by (simp add: sample_clean)
  have p: "plain_rest (text_of (Some ''127.0.0.1 localhost''))" by (simp add: sample_plain)
  have h: "hd (stripManagedHostsBlock ''127.0.0.1 localhost'') \<noteq> CHR 0x0A" by code_simp
  from hosts_file_last_applied [OF p c] h show ?thesis
    by (simp add: io_works_def works_def Let_def)
qed

end
