(* ===== verification/Agent_Run.thy ===== *)
theory Agent_Run
  imports Host_Routing Journal Metrics
begin

text \<open>
  The agent as a process (\<^verbatim>\<open>internal/agent/agent.go\<close>, \<^verbatim>\<open>lifecycle.go\<close>, \<^verbatim>\<open>health.go\<close> and the report
  call of \<^verbatim>\<open>internal/adminrpc/rpc.go\<close>): its start, the loops it runs, and how it stops.  A loop
  is a function of the events its \<^verbatim>\<open>select\<close> takes; the process waits for its loops, for signals
  and for the grace timer.
\<close>

subsection \<open>Health\<close>

record health =
  he_connected :: bool
  he_metric_at :: int
  he_heartbeat_at :: int

definition NewHealthStatus :: health where
  "NewHealthStatus = \<lparr>he_connected = False, he_metric_at = 0, he_heartbeat_at = 0\<rparr>"

definition SetAdminConnected :: "bool \<Rightarrow> health \<Rightarrow> health" where
  "SetAdminConnected ok h = h\<lparr>he_connected := ok\<rparr>"

definition MarkNodeSample :: "int \<Rightarrow> health \<Rightarrow> health" where
  "MarkNodeSample nanos h = h\<lparr>he_metric_at := nanos\<rparr>"

definition MarkHeartbeat :: "int \<Rightarrow> health \<Rightarrow> health" where
  "MarkHeartbeat nanos h = h\<lparr>he_heartbeat_at := nanos\<rparr>"

text \<open>The two times are in the snapshot only once they were marked.\<close>

definition Snapshot :: "health \<Rightarrow> bool \<times> int option \<times> int option" where
  "Snapshot h =
     (he_connected h, if 0 < he_metric_at h then Some (he_metric_at h) else None,
      if 0 < he_heartbeat_at h then Some (he_heartbeat_at h) else None)"

subsection \<open>Starting\<close>

definition sliceToSet :: "string list \<Rightarrow> string set" where
  "sliceToSet values = set values - {[]}"

definition agentPolicy :: "config \<Rightarrow> policy" where
  "agentPolicy cfg =
     normalizePolicy
       \<lparr>pol_modules = sliceToSet (cfg_install_allowed_modules cfg),
        pol_hosts = sliceToSet (cfg_install_allowed_hosts cfg), pol_repo_slugs = {}, pol_artifacts = [],
        pol_audit_log_path = cfg_install_audit_log_path cfg\<rparr>"

datatype new_error = Runtime_state_failed file_error | Client_failed start_error

text \<open>The policy, the journal and the client are changed also when the start fails.\<close>

definition New :: "admin_env \<Rightarrow> io \<Rightarrow> config \<Rightarrow> journal \<Rightarrow> client
    \<Rightarrow> (new_error + string \<times> health) \<times> policy \<times> journal \<times> client" where
  "New E io cfg j c =
     (case InitializeRuntimeState io j of
        (Inl e, j1) \<Rightarrow> (Inl (Runtime_state_failed e), agentPolicy cfg, j1, c)
      | (Inr _, j1) \<Rightarrow>
          (case NewHeartbeatClient E cfg c of
             (Inl e, c1) \<Rightarrow> (Inl (Client_failed e), agentPolicy cfg, j1, c1)
           | (Inr nm, c1) \<Rightarrow> (Inr (nm, NewHealthStatus), agentPolicy cfg, j1, c1)))"

datatype log_level = Level_debug | Level_info | Level_warn | Level_error

definition BuildLogger :: "config \<Rightarrow> log_level" where
  "BuildLogger cfg =
     (if cfg_log_level cfg = ''debug'' then Level_debug
      else if cfg_log_level cfg = ''warn'' then Level_warn
      else if cfg_log_level cfg = ''error'' then Level_error
      else Level_info)"

text \<open>\<^verbatim>\<open>slog\<close> orders its levels by these numbers; a logger emits what is at or above its own.\<close>

fun level_number :: "log_level \<Rightarrow> int" where
  "level_number Level_debug = -4"
| "level_number Level_info = 0"
| "level_number Level_warn = 4"
| "level_number Level_error = 8"

instantiation log_level :: linorder
begin

definition less_eq_log_level :: "log_level \<Rightarrow> log_level \<Rightarrow> bool" where
  "less_eq_log_level a b \<longleftrightarrow> level_number a \<le> level_number b"

definition less_log_level :: "log_level \<Rightarrow> log_level \<Rightarrow> bool" where
  "less_log_level a b \<longleftrightarrow> level_number a < level_number b"

instance
proof
  fix a b :: log_level
  show "a \<le> b \<Longrightarrow> b \<le> a \<Longrightarrow> a = b"
    by (cases a; cases b) (simp_all add: less_eq_log_level_def)
qed (auto simp: less_eq_log_level_def less_log_level_def)

end

definition emits :: "config \<Rightarrow> log_level \<Rightarrow> bool" where
  "emits cfg level \<longleftrightarrow> BuildLogger cfg \<le> level"

subsection \<open>Loops\<close>

datatype run_error = Canceled | Deadline_exceeded | Failed string

text \<open>
  How a goroutine is found: returned, still in its \<^verbatim>\<open>select\<close>, stuck in a call that never
  returns, or dead with a panic (which takes the process down).
\<close>

datatype loop_end = Returned "run_error option" | Waiting | Stuck | Panicked

datatype tick_event = Tick int | Cancelled

text \<open>\<^verbatim>\<open>send\<close> of the heartbeat loop: \<open>beat\<close> is \<^verbatim>\<open>ReportHeartbeat\<close>, the time is the clock's after it.\<close>

definition sendHeartbeat ::
    "(int \<Rightarrow> 's \<Rightarrow> string option run \<times> 's) \<Rightarrow> int \<Rightarrow> 's \<times> health \<Rightarrow> bool \<times> 's \<times> health" where
  "sendHeartbeat beat now st =
     (case st of (s, h) \<Rightarrow>
        case beat now s of
          (Done (Some err), s1) \<Rightarrow> (True, s1, SetAdminConnected False h)
        | (Done None, s1) \<Rightarrow> (True, s1, MarkHeartbeat now (SetAdminConnected True h))
        | (Blocked, s1) \<Rightarrow> (False, s1, h)
        | (Out_of_fuel, s1) \<Rightarrow> (False, s1, h))"

fun heartbeatTicks ::
    "(int \<Rightarrow> 's \<Rightarrow> string option run \<times> 's) \<Rightarrow> tick_event list \<Rightarrow> 's \<times> health \<Rightarrow> loop_end \<times> 's \<times> health" where
  "heartbeatTicks beat [] st = (Waiting, st)"
| "heartbeatTicks beat (Cancelled # evs) st = (Returned None, st)"
| "heartbeatTicks beat (Tick now # evs) st =
     (case sendHeartbeat beat now st of
        (True, st1) \<Rightarrow> heartbeatTicks beat evs st1
      | (False, st1) \<Rightarrow> (Stuck, st1))"

definition runAdminHeartbeatLoop ::
    "duration \<Rightarrow> (int \<Rightarrow> 's \<Rightarrow> string option run \<times> 's) \<Rightarrow> int \<Rightarrow> tick_event list \<Rightarrow> 's \<times> health
       \<Rightarrow> loop_end \<times> 's \<times> health" where
  "runAdminHeartbeatLoop interval beat now evs st =
     (case sendHeartbeat beat now st of
        (False, st1) \<Rightarrow> (Stuck, st1)
      | (True, st1) \<Rightarrow> if interval \<le> 0 then (Panicked, st1) else heartbeatTicks beat evs st1)"

text \<open>The health loop logs one line a tick.\<close>

fun healthTicks :: "tick_event list \<Rightarrow> health \<Rightarrow> loop_end \<times> (bool \<times> int option \<times> int option) list" where
  "healthTicks [] h = (Waiting, [])"
| "healthTicks (Cancelled # evs) h = (Returned None, [])"
| "healthTicks (Tick now # evs) h = (case healthTicks evs h of (e, logged) \<Rightarrow> (e, Snapshot h # logged))"

definition runHealthLoop :: "duration \<Rightarrow> tick_event list \<Rightarrow> health \<Rightarrow> loop_end \<times> (bool \<times> int option \<times> int option) list" where
  "runHealthLoop interval evs h = (if interval \<le> 0 then (Panicked, []) else healthTicks evs h)"

text \<open>
  \<^verbatim>\<open>run\<close> waits for its four loops, given in the order in which they end; the first error is
  the group's, a plain cancellation is none.
\<close>

definition groupError :: "loop_end list \<Rightarrow> run_error option" where
  "groupError ends =
     (case List.find (\<lambda>e. \<exists>err. e = Returned (Some err)) ends of
        Some (Returned err) \<Rightarrow> err
      | _ \<Rightarrow> None)"

definition agentRun :: "loop_end list \<Rightarrow> loop_end" where
  "agentRun ends =
     (if Panicked \<in> set ends then Panicked
      else if Stuck \<in> set ends then Stuck
      else if Waiting \<in> set ends then Waiting
      else Returned (if groupError ends = Some Canceled then None else groupError ends))"

subsection \<open>Stopping\<close>

text \<open>What \<^verbatim>\<open>Run\<close> can see: the agent has ended, a signal, the grace timer.\<close>

datatype stop_event = Agent_ended "run_error option" | Signal | Grace_over

fun gracefulStop :: "stop_event list \<Rightarrow> run_error option option" where
  "gracefulStop [] = None"
| "gracefulStop (Agent_ended err # evs) = Some err"
| "gracefulStop (Signal # evs) = Some (Some Canceled)"
| "gracefulStop (Grace_over # evs) = Some (Some Deadline_exceeded)"

text \<open>There is no grace timer before the first signal.\<close>

fun awaitEnd :: "stop_event list \<Rightarrow> run_error option option" where
  "awaitEnd [] = None"
| "awaitEnd (Agent_ended err # evs) = Some err"
| "awaitEnd (Signal # evs) = gracefulStop evs"
| "awaitEnd (Grace_over # evs) = awaitEnd evs"

definition agentShutdown :: "client \<times> health \<Rightarrow> client \<times> health" where
  "agentShutdown ch = (Close (fst ch), SetAdminConnected False (snd ch))"

text \<open>\<open>None\<close>: the process has not stopped yet.\<close>

definition Run :: "stop_event list \<Rightarrow> client \<times> health \<Rightarrow> run_error option option \<times> client \<times> health" where
  "Run evs ch =
     (case awaitEnd evs of
        None \<Rightarrow> (None, ch)
      | Some err \<Rightarrow> (Some err, agentShutdown ch))"

subsection \<open>Reporting metrics\<close>

record pb_gpu =
  pg_count :: u64
  pg_util :: float64
  pg_mem_used :: u64
  pg_mem_total :: u64

record pb_service_metric =
  pn_service :: string
  pn_cpu :: float64
  pn_mem_used :: u64
  pn_disk_read :: float64
  pn_disk_write :: float64
  pn_net_rx :: float64
  pn_net_tx :: float64
  pn_gpu_util :: float64
  pn_gpu_mem :: u64

record pb_metric =
  pk_ts_ms :: i64
  pk_cpu :: float64
  pk_mem_used :: u64
  pk_mem_total :: u64
  pk_disk_read :: float64
  pk_disk_write :: float64
  pk_net_rx :: float64
  pk_net_tx :: float64
  pk_gpu :: pb_gpu
  pk_services :: "pb_service_metric list"
  pk_uptime :: u64

record metrics_request =
  mr_agent_id :: string
  mr_mode :: string
  mr_records :: "pb_metric list"

definition toServiceMetric :: "service_record \<Rightarrow> pb_service_metric" where
  "toServiceMetric r =
     \<lparr>pn_service = sm_service r, pn_cpu = sm_cpu r, pn_mem_used = sm_mem_used r, pn_disk_read = sm_disk_read r,
      pn_disk_write = sm_disk_write r, pn_net_rx = sm_net_rx r, pn_net_tx = sm_net_tx r,
      pn_gpu_util = sm_gpu_util r, pn_gpu_mem = sm_gpu_mem r\<rparr>"

definition toMetricRecord :: "basic_record \<Rightarrow> pb_metric" where
  "toMetricRecord r =
     \<lparr>pk_ts_ms = bm_timestamp r, pk_cpu = bm_cpu r, pk_mem_used = bm_mem_used r, pk_mem_total = bm_mem_total r,
      pk_disk_read = bm_disk_read r, pk_disk_write = bm_disk_write r, pk_net_rx = bm_net_rx r,
      pk_net_tx = bm_net_tx r,
      pk_gpu = \<lparr>pg_count = gp_count (bm_gpu r), pg_util = gp_util (bm_gpu r),
                pg_mem_used = gp_mem_used (bm_gpu r), pg_mem_total = gp_mem_total (bm_gpu r)\<rparr>,
      pk_services = map toServiceMetric (bm_services r), pk_uptime = bm_uptime r\<rparr>"

definition reportRequest :: "string \<Rightarrow> string \<Rightarrow> basic_record list \<Rightarrow> metrics_request" where
  "reportRequest agentID mode records =
     \<lparr>mr_agent_id = trim_space agentID, mr_mode = trim_space (to_lower mode),
      mr_records = map toMetricRecord records\<rparr>"

definition ReportMetrics ::
    "preflight \<Rightarrow> admin_env \<Rightarrow> config \<Rightarrow> string \<Rightarrow> (metrics_request \<Rightarrow> nat \<Rightarrow> string + unit)
       \<Rightarrow> string \<Rightarrow> string \<Rightarrow> basic_record list \<Rightarrow> client \<Rightarrow> string option run \<times> client" where
  "ReportMetrics pre E cfg nm report agentID mode records c =
     (if cl_conn c = None then (Done (Some ''heartbeat client is nil''), c)
      else if records = [] then (Done None, c)
      else case invokeWithRecovery pre E cfg nm (report (reportRequest agentID mode records)) c of
             (Blocked, c1) \<Rightarrow> (Blocked, c1)
           | (Out_of_fuel, c1) \<Rightarrow> (Out_of_fuel, c1)
           | (Done (Inl e), c1) \<Rightarrow> (Done (Some e), c1)
           | (Done (Inr _), c1) \<Rightarrow> (Done None, c1))"

subsection \<open>How a run ends\<close>

lemma Run_cases:
  "Run evs ch = (None, ch) \<and> awaitEnd evs = None
   \<or> (\<exists>err. Run evs ch = (Some err, agentShutdown ch) \<and> awaitEnd evs = Some err)"
  by (simp add: Run_def split: option.splits)

text \<open>A clean stop is the agent's own: it ended without an error, before the grace was over.\<close>

lemma gracefulStop_clean: "gracefulStop evs = Some None \<longleftrightarrow> (\<exists>rest. evs = Agent_ended None # rest)"
  by (cases evs rule: gracefulStop.cases) auto

lemma awaitEnd_ended:
  "awaitEnd evs = Some err \<Longrightarrow> Agent_ended err \<in> set evs \<or> err = Some Canceled \<or> err = Some Deadline_exceeded"
proof (induction evs rule: awaitEnd.induct)
  case (3 evs)
  then show ?case by (cases evs rule: gracefulStop.cases) auto
qed auto

lemma agentRun_stuck: "Stuck \<in> set ends \<Longrightarrow> \<nexists>err. agentRun ends = Returned err"
  by (simp add: agentRun_def)

text \<open>
  The agent as \<^verbatim>\<open>Run\<close> sees it: it is reported as ended only if its loops did end that way.
\<close>

definition observed :: "loop_end list \<Rightarrow> stop_event list \<Rightarrow> bool" where
  "observed ends evs \<longleftrightarrow> (\<forall>err. Agent_ended err \<in> set evs \<longrightarrow> agentRun ends = Returned err)"

lemma stuck_stop:
  assumes "Stuck \<in> set ends" "observed ends evs"
  shows "awaitEnd evs \<in> {None, Some (Some Canceled), Some (Some Deadline_exceeded)}"
  using assms agentRun_stuck [OF assms(1)] awaitEnd_ended [of evs]
  by (cases "awaitEnd evs") (auto simp: observed_def)

text \<open>
  The heartbeats a loop makes, in order, each with the time and the state it starts from: the
  one before the ticker and one for every tick up to the end, the cancellation or a heartbeat
  that does not return.
\<close>

fun tickBeats ::
    "(int \<Rightarrow> 's \<Rightarrow> string option run \<times> 's) \<Rightarrow> tick_event list \<Rightarrow> 's \<times> health \<Rightarrow> (int \<times> 's) list" where
  "tickBeats beat [] st = []"
| "tickBeats beat (Cancelled # evs) st = []"
| "tickBeats beat (Tick now # evs) st =
     (now, fst st) # (case sendHeartbeat beat now st of
                        (True, st1) \<Rightarrow> tickBeats beat evs st1
                      | (False, st1) \<Rightarrow> [])"

definition loopBeats ::
    "duration \<Rightarrow> (int \<Rightarrow> 's \<Rightarrow> string option run \<times> 's) \<Rightarrow> int \<Rightarrow> tick_event list \<Rightarrow> 's \<times> health
       \<Rightarrow> (int \<times> 's) list" where
  "loopBeats interval beat now evs st =
     (now, fst st) # (case sendHeartbeat beat now st of
                        (True, st1) \<Rightarrow> if interval \<le> 0 then [] else tickBeats beat evs st1
                      | (False, st1) \<Rightarrow> [])"

lemma blocked_send: "fst (beat now (fst st)) = Blocked \<Longrightarrow> \<exists>st1. sendHeartbeat beat now st = (False, st1)"
  by (cases st; cases "beat now (fst st)") (auto simp: sendHeartbeat_def)

lemma stuck_tick:
  "(now, s) \<in> set (tickBeats beat evs st) \<Longrightarrow> fst (beat now s) = Blocked
   \<Longrightarrow> fst (heartbeatTicks beat evs st) = Stuck"
proof (induction beat evs st rule: heartbeatTicks.induct)
  case (3 beat t evs st)
  obtain ok st1 where send: "sendHeartbeat beat t st = (ok, st1)" by (metis surj_pair)
  show ?case
  proof (cases ok)
    case True
    have "(now, s) \<noteq> (t, fst st)"
    proof
      assume "(now, s) = (t, fst st)"
      with 3(3) have "fst (beat t (fst st)) = Blocked" by simp
      from blocked_send [of beat t st, OF this] send True show False by simp
    qed
    with 3(2) send True have "(now, s) \<in> set (tickBeats beat evs st1)" by auto
    from 3(1) [OF send [symmetric] _ this 3(3)] True have "fst (heartbeatTicks beat evs st1) = Stuck" by simp
    then show ?thesis using send True by simp
  qed (simp add: send)
qed simp_all

lemma stuck_beat:
  assumes "(t, s) \<in> set (loopBeats interval beat now evs st)" and "fst (beat t s) = Blocked"
  shows "fst (runAdminHeartbeatLoop interval beat now evs st) = Stuck"
proof -
  obtain ok st1 where send: "sendHeartbeat beat now st = (ok, st1)" by (metis surj_pair)
  show ?thesis
  proof (cases ok)
    case True
    have "(t, s) \<noteq> (now, fst st)"
    proof
      assume "(t, s) = (now, fst st)"
      with assms(2) have "fst (beat now (fst st)) = Blocked" by simp
      from blocked_send [of beat now st, OF this] send True show False by simp
    qed
    with assms(1) send True have "0 < interval" and m: "(t, s) \<in> set (tickBeats beat evs st1)"
      by (auto simp: loopBeats_def split: if_splits)
    with stuck_tick [OF m assms(2)] send True show ?thesis by (simp add: runAdminHeartbeatLoop_def)
  qed (simp add: send runAdminHeartbeatLoop_def)
qed

definition routedBeat ::
    "nat \<Rightarrow> admin_env \<Rightarrow> config \<Rightarrow> string \<Rightarrow> (nat \<Rightarrow> string + unit) \<Rightarrow> (nat \<Rightarrow> string + routing_entry option list)
       \<Rightarrow> (string \<Rightarrow> string) \<Rightarrow> hosts_io \<Rightarrow> int \<Rightarrow> client \<times> routing \<Rightarrow> string option run \<times> client \<times> routing" where
  "routedBeat fuel E cfg nm report fetch sha io now =
     ReportHeartbeat (maybeRenewClientCertificate (Suc fuel) E cfg nm) E cfg nm report fetch sha io"

text \<open>
  The other loops use the same client: \<open>others\<close> is what they did to it since the loop's last
  heartbeat.
\<close>

definition sharedBeat ::
    "(int \<Rightarrow> client \<times> routing \<Rightarrow> client \<times> routing) \<Rightarrow> nat \<Rightarrow> admin_env \<Rightarrow> config \<Rightarrow> string \<Rightarrow> (nat \<Rightarrow> string + unit)
       \<Rightarrow> (nat \<Rightarrow> string + routing_entry option list) \<Rightarrow> (string \<Rightarrow> string) \<Rightarrow> hosts_io \<Rightarrow> int
       \<Rightarrow> client \<times> routing \<Rightarrow> string option run \<times> client \<times> routing" where
  "sharedBeat others fuel E cfg nm report fetch sha io now s =
     routedBeat fuel E cfg nm report fetch sha io now (others now s)"

definition beat_blocked :: "admin_env \<Rightarrow> config \<Rightarrow> client \<Rightarrow> bool" where
  "beat_blocked E cfg c \<longleftrightarrow>
     cl_conn c \<noteq> None
   \<and> (cl_renew_mu c
      \<or> renewal_due E cfg c \<and> is_ok (en_csr E (cl_tick c + 2) False) \<and> is_ok (en_csr E (cl_tick c + 3) True))"

lemma blocked_beat:
  assumes "beat_blocked E cfg c"
  shows "fst (routedBeat fuel E cfg nm report fetch sha io now (c, r)) = Blocked"
proof -
  have "\<exists>c1. invokeWithRecovery (maybeRenewClientCertificate (Suc fuel) E cfg nm) E cfg nm report c = (Blocked, c1)"
  proof (cases "cl_renew_mu c")
    case True
    from held_lock_blocks_calls [OF this] show ?thesis by blast
  next
    case False
    with assms deadlock [OF False, of E cfg fuel nm report] show ?thesis by (auto simp: beat_blocked_def)
  qed
  with assms show ?thesis
    by (auto simp: beat_blocked_def routedBeat_def ReportHeartbeat_def simp del: maybeRenewClientCertificate.simps)
qed

text \<open>
  C22: Once a certificate is due for renewal at a heartbeat, the first or any later one, whatever
  the other loops did to the client in between, the agent cannot be stopped cleanly any more:
  the heartbeat loop is stuck in that heartbeat and never sees the cancelled context, so that
  nothing \<^verbatim>\<open>Run\<close> can observe ends the process without an error, however the other loops end.
  A signal and the end of the grace time stop it with the deadline's error; only then is the
  connection closed.  Due means: one of the certificates is near its end, the last check is a
  minute or more ago, and the keys and signing requests of the renewal can be made; a renewal
  mutex that another call was left holding has the same effect.
\<close>

theorem due_renewal_forbids_clean_stop:
  assumes "(t, s) \<in> set (loopBeats (cfg_heartbeat_interval cfg)
           (sharedBeat others fuel E cfg nm report fetch sha io) now evs st)"
    and "beat_blocked E cfg (fst (others t s))"
    and "fst (runAdminHeartbeatLoop (cfg_heartbeat_interval cfg)
           (sharedBeat others fuel E cfg nm report fetch sha io) now evs st) \<in> set ends"
    and "observed ends stops"
  shows "fst (runAdminHeartbeatLoop (cfg_heartbeat_interval cfg)
           (sharedBeat others fuel E cfg nm report fetch sha io) now evs st) = Stuck
    \<and> fst (Run stops (c', h')) \<in> {None, Some (Some Canceled), Some (Some Deadline_exceeded)}
    \<and> Run [Signal, Grace_over] (c', h') = (Some (Some Deadline_exceeded), Close c', SetAdminConnected False h')"
proof -
  have "fst (sharedBeat others fuel E cfg nm report fetch sha io t s) = Blocked"
    using blocked_beat [OF assms(2), of fuel nm report fetch sha io t "snd (others t s)"] by (simp add: sharedBeat_def)
  from stuck_beat [where beat = "sharedBeat others fuel E cfg nm report fetch sha io", OF assms(1) this]
  have loop: "fst (runAdminHeartbeatLoop (cfg_heartbeat_interval cfg)
      (sharedBeat others fuel E cfg nm report fetch sha io) now evs st) = Stuck" .
  then have "Stuck \<in> set ends" using assms(3) by metis
  from stuck_stop [OF this assms(4)] have "awaitEnd stops \<in> {None, Some (Some Canceled), Some (Some Deadline_exceeded)}" .
  moreover have "Run [Signal, Grace_over] (c', h') = (Some (Some Deadline_exceeded), Close c', SetAdminConnected False h')"
    by (simp add: Run_def agentShutdown_def)
  ultimately show ?thesis using loop Run_cases [of stops "(c', h')"] by auto
qed

text \<open>The health loop logs at debug level: its lines appear only if the configuration says so.\<close>

lemma health_lines_debug_only: "emits cfg Level_debug \<longleftrightarrow> cfg_log_level cfg = ''debug''"
  by (auto simp: emits_def BuildLogger_def less_eq_log_level_def)

lemma errors_always_emitted: "emits cfg Level_error"
  by (cases "BuildLogger cfg") (simp_all add: emits_def less_eq_log_level_def)

text \<open>
  What the health status says of the control plane is the outcome of the last heartbeat.
\<close>

lemma connected_after_beat:
  assumes "sendHeartbeat beat now (s, h) = (True, s1, h1)"
  shows "he_connected h1 \<longleftrightarrow> fst (beat now s) = Done None"
  using assms
  by (auto simp: sendHeartbeat_def SetAdminConnected_def MarkHeartbeat_def split: prod.splits run.splits option.splits)

text \<open>Every record of a report is sent, in order, none changed.\<close>

lemma reported_records: "length (mr_records (reportRequest a m rs)) = length rs"
  by (simp add: reportRequest_def)

subsection \<open>A loop that gets stuck at its second heartbeat\<close>

text \<open>The clock stands at 0 for the first two questions; then the certificate is due.\<close>

definition aging_env :: admin_env where
  "aging_env = (sample_env 0)\<lparr>en_now := (\<lambda>t. if t < 2 then 0 else 81 * hour)\<rparr>"

definition checked_client :: client where
  "checked_client = fresh_client\<lparr>cl_conn := Some 0, cl_last_cert_check := Some 0\<rparr>"

definition quiet_routing :: routing where
  "quiet_routing = \<lparr>ro_last_sync_at = None, ro_last_hash = ''empty'', ro_hosts = None\<rparr>"

abbreviation aging_beat :: "int \<Rightarrow> client \<times> routing \<Rightarrow> string option run \<times> client \<times> routing" where
  "aging_beat \<equiv> sharedBeat (\<lambda>_ s. s) 0 aging_env (loadRaw sample_host) [] (\<lambda>_. Inr ()) (\<lambda>_. Inr []) (\<lambda>s. s) works"

lemma throttled:
  assumes "\<not> cl_renew_mu c" and "cl_last_cert_check c = Some t"
    and "en_now E (cl_tick c) - t < certRenewCheckInterval"
  shows "maybeRenewClientCertificate (Suc n) E cfg nm c = (Done None, c)"
proof -
  have "c\<lparr>cl_renew_mu := False\<rparr> = c" using assms(1) by (cases c) simp
  with assms show ?thesis by (simp add: lockedRenewCheck_def renewCheckBody_def Let_def)
qed

lemma aging_call:
  assumes "cl_tick c < 2" "cl_conn c = Some n" "\<not> cl_renew_mu c" "cl_last_cert_check c = Some 0"
  shows "invokeWithRecovery (maybeRenewClientCertificate (Suc 0) aging_env cfg nm) aging_env cfg nm (\<lambda>_. Inr x) c
     = (Done (Inr x), c\<lparr>cl_calls := cl_calls c @ [n], cl_tick := Suc (cl_tick c)\<rparr>)"
proof -
  have "en_now aging_env (cl_tick c) - 0 < certRenewCheckInterval"
    using assms(1) by (simp add: aging_env_def certRenewCheckInterval_def duration_defs)
  from throttled [OF assms(3,4) this, of 0 cfg nm] assms(2) show ?thesis
    by (simp add: invokeWithRecovery_def invokeConnected_def invokeOn_def invoke_def ask_def
        del: maybeRenewClientCertificate.simps)
qed

lemma aging_first_beat:
  "aging_beat now (checked_client, quiet_routing)
     = (Done None, checked_client\<lparr>cl_calls := [0, 0], cl_tick := 2\<rparr>, quiet_routing\<lparr>ro_last_sync_at := Some 0\<rparr>)"
  by (simp add: sharedBeat_def routedBeat_def ReportHeartbeat_def aging_call checked_client_def fresh_client_def
      maybeSyncHostRouting_def syncHostRoutingSnapshot_def quiet_routing_def storeSnapshot_def
      readHostRoutingEntries_def List.map_filter_def computeHostRoutingSnapshotHash_def Let_def numeral_2_eq_2
      del: maybeRenewClientCertificate.simps)
    (simp add: aging_env_def)

lemma aging_due: "beat_blocked aging_env cfg (checked_client\<lparr>cl_calls := [0, 0], cl_tick := 2\<rparr>)"
  by (simp add: beat_blocked_def renewal_due_def Let_def aging_env_def checked_client_def fresh_client_def
      loadLeafCertificate_def ask_def sample_env_def nearExpiry_def sample_window)
    (simp add: certRenewCheckInterval_def duration_defs)

theorem due_renewal_forbids_clean_stop_witness:
  "let beats = runAdminHeartbeatLoop (cfg_heartbeat_interval (loadRaw sample_host)) aging_beat 0;
       st = ((checked_client, quiet_routing), NewHealthStatus)
   in fst (beats [] st) = Waiting \<and> fst (beats [Tick 1, Cancelled] st) = Stuck
    \<and> fst (Run [Signal, Grace_over] (checked_client, NewHealthStatus)) = Some (Some Deadline_exceeded)"
proof -
  let ?st = "((checked_client, quiet_routing), NewHealthStatus)" and ?i = "cfg_heartbeat_interval (loadRaw sample_host)"
  let ?c = "checked_client\<lparr>cl_calls := [0, 0], cl_tick := 2\<rparr>" and ?r = "quiet_routing\<lparr>ro_last_sync_at := Some 0\<rparr>"
  have i: "0 < ?i" by code_simp
  have first: "sendHeartbeat aging_beat 0 ?st = (True, (?c, ?r), MarkHeartbeat 0 (SetAdminConnected True NewHealthStatus))"
    by (simp add: sendHeartbeat_def aging_first_beat)
  have m: "(1, (?c, ?r)) \<in> set (loopBeats ?i aging_beat 0 [Tick 1, Cancelled] ?st)"
    using i by (simp add: loopBeats_def first)
  have d: "beat_blocked aging_env (loadRaw sample_host) (fst ((\<lambda>(_::int) s. s) 1 (?c, ?r)))"
    using aging_due by simp
  let ?ends = "[fst (runAdminHeartbeatLoop ?i aging_beat 0 [Tick 1, Cancelled] ?st)]"
  have o: "observed ?ends [Signal, Grace_over]" by (simp add: observed_def)
  have e: "fst (runAdminHeartbeatLoop ?i aging_beat 0 [Tick 1, Cancelled] ?st) \<in> set ?ends" by simp
  have "fst (runAdminHeartbeatLoop ?i aging_beat 0 [] ?st) = Waiting"
    using i by (simp add: runAdminHeartbeatLoop_def first)
  with due_renewal_forbids_clean_stop [OF m d e o, of checked_client NewHealthStatus] show ?thesis
    unfolding Let_def by simp
qed

end
