(* ===== verification/Probe_Server.thy ===== *)
theory Probe_Server
  imports Agent_Run
begin

text \<open>
  The TLS settings (\<^verbatim>\<open>internal/config/config.go\<close>), the life of the probe listener
  (\<^verbatim>\<open>internal/agent/probe_listener.go\<close>), the load of the metrics policy
  (\<^verbatim>\<open>internal/adminrpc/rpc.go\<close>) and the entry point (\<^verbatim>\<open>cmd/agent/main.go\<close>).
\<close>

subsection \<open>TLS settings\<close>

text \<open>
  The files as the TLS library sees them: a CA file cannot be read or does or does not hold
  certificates; a certificate and its key fit or do not.
\<close>

record tls_files =
  tf_ca :: "string \<Rightarrow> string + bool"
  tf_pair :: "string \<Rightarrow> string \<Rightarrow> string option"

datatype client_auth = No_client_cert | Require_and_verify

record tls_config =
  tl_min_version :: nat
  tl_ca :: string
  tl_client_auth :: client_auth
  tl_certificate :: "string \<times> string"
  tl_server_name :: string

definition loadCA :: "tls_files \<Rightarrow> string \<Rightarrow> string \<Rightarrow> string + unit" where
  "loadCA F what path =
     (case tf_ca F path of
        Inl e \<Rightarrow> Inl (what @ e)
      | Inr accepted \<Rightarrow> if accepted then Inr () else Inl ''append admin CA cert failed'')"

definition AdminTLSConfig :: "tls_files \<Rightarrow> config \<Rightarrow> string + tls_config" where
  "AdminTLSConfig F cfg =
     (let ca = trim_space (cfg_admin_server_ca_path cfg);
          cert = trim_space (cfg_client_cert_path cfg); key = trim_space (cfg_client_key_path cfg)
      in case loadCA F ''read admin server CA file: '' ca of
           Inl e \<Rightarrow> Inl e
         | Inr _ \<Rightarrow>
             (case tf_pair F cert key of
                Some e \<Rightarrow> Inl (''load admin mTLS cert/key: '' @ e)
              | None \<Rightarrow>
                  Inr \<lparr>tl_min_version = 12, tl_ca = ca, tl_client_auth = No_client_cert,
                       tl_certificate = (cert, key), tl_server_name = trim_space (cfg_admin_server_name cfg)\<rparr>))"

definition ProbeServerTLSConfig :: "tls_files \<Rightarrow> config \<Rightarrow> string + tls_config" where
  "ProbeServerTLSConfig F cfg =
     (let ca = trim_space (cfg_admin_client_ca_path cfg);
          cert = trim_space (cfg_server_cert_path cfg); key = trim_space (cfg_server_key_path cfg)
      in case loadCA F ''read admin client CA file: '' ca of
           Inl e \<Rightarrow> Inl e
         | Inr _ \<Rightarrow>
             (case tf_pair F cert key of
                Some e \<Rightarrow> Inl (''load agent probe cert/key: '' @ e)
              | None \<Rightarrow>
                  Inr \<lparr>tl_min_version = 12, tl_ca = ca, tl_client_auth = Require_and_verify,
                       tl_certificate = (cert, key), tl_server_name = []\<rparr>))"

subsection \<open>The probe listener\<close>

text \<open>
  How serving ended, if it did: the error, and whether the context had been cancelled, after
  which the server is stopped gracefully or, two seconds later, at once.
\<close>

record listener_env =
  li_listen :: "string option"
  li_tls :: tls_files
  li_served :: "(string option \<times> bool) option"

text \<open>The second component is the TLS setting it served with, if it came that far.\<close>

definition runProbeListener :: "listener_env \<Rightarrow> config \<Rightarrow> loop_end \<times> tls_config option" where
  "runProbeListener L cfg =
     (let addr = cfg_probe_listen_addr cfg in
      if addr = [] then (Returned (Some (Failed ''empty probe listen address'')), None)
      else case li_listen L of
        Some e \<Rightarrow> (Returned (Some (Failed (''listen probe endpoint '' @ addr @ '': '' @ e))), None)
      | None \<Rightarrow>
          (case ProbeServerTLSConfig (li_tls L) cfg of
             Inl e \<Rightarrow> (Returned (Some (Failed (''probe tls config failed: '' @ e))), None)
           | Inr tls \<Rightarrow>
               (case li_served L of
                  None \<Rightarrow> Waiting
                | Some (None, _) \<Rightarrow> Returned None
                | Some (Some e, cancelled) \<Rightarrow>
                    if cancelled then Returned None
                    else Returned (Some (Failed (''serve probe rpc endpoint '' @ addr @ '': '' @ e))),
                Some tls)))"

lemma serves_verified_clients_only:
  assumes "snd (runProbeListener L cfg) = Some tls"
  shows "tl_client_auth tls = Require_and_verify \<and> tl_ca tls = trim_space (cfg_admin_client_ca_path cfg)
    \<and> tf_ca (li_tls L) (tl_ca tls) = Inr True \<and> 12 \<le> tl_min_version tls"
  using assms
  by (auto simp: runProbeListener_def ProbeServerTLSConfig_def loadCA_def Let_def
      split: if_splits option.splits sum.splits)

subsection \<open>The metrics policy\<close>

definition noMetricsPolicy :: metrics_policy where
  "noMetricsPolicy =
     \<lparr>mp_stream_enabled = False, mp_batch_flush = 0, mp_batch_sample = 0, mp_stream_sample = 0, mp_max_batch = 0\<rparr>"

definition GetMetricsPolicy ::
    "preflight \<Rightarrow> admin_env \<Rightarrow> config \<Rightarrow> string \<Rightarrow> (string \<Rightarrow> nat \<Rightarrow> string + policy_response option) \<Rightarrow> string
       \<Rightarrow> client \<Rightarrow> (metrics_policy \<times> string option) run \<times> client" where
  "GetMetricsPolicy pre E cfg nm load agentID c =
     (if cl_conn c = None then (Done (noMetricsPolicy, Some ''heartbeat client is nil''), c)
      else case invokeWithRecovery pre E cfg nm (load (trim_space agentID)) c of
             (Blocked, c1) \<Rightarrow> (Blocked, c1)
           | (Out_of_fuel, c1) \<Rightarrow> (Out_of_fuel, c1)
           | (Done (Inl e), c1) \<Rightarrow> (Done (noMetricsPolicy, Some e), c1)
           | (Done (Inr resp), c1) \<Rightarrow> (Done (policyOfResponse resp, None), c1))"

text \<open>\<^verbatim>\<open>refreshPolicy\<close> keeps the current policy when the load fails; \<open>None\<close> is that.\<close>

definition refreshPolicy :: "(metrics_policy \<times> string option) run \<Rightarrow> metrics_policy option run" where
  "refreshPolicy loaded =
     (case loaded of
        Done (p, None) \<Rightarrow> Done (Some p)
      | Done (_, Some _) \<Rightarrow> Done None
      | Blocked \<Rightarrow> Blocked
      | Out_of_fuel \<Rightarrow> Out_of_fuel)"

text \<open>The zero policy of a failed load never becomes the loop's.\<close>

lemma failed_load_kept:
  assumes "refreshPolicy (fst (GetMetricsPolicy pre E cfg nm load agentID c)) = Done (Some p)"
  shows "\<exists>resp. p = policyOfResponse resp"
  using assms
  by (auto simp: refreshPolicy_def GetMetricsPolicy_def split: if_splits prod.splits run.splits sum.splits option.splits)

subsection \<open>The entry point\<close>

text \<open>
  The exit status, once there is one: the configuration, the start and the run can each end
  the process with 1.
\<close>

definition mainExit :: "string + config \<Rightarrow> (config \<Rightarrow> new_error + string \<times> health)
    \<Rightarrow> (config \<Rightarrow> run_error option option) \<Rightarrow> int option" where
  "mainExit loaded start run =
     (case loaded of
        Inl _ \<Rightarrow> Some 1
      | Inr cfg \<Rightarrow>
          (case start cfg of
             Inl _ \<Rightarrow> Some 1
           | Inr _ \<Rightarrow>
               (case run cfg of
                  None \<Rightarrow> None
                | Some None \<Rightarrow> Some 0
                | Some (Some _) \<Rightarrow> Some 1)))"

lemma clean_exit_iff:
  "mainExit loaded start run = Some 0 \<longleftrightarrow>
     (\<exists>cfg nm h. loaded = Inr cfg \<and> start cfg = Inr (nm, h) \<and> run cfg = Some None)"
  by (auto simp: mainExit_def split: sum.splits option.splits)

end
