(* ===== verification/Spec2Isabelle.thy ===== *)
theory Spec2Isabelle
  imports Install_Undo Wire_Service Service_Metrics Identity Probe_Server
begin

text \<open>
  The aurora agent, a Go daemon that installs, restarts and removes modules on a host for a
  control plane, runs commands for it, reports metrics and heartbeats to it and keeps a block
  of \<^verbatim>\<open>/etc/hosts\<close> for it.  This is a shallow embedding of its code under \<^verbatim>\<open>src/internal\<close>: a
  function of the source is a HOL function of the same name, its state is passed and returned,
  its errors are values, its integers have their width where they can wrap around.

  \<^bold>\<open>How the program is put together.\<close>
  \<^verbatim>\<open>cmd/agent/main.go\<close> loads the configuration (theory Config) and runs the agent (Agent_Run).
  The start configures the install policy (Policy), repairs the operation journal (Journal),
  obtains the agent's certificates (Identity, Admin_Client) and connects to the control plane
  (Admin_Client).  Four loops run then: the health log, the server of the RPC methods
  (Wire_Service behind Probe_Auth), the heartbeats with the synchronisation of the hosts file
  (Host_Routing) and the metrics (Metrics, fed by Proc_Parsers and Service_Metrics).  The RPC
  methods run commands (Command_Runner) or call the installer's handlers (Rpc_Service), which
  share the journal, the inventory (State_Store), the audit trail (Audit_Trail), the redaction
  of secrets (Redaction) and the install engine (Engine).  The engine checks the request
  (Policy) and the manifest (Manifest), fetches and unpacks the bundle (Artifact), writes the
  runtime files and takes everything back when a step fails (Rollback), all on the host's file
  tree (Host_Files).

  \<^bold>\<open>Shared theories.\<close>
  \<^item> Prelude: results, the collecting of values without duplicates that the source writes out
    several times, normalising functions (locale \<open>normaliser\<close>), 64-bit durations, and the named
    theorem collections.
  \<^item> Go_Strings, Go_Url, Go_Float: the parts of \<^verbatim>\<open>strings\<close>, \<^verbatim>\<open>strconv\<close>, \<^verbatim>\<open>bufio\<close>, \<^verbatim>\<open>net/url\<close>, \<^verbatim>\<open>path\<close>,
    \<^verbatim>\<open>net\<close> and of \<^verbatim>\<open>float64\<close> arithmetic that the agent uses, over byte strings and rationals
    rounded to 53 bits.
  \<^item> Module_Types: the records of \<^verbatim>\<open>internal/agent/install/module_types.go\<close>.
  \<^item> State_File: a JSON state file as what the decoder makes of it, with the outcomes of a write
    that is not atomic, and the list algorithms of the two stores (locales for keyed lists).

  \<^bold>\<open>The installer\<close> (\<^verbatim>\<open>internal/agent/install\<close>).
  \<^item> Policy (\<^verbatim>\<open>policy.go\<close>): exactly which requests pass, and what the agent's own policy admits.
  \<^item> Manifest (\<^verbatim>\<open>manifest.go\<close>): decoding is a parameter, normalisation and checks are modelled;
    an accepted manifest has what the later steps rely on.
  \<^item> Journal (\<^verbatim>\<open>operation_journal.go\<close>): the records, the module locks, and a step relation of
    concurrent handlers, failing writes and restarts.  The step relation admits writes that
    happen or leave the old records (\<open>sound_io\<close>), and an invariant by rule induction gives mutual
    exclusion per module, at most one start per request id, and that a restart unblocks.  The
    write of the code is not atomic: \<open>torn_write_repeats\<close> shows what a write cut short does.
  \<^item> State_Store (\<^verbatim>\<open>state_store.go\<close>): the inventory as a list on disk, refined to a finite map;
    what a torn write leaves behind (\<open>inventory_outcome\<close>), which is what the handlers that drop
    the error of a write can end with.
  \<^item> Redaction (\<^verbatim>\<open>redaction.go\<close>) and Audit_Trail (\<^verbatim>\<open>audit.go\<close>): the secrets of a request, the
    replacements and the two regular expressions as hand-written matchers.
  \<^item> Host_Files, Rollback (\<^verbatim>\<open>rollback.go\<close>): the file tree as an association list from paths to
    nodes, an action monad of \<^verbatim>\<open>os\<close> calls any of which may fail before or in the middle, capture
    and restore.  Locales \<open>host_order\<close>, \<open>fs_blind\<close> and their extensions state what it takes for
    a whole procedure to respect an order on trees; their interpretations give the framing
    lemmas.  Whatever changes in between, a restore leaves the captured paths as they were.
  \<^item> Artifact (\<^verbatim>\<open>artifact.go\<close>, \<^verbatim>\<open>artifact_cache.go\<close>): download with at most ten redirects, checksum,
    cache, pruning, unpacking.  Every request goes to an allowed host, every returned bundle has
    its checksum, unpacking stays inside its directory.
  \<^item> Engine (\<^verbatim>\<open>engine.go\<close>, \<^verbatim>\<open>render.go\<close>): the whole of \<^verbatim>\<open>InstallModule\<close> with its deferred rollback.
    Install_Trace: the healthcheck loops end (their measure is the time left on the clock) within
    two polls a second of the timeout, and a successful install logged its stages in order and
    ran exactly the manifest's commands, each with success at its own call.  Install_Safety, Fetch_Safety: every writer touches one
    path.  Install_Undo: a failed install leaves no trace beside the bundle cache, by a Hoare
    logic of the steps whose invariant is that the rollback can undo them.
  \<^item> Rpc_Service (\<^verbatim>\<open>rpc_service.go\<close>): install, streamed install, restart, uninstall and list,
    each whole.  Installs that are not repeated, locks that are released, redacted output, and
    what is recorded; where the code drops the error of a write, the properties say which
    write it is, by its number from the end of the call, and what holds when it failed.
  \<^item> Command_Runner (\<^verbatim>\<open>install_service.go\<close>): one answer, or a stream with the two readers of the
    pipes under an arbitrary scheduler (the recursion ends because each turn consumes a line or
    a reader).

  \<^bold>\<open>The control plane client\<close> (\<^verbatim>\<open>internal/adminrpc\<close>).
  \<^item> Admin_Client (\<^verbatim>\<open>client.go\<close>, \<^verbatim>\<open>rpc.go\<close>, \<^verbatim>\<open>renew.go\<close>, \<^verbatim>\<open>bootstrap.go\<close>): connection, recovery of
    calls, renewal.  Renewal and call are mutually recursive; the fuel bounds their nesting and
    one level suffices for every run (\<open>one_level_suffices\<close>), because the second level finds
    the mutex taken: the renewal blocks itself.
  \<^item> Identity (\<^verbatim>\<open>bootstrap.go\<close>, \<^verbatim>\<open>helpers.go\<close>): the contents of the certificate requests, read back
    by the authorization of theory Probe_Auth.
  \<^item> Host_Routing (\<^verbatim>\<open>host_routing.go\<close>): the managed block of the hosts file, and the heartbeat.
    The lines that are not the agent's survive any sequence of snapshots, if no entry and none
    of those lines contains a marker or a carriage return.

  \<^bold>\<open>Server and process\<close> (\<^verbatim>\<open>internal/agent\<close>).
  \<^item> Probe_Auth (\<^verbatim>\<open>probe_listener.go\<close>): the interceptor equals a reference policy.
  \<^item> Wire_Service (\<^verbatim>\<open>proto_services.go\<close>, \<^verbatim>\<open>version\<close>): conversions of messages that lose nothing,
    the eight methods, and that calls without an admitted certificate are invisible.
  \<^item> Agent_Run (\<^verbatim>\<open>agent.go\<close>, \<^verbatim>\<open>lifecycle.go\<close>, \<^verbatim>\<open>health.go\<close>): start, loops and stop; what the blocked
    renewal means for the end of the process, at whichever heartbeat it comes.
  \<^item> Probe_Server (\<^verbatim>\<open>config.go\<close>, \<^verbatim>\<open>probe_listener.go\<close>, \<^verbatim>\<open>rpc.go\<close>, \<^verbatim>\<open>main.go\<close>): the TLS settings, the
    listener, which serves verified clients only, the load of the metrics policy, the exit.

  \<^bold>\<open>Metrics\<close> (\<^verbatim>\<open>internal/agent/basic_metrics_loop.go\<close>, \<^verbatim>\<open>internal/system\<close>, \<^verbatim>\<open>internal/collector\<close>).
  \<^item> Metrics: rates and percentages of wrapping 64-bit counters, and the batching loop as a
    function of its events, which neither loses nor repeats a record.
  \<^item> Proc_Parsers, Service_Metrics: parsers of \<^verbatim>\<open>/proc\<close>, \<^verbatim>\<open>systemctl\<close>, control groups and
    \<^verbatim>\<open>nvidia-smi\<close>, with read-back theorems over the texts those print, and the charge of GPU
    memory to services.

  \<^bold>\<open>Parameters.\<close>  What is not under \<^verbatim>\<open>src\<close> is an argument: the JSON decoder and the template
  engine, SHA-256, the network and the decoders of gzip and tar, gRPC and TLS, the key
  library, \<^verbatim>\<open>bash\<close>, \<^verbatim>\<open>systemctl\<close> and \<^verbatim>\<open>nvidia-smi\<close>, the clock, the names of temporary files, and
  the order in which Go ranges over a map.  Environments answer by the number of the question,
  so the same call can be answered differently each time.  \<^verbatim>\<open>time.ParseDuration\<close>,
  \<^verbatim>\<open>strconv.ParseFloat\<close> and \<^verbatim>\<open>net.ParseIP\<close> are arguments too.

  \<^bold>\<open>Not modelled.\<close>  The accepting of connections and the graceful stop of the server (the gRPC
  library's), JSON encoding, the text of the log, the load averages and the uptime (parsed
  floating-point numbers);
  symbolic links, owners and times of files; signals of the operating system other than as
  events.  Goroutines are interleaved where the code shares state between them (journal
  handlers, the readers of a command); the connection mutexes of the control plane client
  guard single assignments and are left out, the renewal mutex is modelled.  The cache mutex of
  artifacts is left out: the lemmas about it are for one install at a time.
\<close>

end
